(* ===== verification/VL_Prelude.thy ===== *)
theory VL_Prelude
  imports Main "HOL-Library.Word"
begin

text \<open>
  Shared vocabulary of the development: the C integer types as words, C strings and the
  \<^verbatim>\<open>ctype.h\<close> predicates the sources call, the rule collections of the component theories, and
  generic lemmas on lists, words and bits.
\<close>

unbundle bit_operations_syntax

section \<open>C types\<close>

text \<open>
  Unsigned C integers are words of their width, so that arithmetic wraps as in C. An
  \<^verbatim>\<open>int\<close> that only carries a status (0, -1, \<^verbatim>\<open>-errno\<close>) or a descriptor is an \<^typ>\<open>int\<close>.
\<close>

type_synonym u8 = "8 word"
type_synonym u16 = "16 word"
type_synonym u32 = "32 word"
type_synonym u64 = "64 word"

named_theorems ctype_simps \<open>definitions of the character classes\<close>
named_theorems frame_simps \<open>what an operation leaves unchanged\<close>
named_theorems lifo_simps \<open>laws of the buffer stacks\<close>
named_theorems bit_simps \<open>membership of single bits after an update\<close>

section \<open>C strings\<close>

text \<open>
  A C string is the list of its characters; the memory that holds it has one NUL more. Reading
  at an index up to the length is defined, reading further is not (\<^term>\<open>None\<close>).
\<close>

definition nul :: char where
  "nul = CHR 0x00"

definition cstr_at :: "string \<Rightarrow> nat \<Rightarrow> char option" where
  "cstr_at s i = (if i < length s then Some (s ! i) else if i = length s then Some nul else None)"

definition strlen :: "string \<Rightarrow> nat" where
  "strlen s = length (takeWhile (\<lambda>c. c \<noteq> nul) s)"

definition ascii :: "char \<Rightarrow> int" where
  "ascii c = of_char c"

definition isdigit :: "char \<Rightarrow> bool" where
  "isdigit c = (48 \<le> ascii c \<and> ascii c \<le> 57)"

definition isxdigit :: "char \<Rightarrow> bool" where
  "isxdigit c = (isdigit c \<or> (65 \<le> ascii c \<and> ascii c \<le> 70) \<or> (97 \<le> ascii c \<and> ascii c \<le> 102))"

definition isalpha :: "char \<Rightarrow> bool" where
  "isalpha c = ((65 \<le> ascii c \<and> ascii c \<le> 90) \<or> (97 \<le> ascii c \<and> ascii c \<le> 122))"

definition isspace :: "char \<Rightarrow> bool" where
  "isspace c = (ascii c = 32 \<or> (9 \<le> ascii c \<and> ascii c \<le> 13))"

text \<open>
  \<^verbatim>\<open>atoi\<close>: blanks, an optional sign, decimal digits. The C standard leaves the behaviour open when
  the value does not fit an \<^verbatim>\<open>int\<close>; that case is \<^term>\<open>None\<close>.
\<close>

definition dec_value :: "string \<Rightarrow> int" where
  "dec_value ds = foldl (\<lambda>acc c. acc * 10 + (ascii c - 48)) 0 ds"

definition atoi :: "string \<Rightarrow> int option" where
  "atoi s =
     (let t = dropWhile isspace s;
          neg = (t \<noteq> [] \<and> hd t = CHR ''-'');
          sign = (t \<noteq> [] \<and> (hd t = CHR ''-'' \<or> hd t = CHR ''+''));
          ds = takeWhile isdigit (if sign then tl t else t);
          v = (if neg then - dec_value ds else dec_value ds)
      in if - (2 ^ 31) \<le> v \<and> v < 2 ^ 31 then Some v else None)"

text \<open>Decimal digits of a number, as \<^verbatim>\<open>printf\<close> writes them.\<close>

fun dec_digits :: "nat \<Rightarrow> string" where
  "dec_digits n = (if n < 10 then [char_of (48 + n)] else dec_digits (n div 10) @ [char_of (48 + n mod 10)])"

declare dec_digits.simps [simp del]

lemmas ctype_defs [ctype_simps] = isdigit_def isxdigit_def isalpha_def isspace_def ascii_def

lemma strlen_le: "strlen s \<le> length s"
  by (simp add: strlen_def length_takeWhile_le)

lemma strlen_cstring [simp]: "nul \<notin> set s \<Longrightarrow> strlen s = length s"
  unfolding strlen_def by (subst takeWhile_eq_all_conv [THEN iffD2]) auto

lemma cstr_at_in [simp]: "i < length s \<Longrightarrow> cstr_at s i = Some (s ! i)"
  by (simp add: cstr_at_def)

lemma cstr_at_end [simp]: "cstr_at s (length s) = Some nul"
  by (simp add: cstr_at_def)

lemma cstr_at_None [simp]: "cstr_at s i = None \<longleftrightarrow> length s < i"
  by (auto simp: cstr_at_def)

lemma cstr_at_append [simp]: "cstr_at (xs @ ys) (length xs + i) = cstr_at ys i"
  by (auto simp: cstr_at_def nth_append)

lemma nul_class [simp]: "\<not> isalpha nul" "\<not> isxdigit nul" "\<not> isdigit nul"
  by (simp_all add: nul_def ctype_simps)

lemma ascii_inject: "ascii c = ascii d \<longleftrightarrow> c = d"
  by (simp add: ascii_def)

lemma ascii_digit: "d < 10 \<Longrightarrow> ascii (char_of (48 + d)) = 48 + int d"
proof -
  assume "d < 10"
  have "ascii (char_of (48 + d)) = int (of_char (char_of (48 + d)) :: nat)" by (simp only: ascii_def of_nat_of_char)
  with \<open>d < 10\<close> show ?thesis by simp
qed

lemma dec_value_digits: "dec_value (dec_digits n) = int n"
proof (induction n rule: dec_digits.induct)
  case (1 n)
  show ?case
  proof (cases "n < 10")
    case False
    with "1.IH" have "foldl (\<lambda>acc c. acc * 10 + (ascii c - 48)) 0 (dec_digits (n div 10)) = int (n div 10)"
      by (simp add: dec_value_def)
    moreover have "int (n div 10) * 10 + int (n mod 10) = int n" using div_mult_mod_eq [of n 10] by linarith
    ultimately show ?thesis using False by (subst dec_digits.simps) (simp add: dec_value_def ascii_digit)
  qed (subst dec_digits.simps, simp add: dec_value_def ascii_digit)
qed

lemma length_dec_digits: "0 < k \<Longrightarrow> n < 10 ^ k \<Longrightarrow> length (dec_digits n) \<le> k"
proof (induction k arbitrary: n)
  case (Suc k)
  show ?case
  proof (cases "n < 10")
    case True
    then show ?thesis by (subst dec_digits.simps) simp
  next
    case False
    then have "0 < k" using Suc.prems(2) by (cases k) auto
    moreover have "n div 10 < 10 ^ k" using Suc.prems(2) by (simp add: div_less_iff_less_mult mult.commute)
    ultimately have "length (dec_digits (n div 10)) \<le> k" by (rule Suc.IH)
    then show ?thesis using False by (subst dec_digits.simps) simp
  qed
qed simp

lemma dec_digits_inject: "dec_digits m = dec_digits n \<longleftrightarrow> m = n"
  by (metis dec_value_digits of_nat_eq_iff)

section \<open>Words\<close>

text \<open>A counter that steps towards \<open>k\<close>, through the wrap-around if need be, gets closer to it.\<close>

lemma unat_countdown:
  fixes j k :: "'a::len word"
  assumes "j \<noteq> k"
  shows "unat (k - (j + 1)) < unat (k - j)"
proof -
  have nz: "k - j \<noteq> 0" using assms by auto
  have "unat (k - j - 1) = unat (k - j) - 1" using nz by (rule unat_minus_one)
  moreover have "0 < unat (k - j)" using nz by (simp add: unat_gt_0)
  ultimately show ?thesis unfolding diff_diff_eq by linarith
qed

lemma unat_countdown_64: "j \<noteq> 64 \<Longrightarrow> unat (63 - j) < unat (64 - j)" for j :: u32
  using unat_countdown [of j 64] by simp

lemma unat_of_nat_small: "n < 2 ^ LENGTH('a) \<Longrightarrow> unat (of_nat n :: 'a::len word) = n"
  by (simp add: unat_of_nat take_bit_nat_eq_self)

lemma unat_of_nat_u32: "n < 4294967296 \<Longrightarrow> unat (of_nat n :: u32) = n"
  by (simp add: unat_of_nat_small)

lemma unat_u32_less: "unat (x :: u32) < 4294967296"
  by (rule order_less_le_trans [OF unsigned_less]) simp

lemma unat_Suc_small: "unat (x :: u32) < 1024 \<Longrightarrow> unat (x + 1) = Suc (unat x)"
  by (simp add: unat_word_ariths)

lemma unat_pred_pos: "0 < unat (x :: u32) \<Longrightarrow> unat (x - 1) = unat x - 1"
  by (rule unat_minus_one) auto

text \<open>Case distinction over the values of a masked word.\<close>

lemma small_word: "unat w < n \<Longrightarrow> w \<in> set (map of_nat [0..<n])" for w :: "'a::len word"
  by (auto intro!: image_eqI [of _ _ "unat w"])

lemma unat_mask_less: "unat (w AND mask n) < 2 ^ n" for w :: "'a::len word"
  by (metis take_bit_eq_mask take_bit_nat_less_exp unsigned_take_bit_eq)

lemma take_bit_small: "unat w < 2 ^ n \<Longrightarrow> take_bit n w = w" for w :: "'a::len word"
proof -
  assume "unat w < 2 ^ n"
  then have "unat (take_bit n w) = unat w" by (simp add: unsigned_take_bit_eq take_bit_nat_eq_self)
  then show ?thesis by (rule unsigned_word_eqI)
qed

text \<open>One branch of a chain of conditionals that ended in a value.\<close>

lemma if_SomeE:
  assumes "(if c then Some x else y) = Some z"
  obtains "c" "x = z" | "y = Some z"
  using assms by (cases c) auto

section \<open>The text screen\<close>

text \<open>Cell \<open>i\<close> of the screen of guest and monitor: two bytes each, 80 cells to a row.\<close>

definition cell_addr :: "nat \<Rightarrow> u64" where
  "cell_addr i = 0xb8000 + of_nat (2 * i)"

lemma unat_cell_addr: "i < 2 ^ 60 \<Longrightarrow> unat (cell_addr i) = 0xb8000 + 2 * i"
proof -
  assume "i < 2 ^ 60"
  then have "unat (of_nat (0xb8000 + 2 * i) :: u64) = 0xb8000 + 2 * i" by (intro unat_of_nat_small) simp_all
  then show ?thesis by (simp add: cell_addr_def)
qed

lemma cell_addr_Suc: "cell_addr i + 2 = cell_addr (Suc i)"
  by (simp add: cell_addr_def)

end
