(* ===== verification/Vm_Args.thy ===== *)
theory Vm_Args
  imports VL_Prelude
begin

text \<open>
  The command line of the monitor (\<^verbatim>\<open>parse_argv\<close> of \<^verbatim>\<open>src/vm.c\<close>). \<^verbatim>\<open>getopt_long\<close> is the C library's: the
  model takes the sequence of its results (\<open>Vm_Getopt\<close>), each the option character and its argument, and
  processes them as the loop does. The three file-scope variables and the function's local
  \<^verbatim>\<open>val\<close>, which keeps its value from one option to the next and starts uninitialised, are the
  state.
\<close>

section \<open>State\<close>

datatype arg_msg =
    Msg_usage
  | Msg_invalid_at nat
  | Msg_invalid_suffix
  | Msg_invalid_option
  | Msg_summary int u64 "string option"

record arg_state =
  cpu_nums :: int
  vm_memory_size :: u64
  filename :: "string option"
  digit_val :: "int option"
  printed :: "arg_msg list"

datatype arg_fault =
    Uninitialised_val
  | Out_of_bounds
  | Atoi_range

definition initial_args :: arg_state where
  "initial_args = \<lparr>cpu_nums = 1, vm_memory_size = 0x200000, filename = None,
                   digit_val = None, printed = []\<rparr>"

definition say :: "arg_msg \<Rightarrow> arg_state \<Rightarrow> arg_state" where
  "say m s = s\<lparr>printed := printed s @ [m]\<rparr>"

section \<open>The memory option\<close>

text \<open>The three-way digit conversion: a letter F or f matches none of the tests.\<close>

definition digit_step :: "char \<Rightarrow> int option \<Rightarrow> int option" where
  "digit_step c v =
     (if ascii (CHR ''0'') \<le> ascii c \<and> ascii c \<le> ascii (CHR ''9'')
      then Some (ascii c - ascii (CHR ''0''))
      else if ascii (CHR ''A'') \<le> ascii c \<and> ascii c < ascii (CHR ''F'')
      then Some (ascii c - ascii (CHR ''A'') + 10)
      else if ascii (CHR ''a'') \<le> ascii c \<and> ascii c < ascii (CHR ''f'')
      then Some (ascii c - ascii (CHR ''a'') + 10)
      else v)"

text \<open>The digit loop, from index \<open>i\<close>: the index it stops at, the size and the last digit value.\<close>

function mem_digits ::
  "string \<Rightarrow> nat \<Rightarrow> u64 \<Rightarrow> nat \<Rightarrow> u64 \<Rightarrow> int option \<Rightarrow> arg_fault + (nat \<times> u64 \<times> int option)"
where
  "mem_digits s len base i sz v =
     (if i < len then
        case cstr_at s i of
          None \<Rightarrow> Inl Out_of_bounds
        | Some c \<Rightarrow>
            if isxdigit c then
              case digit_step c v of
                None \<Rightarrow> Inl Uninitialised_val
              | Some d \<Rightarrow> mem_digits s len base (i + 1) (sz * base + word_of_int d) (Some d)
            else Inr (i, sz, v)
      else Inr (i, sz, v))"
  by pat_completeness auto
termination
  by (relation "measure (\<lambda>(s, len, base, i, sz, v). len - i)") auto

declare mem_digits.simps [simp del]

definition mem_unit :: "char \<Rightarrow> u64 option" where
  "mem_unit c =
     (if c = CHR ''K'' \<or> c = CHR ''k'' then Some 0x400
      else if c = CHR ''M'' \<or> c = CHR ''m'' then Some 0x100000
      else if c = CHR ''g'' \<or> c = CHR ''G'' then Some 0x40000000
      else None)"

definition hex_prefix :: "string \<Rightarrow> bool" where
  "hex_prefix s = (cstr_at s 0 = Some (CHR ''0'') \<and> cstr_at s 1 = Some (CHR ''x''))"

text \<open>
  The whole \<^verbatim>\<open>case 'm'\<close>: the new state, and \<^term>\<open>Some\<close> of the function's return value when
  the case returns.
\<close>

definition opt_mem :: "string \<Rightarrow> arg_state \<Rightarrow> arg_fault + (arg_state \<times> int option)" where
  "opt_mem s st =
     (let len = strlen s;
          base = (if hex_prefix s then 0x10 else 10);
          start = (if hex_prefix s then 2 else 0)
      in case mem_digits s len base start 0 (digit_val st) of
           Inl e \<Rightarrow> Inl e
         | Inr (i, sz, v) \<Rightarrow>
             let st' = st\<lparr>vm_memory_size := sz, digit_val := v\<rparr> in
             (case cstr_at s i of
                None \<Rightarrow> Inl Out_of_bounds
              | Some c \<Rightarrow>
                  if \<not> isalpha c then Inr (say (Msg_invalid_at i) st', Some (-1))
                  else case cstr_at s (i + 1) of
                         None \<Rightarrow> Inl Out_of_bounds
                       | Some c' \<Rightarrow>
                           if isalpha c' then Inr (say (Msg_invalid_at i) st', Some (-1))
                           else case mem_unit c of
                                  None \<Rightarrow> Inr (say Msg_invalid_suffix st', Some (-1))
                                | Some u \<Rightarrow> Inr (st'\<lparr>vm_memory_size := sz * u\<rparr>, None)))"

section \<open>The option loop\<close>

definition opt_step :: "char \<Rightarrow> string \<Rightarrow> arg_state \<Rightarrow> arg_fault + (arg_state \<times> int option)" where
  "opt_step c optarg st =
     (if c = CHR ''h'' \<or> c = CHR ''H'' then Inr (say Msg_usage st, None)
      else if c = CHR ''m'' then opt_mem optarg st
      else if c = CHR ''n'' then
        (case atoi optarg of
           None \<Rightarrow> Inl Atoi_range
         | Some n \<Rightarrow> Inr (st\<lparr>cpu_nums := n\<rparr>, None))
      else if c = CHR ''f'' then Inr (st\<lparr>filename := Some optarg\<rparr>, None)
      else Inr (say Msg_invalid_option st, None))"

fun parse_argv :: "(char \<times> string) list \<Rightarrow> arg_state \<Rightarrow> arg_fault + (arg_state \<times> int)" where
  "parse_argv [] st =
     Inr (say (Msg_summary (cpu_nums st) (vm_memory_size st) (filename st)) st, 0)"
| "parse_argv ((c, optarg) # opts) st =
     (case opt_step c optarg st of
        Inl e \<Rightarrow> Inl e
      | Inr (st', Some r) \<Rightarrow> Inr (st', r)
      | Inr (st', None) \<Rightarrow> parse_argv opts st')"


section \<open>Reference definitions\<close>

text \<open>
  What the memory option means, on the list of characters instead of on indices: the longest run
  of hexadecimal digits, then one unit letter that no other letter follows.
\<close>

definition hexval :: "char \<Rightarrow> int" where
  "hexval c = (if isdigit c then ascii c - 48
               else if ascii c \<le> 70 then ascii c - 55 else ascii c - 87)"

definition num_value :: "int \<Rightarrow> string \<Rightarrow> int" where
  "num_value base ds = foldl (\<lambda>acc c. acc * base + hexval c) 0 ds"

definition plain_digit :: "char \<Rightarrow> bool" where
  "plain_digit c = (isxdigit c \<and> c \<noteq> CHR ''F'' \<and> c \<noteq> CHR ''f'')"

fun digits_fold :: "u64 \<Rightarrow> u64 \<Rightarrow> int option \<Rightarrow> string \<Rightarrow> (u64 \<times> int option) option" where
  "digits_fold base sz v [] = Some (sz, v)"
| "digits_fold base sz v (c # cs) =
     (case digit_step c v of
        None \<Rightarrow> None
      | Some d \<Rightarrow> digits_fold base (sz * base + word_of_int d) (Some d) cs)"

definition unit_of :: "string \<Rightarrow> u64 option" where
  "unit_of rest =
     (case rest of
        [] \<Rightarrow> None
      | c # cs \<Rightarrow> if isalpha c \<and> (cs = [] \<or> \<not> isalpha (hd cs)) then mem_unit c else None)"

definition mem_body :: "string \<Rightarrow> string" where
  "mem_body s = (if hex_prefix s then drop 2 s else s)"

definition mem_base :: "string \<Rightarrow> u64" where
  "mem_base s = (if hex_prefix s then 16 else 10)"

definition reject_msg :: "string \<Rightarrow> string \<Rightarrow> arg_msg" where
  "reject_msg s rest =
     (case rest of
        [] \<Rightarrow> Msg_invalid_at (length s)
      | c # cs \<Rightarrow> if isalpha c \<and> (cs = [] \<or> \<not> isalpha (hd cs)) then Msg_invalid_suffix
                  else Msg_invalid_at (length s - length rest))"

definition opt_mem_ref :: "string \<Rightarrow> arg_state \<Rightarrow> arg_fault + (arg_state \<times> int option)" where
  "opt_mem_ref s st =
     (let ds = takeWhile isxdigit (mem_body s); rest = dropWhile isxdigit (mem_body s) in
      case digits_fold (mem_base s) 0 (digit_val st) ds of
        None \<Rightarrow> Inl Uninitialised_val
      | Some (sz, v) \<Rightarrow>
          (case unit_of rest of
             Some u \<Rightarrow> Inr (st\<lparr>vm_memory_size := sz * u, digit_val := v\<rparr>, None)
           | None \<Rightarrow> Inr (say (reject_msg s rest) (st\<lparr>vm_memory_size := sz, digit_val := v\<rparr>),
                          Some (-1))))"

definition last_arg :: "char \<Rightarrow> (char \<times> string) list \<Rightarrow> string option" where
  "last_arg c opts = (case filter (\<lambda>(c', _). c' = c) opts of [] \<Rightarrow> None | xs \<Rightarrow> Some (snd (last xs)))"

section \<open>The digit loop against the reference\<close>

lemma hex_prefix_iff: "hex_prefix s \<longleftrightarrow> (\<exists>t. s = CHR ''0'' # CHR ''x'' # t)"
  by (cases s; cases "tl s") (auto simp: hex_prefix_def cstr_at_def nul_def)

lemma mem_body_append: "s = take (if hex_prefix s then 2 else 0) s @ mem_body s"
  by (simp add: mem_body_def)

lemma mem_digits_fold:
  assumes "list_all isxdigit ds" and "rest = [] \<or> \<not> isxdigit (hd rest)"
  shows "mem_digits (pre @ ds @ rest) (length (pre @ ds @ rest)) base (length pre) sz v =
    (case digits_fold base sz v ds of
       None \<Rightarrow> Inl Uninitialised_val
     | Some (sz', v') \<Rightarrow> Inr (length pre + length ds, sz', v'))"
  using assms(1)
proof (induction ds arbitrary: pre sz v)
  case Nil
  show ?case
  proof (cases rest)
    case Nil
    then show ?thesis by (simp add: mem_digits.simps)
  next
    case (Cons c cs)
    with assms(2) show ?thesis
      by (simp add: mem_digits.simps cstr_at_def nth_append)
  qed
next
  case (Cons c cs)
  note IH = Cons.IH [of "pre @ [c]"]
  from Cons.prems show ?case
    using IH by (subst mem_digits.simps) (auto simp: cstr_at_def nth_append split: option.splits)
qed

lemma mem_digits_bounds:
  "mem_digits s len base i sz v = Inr (i', sz', v') \<Longrightarrow> i \<le> len \<Longrightarrow> i \<le> i' \<and> i' \<le> len"
proof (induction s len base i sz v rule: mem_digits.induct)
  case (1 s len base i sz v)
  from "1.IH" "1.prems" show ?case
    by (fastforce simp: mem_digits.simps [of s len base i sz v] split: if_splits option.splits)
qed

lemma mem_digits_in_bounds:
  "len \<le> length s \<Longrightarrow> mem_digits s len base i sz v \<noteq> Inl Out_of_bounds"
proof (induction s len base i sz v rule: mem_digits.induct)
  case (1 s len base i sz v)
  then show ?case
    by (subst mem_digits.simps) (auto split: option.splits)
qed


lemma cstr_at_strlen: "cstr_at s (strlen s) = Some nul"
proof (cases "strlen s = length s")
  case True
  then show ?thesis by (simp add: cstr_at_def)
next
  case False
  then have "strlen s < length s" using strlen_le [of s] by linarith
  moreover from this have "s ! strlen s = nul"
    unfolding strlen_def using nth_length_takeWhile [of "\<lambda>c. c \<noteq> nul" s] by simp
  ultimately show ?thesis by (simp add: cstr_at_def)
qed

lemma hex_prefix_strlen: "hex_prefix s \<Longrightarrow> 2 \<le> strlen s"
  by (auto simp: hex_prefix_iff strlen_def nul_def)

lemma plain_digit_not_f: "plain_digit c \<Longrightarrow> ascii c \<noteq> 70 \<and> ascii c \<noteq> 102"
  using ascii_inject [of c "CHR ''F''"] ascii_inject [of c "CHR ''f''"]
  by (simp add: plain_digit_def ascii_def)

lemma digit_step_plain: "plain_digit c \<Longrightarrow> digit_step c v = Some (hexval c)"
  using plain_digit_not_f [of c]
  by (auto simp: plain_digit_def digit_step_def hexval_def isxdigit_def isdigit_def ascii_def)

lemma digit_step_f: "c = CHR ''F'' \<or> c = CHR ''f'' \<Longrightarrow> digit_step c v = v"
  by (auto simp: digit_step_def ascii_def)

lemma digits_fold_plain:
  "list_all plain_digit ds \<Longrightarrow>
   digits_fold base sz v ds =
     Some (foldl (\<lambda>acc c. acc * base + word_of_int (hexval c)) sz ds,
           if ds = [] then v else Some (hexval (last ds)))"
  by (induction ds arbitrary: sz v) (auto simp: digit_step_plain)

lemma foldl_word_of_int:
  "foldl (\<lambda>acc c. acc * word_of_int b + word_of_int (f c)) (word_of_int a) ds =
   (word_of_int (foldl (\<lambda>acc c. acc * b + f c) a ds) :: 'w::len word)"
proof (induction ds arbitrary: a)
  case (Cons c cs)
  show ?case using Cons.IH [of "a * b + f c"] by simp
qed simp


section \<open>The memory option against the reference\<close>

lemma mem_digits_split:
  assumes "nul \<notin> set s"
  shows "mem_digits s (strlen s) (mem_base s) (if hex_prefix s then 2 else 0) 0 v =
    (case digits_fold (mem_base s) 0 v (takeWhile isxdigit (mem_body s)) of
       None \<Rightarrow> Inl Uninitialised_val
     | Some (sz', v') \<Rightarrow>
         Inr (length s - length (dropWhile isxdigit (mem_body s)), sz', v'))"
proof -
  let ?k = "if hex_prefix s then 2 else 0 :: nat"
  let ?ds = "takeWhile isxdigit (mem_body s)" and ?rest = "dropWhile isxdigit (mem_body s)"
  have k: "length (take ?k s) = ?k"
    by (auto simp: hex_prefix_iff)
  have s: "take ?k s @ ?ds @ ?rest = s"
    using mem_body_append [of s] by simp
  have "list_all isxdigit ?ds"
    by (auto simp: list_all_iff dest: set_takeWhileD)
  moreover have "?rest = [] \<or> \<not> isxdigit (hd ?rest)"
    using hd_dropWhile [of isxdigit "mem_body s"] by blast
  ultimately have "mem_digits s (length s) (mem_base s) ?k 0 v =
    (case digits_fold (mem_base s) 0 v ?ds of
       None \<Rightarrow> Inl Uninitialised_val
     | Some (sz', v') \<Rightarrow> Inr (?k + length ?ds, sz', v'))"
    using mem_digits_fold [of ?ds ?rest "take ?k s" "mem_base s" 0 v] unfolding s k by simp
  moreover have "?k + length ?ds = length s - length ?rest"
  proof -
    have "length ?ds + length ?rest = length (mem_body s)"
      by (simp flip: length_append)
    moreover have "?k + length (mem_body s) = length s"
      using arg_cong [OF mem_body_append [of s], of length] k by simp
    ultimately show ?thesis by linarith
  qed
  ultimately show ?thesis by (simp only: strlen_cstring [OF assms])
qed

lemma cstr_at_rest:
  assumes "s = pre @ rest"
  shows "cstr_at s (length s - length rest) = Some (if rest = [] then nul else hd rest)"
    and "rest \<noteq> [] \<Longrightarrow> cstr_at s (Suc (length s - length rest)) =
           Some (if tl rest = [] then nul else hd (tl rest))"
  using assms by (cases rest; cases "tl rest"; force simp: cstr_at_def nth_append hd_conv_nth)+

lemma opt_mem_eq_ref:
  assumes "nul \<notin> set s"
  shows "opt_mem s st = opt_mem_ref s st"
proof -
  define r where "r = dropWhile isxdigit (mem_body s)"
  define i where "i = length s - length r"
  define f where "f = digits_fold (mem_base s) 0 (digit_val st) (takeWhile isxdigit (mem_body s))"
  have "s = (take (if hex_prefix s then 2 else 0) s @ takeWhile isxdigit (mem_body s)) @ r"
    using mem_body_append [of s] by (simp add: r_def)
  note at = cstr_at_rest [OF this, folded i_def]
  have run: "mem_digits s (strlen s) (mem_base s) (if hex_prefix s then 2 else 0) 0 (digit_val st) =
    (case f of None \<Rightarrow> Inl Uninitialised_val | Some (sz', v') \<Rightarrow> Inr (i, sz', v'))"
    unfolding f_def r_def i_def by (rule mem_digits_split [OF assms])
  have len: "r = [] \<Longrightarrow> i = length s"
    by (simp add: i_def)
  show ?thesis
    unfolding opt_mem_def opt_mem_ref_def Let_def mem_base_def [symmetric] run
      r_def [symmetric] f_def [symmetric]
    using at len
    by (cases r; cases f) (auto simp: unit_of_def reject_msg_def i_def split: option.splits)
qed

section \<open>Faults and option order\<close>

lemma opt_mem_in_bounds: "opt_mem s st \<noteq> Inl Out_of_bounds"
proof (cases "mem_digits s (strlen s) (mem_base s) (if hex_prefix s then 2 else 0) 0 (digit_val st)")
  case (Inl e)
  moreover have "e \<noteq> Out_of_bounds"
    using mem_digits_in_bounds [OF strlen_le] Inl by metis
  ultimately show ?thesis by (simp add: opt_mem_def mem_base_def [symmetric] split: if_splits)
next
  case (Inr r)
  obtain i sz v where r: "r = (i, sz, v)" by (cases r)
  have "i \<le> strlen s"
    using mem_digits_bounds [OF Inr [unfolded r]] hex_prefix_strlen [of s] by (auto split: if_splits)
  then consider "i = strlen s" | "i < strlen s" by linarith
  then show ?thesis
  proof cases
    case 1
    with Inr r show ?thesis
      by (simp add: opt_mem_def mem_base_def [symmetric] cstr_at_strlen Let_def)
  next
    case 2
    then have "i + 1 \<le> length s" using strlen_le [of s] by linarith
    then have "cstr_at s i \<noteq> None" "cstr_at s (i + 1) \<noteq> None"
      unfolding cstr_at_None by linarith+
    with Inr r show ?thesis
      by (auto simp: opt_mem_def mem_base_def [symmetric] Let_def split: option.splits)
  qed
qed

lemma opt_mem_frame [frame_simps]:
  "opt_mem s st = Inr (st', r) \<Longrightarrow> filename st' = filename st \<and> cpu_nums st' = cpu_nums st"
  by (auto simp: opt_mem_def say_def Let_def split: sum.splits option.splits if_splits)

lemma opt_step_file:
  "opt_step c a st = Inr (st', r) \<Longrightarrow>
   filename st' = (if c = CHR ''f'' then Some a else filename st)"
  by (auto simp: opt_step_def say_def frame_simps split: option.splits if_splits)

lemma opt_step_cpus:
  "opt_step c a st = Inr (st', r) \<Longrightarrow>
   Some (cpu_nums st') = (if c = CHR ''n'' then atoi a else Some (cpu_nums st))"
  by (auto simp: opt_step_def say_def frame_simps split: option.splits if_splits)

lemma last_arg_Nil [simp]: "last_arg c [] = None"
  by (simp add: last_arg_def)

lemma last_arg_Cons [simp]:
  "last_arg c ((c', a) # opts) =
     (case last_arg c opts of None \<Rightarrow> (if c' = c then Some a else None) | Some b \<Rightarrow> Some b)"
  by (auto simp: last_arg_def split: list.splits)

lemma parse_argv_last:
  "parse_argv opts st = Inr (st', 0) \<Longrightarrow>
   filename st' = (case last_arg (CHR ''f'') opts of None \<Rightarrow> filename st | Some a \<Rightarrow> Some a) \<and>
   Some (cpu_nums st') =
     (case last_arg (CHR ''n'') opts of None \<Rightarrow> Some (cpu_nums st) | Some a \<Rightarrow> atoi a)"
proof (induction opts arbitrary: st)
  case Nil
  then show ?case by (auto simp: say_def)
next
  case (Cons o' opts)
  obtain c a where o': "o' = (c, a)" by (cases o')
  from Cons.prems o' obtain st1 where step: "opt_step c a st = Inr (st1, None)"
      and rest: "parse_argv opts st1 = Inr (st', 0)"
    by (auto split: sum.splits option.splits prod.splits)
       (auto simp: opt_step_def opt_mem_def Let_def split: if_splits sum.splits option.splits)
  from Cons.IH [OF rest] opt_step_file [OF step] opt_step_cpus [OF step] show ?case
    by (auto simp: o' split: option.splits)
qed

lemma mem_unit_class:
  "mem_unit u = Some k \<Longrightarrow> isalpha u \<and> \<not> isxdigit u \<and> u \<noteq> nul \<and> u \<noteq> CHR ''x''"
  by (auto simp: mem_unit_def ctype_simps nul_def split: if_splits)

lemma xdigit_class: "isxdigit c \<Longrightarrow> c \<noteq> nul \<and> c \<noteq> CHR ''x''"
  by (auto simp: ctype_simps nul_def)

lemma isdigit_plain: "isdigit c \<Longrightarrow> plain_digit c"
  by (auto simp: plain_digit_def ctype_simps)

lemma plain_isxdigit: "list_all plain_digit ds \<Longrightarrow> list_all isxdigit ds"
  by (auto simp: plain_digit_def list_all_iff)

lemma takeWhile_digits_unit:
  assumes "list_all isxdigit ds" and "\<not> isxdigit u"
  shows "takeWhile isxdigit (ds @ [u]) = ds" and "dropWhile isxdigit (ds @ [u]) = [u]"
  using assms by (auto simp: list_all_iff takeWhile_append2 dropWhile_append2)

lemma unit_of_single: "mem_unit u = Some k \<Longrightarrow> unit_of [u] = Some k"
  using mem_unit_class [of u k] by (simp add: unit_of_def)

text \<open>One run of digits and a unit letter, in either notation, is converted by the fold.\<close>

lemma opt_mem_digits_unit:
  assumes ds: "list_all isxdigit ds" and u: "mem_unit u = Some k"
    and s: "s = ''0x'' @ ds @ [u] \<and> base = 16 \<or> s = ds @ [u] \<and> base = 10 \<and> \<not> hex_prefix s"
    and fold: "digits_fold base 0 (digit_val st) ds = Some (sz, v)"
  shows "opt_mem s st = Inr (st\<lparr>vm_memory_size := sz * k, digit_val := v\<rparr>, None)"
proof -
  note u' = mem_unit_class [OF u]
  have "nul \<notin> set ds" using ds xdigit_class by (auto simp: list_all_iff)
  moreover have "nul \<notin> set ''0x''" by (simp add: nul_def)
  ultimately have "nul \<notin> set s" using s u' by (metis Un_iff set_append empty_iff empty_set set_ConsD)
  then have "opt_mem s st = opt_mem_ref s st" by (rule opt_mem_eq_ref)
  moreover have "mem_body s = ds @ [u]" "mem_base s = base"
    using s by (auto simp: mem_body_def mem_base_def hex_prefix_iff simp del: append_eq_Cons_conv)
  ultimately show ?thesis
    using fold takeWhile_digits_unit [OF ds, of u] u' unit_of_single [OF u]
    by (simp add: opt_mem_ref_def)
qed

lemma decimal_not_hex_prefix:
  assumes "list_all isdigit ds" and "mem_unit u = Some k"
  shows "\<not> hex_prefix (ds @ [u])"
proof -
  have "CHR ''x'' \<notin> set (ds @ [u])"
    using assms mem_unit_class [of u k] xdigit_class
    by (fastforce simp: list_all_iff isxdigit_def)
  then show ?thesis using hex_prefix_iff [of "ds @ [u]"] by (metis list.set_intros)
qed

lemma digits_fold_append:
  "digits_fold base sz v (xs @ ys) =
     (case digits_fold base sz v xs of None \<Rightarrow> None | Some (sz', v') \<Rightarrow> digits_fold base sz' v' ys)"
  by (induction xs arbitrary: sz v) (auto split: option.splits)

section \<open>Properties\<close>



text \<open>
  A decimal size with a unit letter sets the memory size to the decimal value times the unit,
  modulo the width of \<^verbatim>\<open>size_t\<close>, and parsing goes on with the next option.
\<close>

theorem opt_mem_decimal:
  assumes "list_all isdigit ds" and "mem_unit u = Some k"
  shows "opt_mem (ds @ [u]) st =
    Inr (st\<lparr>vm_memory_size := word_of_int (num_value 10 ds) * k,
            digit_val := if ds = [] then digit_val st else Some (hexval (last ds))\<rparr>, None)"
proof -
  have plain: "list_all plain_digit ds"
    using assms(1) isdigit_plain by (auto simp: list_all_iff)
  have "digits_fold 10 0 (digit_val st) ds =
      Some (word_of_int (num_value 10 ds), if ds = [] then digit_val st else Some (hexval (last ds)))"
    using digits_fold_plain [OF plain, of 10 0] foldl_word_of_int [of 10 hexval 0 ds]
    by (simp add: num_value_def)
  with opt_mem_digits_unit [OF plain_isxdigit [OF plain] assms(2)]
    decimal_not_hex_prefix [OF assms]
  show ?thesis by simp
qed

theorem opt_mem_decimal_witness:
  "list_all isdigit ''512'' \<and> mem_unit (CHR ''M'') = Some 0x100000 \<and>
   opt_mem ''512M'' initial_args =
     Inr (initial_args\<lparr>vm_memory_size := 0x20000000, digit_val := Some 2\<rparr>, None)"
proof -
  have h: "list_all isdigit ''512''" "mem_unit (CHR ''M'') = Some 0x100000"
    by (simp_all add: ctype_simps mem_unit_def)
  have v: "num_value 10 ''512'' = 512" "hexval (CHR ''2'') = 2"
    by (simp_all add: num_value_def hexval_def ctype_simps)
  show ?thesis using h opt_mem_decimal [OF h, of initial_args] by (simp add: v)
qed

text \<open>
  A hexadecimal size without the digit F sets the memory size to its value times the unit,
  modulo the width of \<^verbatim>\<open>size_t\<close>.
\<close>

theorem opt_mem_hex:
  assumes "list_all plain_digit ds" and "mem_unit u = Some k"
  shows "opt_mem (''0x'' @ ds @ [u]) st =
    Inr (st\<lparr>vm_memory_size := word_of_int (num_value 16 ds) * k,
            digit_val := if ds = [] then digit_val st else Some (hexval (last ds))\<rparr>, None)"
proof -
  have "digits_fold 16 0 (digit_val st) ds =
      Some (word_of_int (num_value 16 ds), if ds = [] then digit_val st else Some (hexval (last ds)))"
    using digits_fold_plain [OF assms(1), of 16 0] foldl_word_of_int [of 16 hexval 0 ds]
    by (simp add: num_value_def)
  with opt_mem_digits_unit [OF plain_isxdigit [OF assms(1)] assms(2)] show ?thesis by simp
qed

theorem opt_mem_hex_witness:
  "list_all plain_digit ''a0'' \<and> mem_unit (CHR ''k'') = Some 0x400 \<and>
   opt_mem ''0xa0k'' initial_args =
     Inr (initial_args\<lparr>vm_memory_size := 0x28000, digit_val := Some 0\<rparr>, None)"
proof -
  have h: "list_all plain_digit ''a0''" "mem_unit (CHR ''k'') = Some 0x400"
    by (simp_all add: plain_digit_def ctype_simps mem_unit_def)
  have v: "num_value 16 ''a0'' = 160" "hexval (CHR ''0'') = 0"
    by (simp_all add: num_value_def hexval_def ctype_simps)
  show ?thesis using h opt_mem_hex [OF h, of initial_args] by (simp add: v)
qed

text \<open>
  C36: the digit F is not converted: after other digits it repeats the digit before it, so that a
  size ending in F equals the size ending in the repeated digit, and as the first digit of the
  first size it reads the uninitialised local.
\<close>

theorem opt_mem_digit_f:
  assumes "list_all plain_digit (ds @ [d])" and "c = CHR ''f'' \<or> c = CHR ''F''"
    and "mem_unit u = Some k" and "digit_val first = None"
  shows "opt_mem (''0x'' @ (ds @ [d, c]) @ [u]) st = opt_mem (''0x'' @ (ds @ [d, d]) @ [u]) st \<and>
         opt_mem (''0x'' @ [c, u]) first = Inl Uninitialised_val"
proof
  have x: "isxdigit c" using assms(2) by (auto simp: ctype_simps)
  have xs: "list_all isxdigit (ds @ [d, c])" "list_all isxdigit (ds @ [d, d])"
    using assms(1) x by (auto simp: plain_digit_def list_all_iff)
  obtain sz where sz: "digits_fold 16 0 (digit_val st) (ds @ [d]) = Some (sz, Some (hexval d))"
    using digits_fold_plain [OF assms(1)] by simp
  have "digit_step d (Some (hexval d)) = Some (hexval d)"
    using assms(1) by (simp add: digit_step_plain)
  then have "digits_fold 16 0 (digit_val st) ((ds @ [d]) @ [c]) =
        Some (sz * 16 + word_of_int (hexval d), Some (hexval d))"
    "digits_fold 16 0 (digit_val st) ((ds @ [d]) @ [d]) =
        Some (sz * 16 + word_of_int (hexval d), Some (hexval d))"
    using assms(2) digits_fold_append [of 16 0 "digit_val st" "ds @ [d]" "[c]"]
      digits_fold_append [of 16 0 "digit_val st" "ds @ [d]" "[d]"]
    unfolding sz by (auto simp: digit_step_f)
  then show "opt_mem (''0x'' @ (ds @ [d, c]) @ [u]) st = opt_mem (''0x'' @ (ds @ [d, d]) @ [u]) st"
    using opt_mem_digits_unit [OF xs(1) assms(3)] opt_mem_digits_unit [OF xs(2) assms(3)] by simp
  have "nul \<notin> set (''0x'' @ [c, u])"
    using xdigit_class [OF x] mem_unit_class [OF assms(3)] by (auto simp: nul_def)
  moreover have "digits_fold 16 0 (digit_val first) [c] = None"
    using assms(2,4) by (auto simp: digit_step_f)
  ultimately show "opt_mem (''0x'' @ [c, u]) first = Inl Uninitialised_val"
    using opt_mem_eq_ref [of "''0x'' @ [c, u]" first] x mem_unit_class [OF assms(3)]
    by (simp add: opt_mem_ref_def mem_body_def mem_base_def hex_prefix_iff)
qed

theorem opt_mem_digit_f_witness:
  "list_all plain_digit ([] @ ''1'') \<and> mem_unit (CHR ''K'') = Some 0x400 \<and>
   opt_mem ''0x1fK'' initial_args = opt_mem ''0x11K'' initial_args \<and>
   opt_mem ''0xfK'' initial_args = Inl Uninitialised_val"
proof -
  have h: "list_all plain_digit ([] @ [CHR ''1''])" "mem_unit (CHR ''K'') = Some 0x400"
    "CHR ''f'' = CHR ''f'' \<or> CHR ''f'' = CHR ''F''" "digit_val initial_args = None"
    by (simp_all add: plain_digit_def ctype_simps mem_unit_def initial_args_def)
  show ?thesis using h opt_mem_digit_f [OF h(1,3,2,4), of initial_args] by simp
qed

text \<open>
  Whatever the options are, the parser never reads an argument beyond its terminating NUL,
  and when it returns at all it returns 0 or -1.
\<close>

theorem parse_argv_safe:
  "parse_argv opts st \<noteq> Inl Out_of_bounds \<and>
   (\<forall>st' r. parse_argv opts st = Inr (st', r) \<longrightarrow> r = 0 \<or> r = -1)"
proof (induction opts arbitrary: st)
  case Nil
  then show ?case by simp
next
  case (Cons o' opts)
  obtain c a where o': "o' = (c, a)" by (cases o')
  have "opt_step c a st \<noteq> Inl Out_of_bounds"
    using opt_mem_in_bounds [of a st] by (auto simp: opt_step_def split: option.splits)
  moreover have "opt_step c a st = Inr (st', Some r) \<Longrightarrow> r = -1" for st' r
    by (auto simp: opt_step_def opt_mem_def Let_def split: if_splits sum.splits option.splits)
  ultimately show ?case
    using Cons.IH by (auto simp: o' split: sum.splits option.splits)
qed

theorem parse_argv_safe_witness:
  "parse_argv [(CHR ''m'', ''5'')] initial_args \<noteq> Inl Out_of_bounds"
  using parse_argv_safe [of "[(CHR ''m'', ''5'')]" initial_args] by blast

text \<open>
  When parsing succeeds the last file option and the last CPU option win, the latter through
  \<^verbatim>\<open>atoi\<close>, and both keep their initial values when the option is absent.
\<close>

theorem parse_argv_last_wins:
  assumes "parse_argv opts st = Inr (st', 0)"
  shows "filename st' = (case last_arg (CHR ''f'') opts of None \<Rightarrow> filename st | Some a \<Rightarrow> Some a) \<and>
    Some (cpu_nums st') =
      (case last_arg (CHR ''n'') opts of None \<Rightarrow> Some (cpu_nums st) | Some a \<Rightarrow> atoi a)"
  using assms by (rule parse_argv_last)

theorem parse_argv_last_wins_witness:
  "\<exists>st'. parse_argv [(CHR ''n'', ''2''), (CHR ''f'', ''a''), (CHR ''f'', ''b'')] initial_args = Inr (st', 0)
     \<and> filename st' = Some ''b'' \<and> cpu_nums st' = 2"
proof -
  let ?opts = "[(CHR ''n'', ''2''), (CHR ''f'', ''a''), (CHR ''f'', ''b'')]"
  have two: "atoi ''2'' = Some 2"
    by (simp add: atoi_def dec_value_def ctype_simps)
  obtain st' where p: "parse_argv ?opts initial_args = Inr (st', 0)"
    by (simp add: opt_step_def two)
  show ?thesis using p parse_argv_last_wins [OF p] two by auto
qed

end
