(* ===== verification/Vm_Cpuid.thy ===== *)
theory Vm_Cpuid
  imports VL_Prelude
begin

text \<open>
  The CPUID table of the guest (\<^verbatim>\<open>vm_init_cpuid\<close> of \<^verbatim>\<open>src/vm.c\<close>). The fixed array of
  \<^verbatim>\<open>KVM_MAX_CPUID_ENTRIES\<close> entries and the cursor \<^verbatim>\<open>cpuid_i\<close> are the state, the pointer \<^verbatim>\<open>c\<close> is
  an index into the array. The compiler's \<^verbatim>\<open>__get_cpuid\<close> and \<^verbatim>\<open>__get_cpuid_count\<close> are parameters: they
  return \<^term>\<open>None\<close> when the leaf is not supported, and then leave their outputs alone. So are
  the flag of \<^verbatim>\<open>linux/kvm.h\<close> and the \<^verbatim>\<open>KVM_SET_CPUID2\<close> ioctl.
\<close>

section \<open>State\<close>

type_synonym cpuid_regs = "u32 \<times> u32 \<times> u32 \<times> u32"

record cpuid_if =
  get_cpuid :: "u32 \<Rightarrow> cpuid_regs option"
  get_cpuid_count :: "u32 \<Rightarrow> u32 \<Rightarrow> cpuid_regs option"
  flag_significant_index :: u32

record kvm_cpuid_entry2 =
  ce_function :: u32
  ce_index :: u32
  ce_flags :: u32
  ce_eax :: u32
  ce_ebx :: u32
  ce_ecx :: u32
  ce_edx :: u32

record cpuid_data =
  entries :: "kvm_cpuid_entry2 list"
  cpuid_i :: nat

datatype cpuid_fault =
    Table_full
  | Entry_out_of_bounds
  | Uninitialised_limit

definition KVM_MAX_CPUID_ENTRIES :: nat where
  "KVM_MAX_CPUID_ENTRIES = 100"

definition zero_entry :: kvm_cpuid_entry2 where
  "zero_entry = \<lparr>ce_function = 0, ce_index = 0, ce_flags = 0,
                 ce_eax = 0, ce_ebx = 0, ce_ecx = 0, ce_edx = 0\<rparr>"

definition initial_cpuid :: cpuid_data where
  "initial_cpuid = \<lparr>entries = replicate KVM_MAX_CPUID_ENTRIES zero_entry, cpuid_i = 0\<rparr>"

section \<open>Operations\<close>

text \<open>
  \<^verbatim>\<open>c = &cpuid_data.entries[cpuid_i++]\<close> behind the test that the table is not full. An index past
  the array would be an out-of-bounds access.
\<close>

definition take_entry :: "cpuid_data \<Rightarrow> cpuid_fault + (nat \<times> cpuid_data)" where
  "take_entry d =
     (if cpuid_i d = KVM_MAX_CPUID_ENTRIES then Inl Table_full
      else if length (entries d) \<le> cpuid_i d \<or> KVM_MAX_CPUID_ENTRIES < cpuid_i d
      then Inl Entry_out_of_bounds
      else Inr (cpuid_i d, d\<lparr>cpuid_i := cpuid_i d + 1\<rparr>))"

definition put_regs :: "cpuid_regs option \<Rightarrow> kvm_cpuid_entry2 \<Rightarrow> kvm_cpuid_entry2" where
  "put_regs r e =
     (case r of
        None \<Rightarrow> e
      | Some (a, b, c, d) \<Rightarrow> e\<lparr>ce_eax := a, ce_ebx := b, ce_ecx := c, ce_edx := d\<rparr>)"

definition put_entry :: "nat \<Rightarrow> kvm_cpuid_entry2 \<Rightarrow> cpuid_data \<Rightarrow> cpuid_data" where
  "put_entry c e d = d\<lparr>entries := (entries d)[c := e]\<rparr>"

definition all_zero :: "kvm_cpuid_entry2 \<Rightarrow> bool" where
  "all_zero e = (ce_eax e = 0 \<and> ce_ebx e = 0 \<and> ce_ecx e = 0 \<and> ce_edx e = 0)"

text \<open>An entry of a leaf with subleaves, as both inner loops fill it.\<close>

definition fill_count :: "cpuid_if \<Rightarrow> u32 \<Rightarrow> u32 \<Rightarrow> kvm_cpuid_entry2 \<Rightarrow> kvm_cpuid_entry2" where
  "fill_count cpu i j e =
     put_regs (get_cpuid_count cpu i j)
       (e\<lparr>ce_function := i, ce_flags := flag_significant_index cpu, ce_index := j\<rparr>)"

text \<open>The endless \<^verbatim>\<open>for (j = 0; ; j++)\<close> of the leaves 4, 0xb and 0xd.\<close>

function subleaf_loop ::
  "cpuid_if \<Rightarrow> u32 \<Rightarrow> u32 \<Rightarrow> nat \<Rightarrow> cpuid_data \<Rightarrow> cpuid_fault + cpuid_data"
where
  "subleaf_loop cpu i j c d =
     (if i = 0xd \<and> j = 64 then Inr d
      else if i = 0x1f \<and> j = 64 then Inr d
      else
        let e = fill_count cpu i j (entries d ! c); d1 = put_entry c e d in
        if i = 4 \<and> ce_eax e = 0 then Inr d1
        else if i = 0xb \<and> ce_ecx e AND 0xff00 = 0 then Inr d1
        else if i = 0x1f \<and> ce_ecx e AND 0xff00 = 0 then Inr d1
        else if i = 0xd \<and> ce_eax e = 0 then subleaf_loop cpu i (j + 1) c d1
        else case take_entry d1 of
               Inl f \<Rightarrow> Inl f
             | Inr (c', d2) \<Rightarrow> subleaf_loop cpu i (j + 1) c' d2)"
  by pat_completeness auto
termination
  by (relation "measure (\<lambda>(cpu, i, j, c, d).
        if i = 0xd then unat (64 - j) else KVM_MAX_CPUID_ENTRIES - cpuid_i d)")
    (auto simp: take_entry_def put_entry_def unat_countdown_64 split: if_splits)

declare subleaf_loop.simps [simp del]

text \<open>The counted loop of the leaves 7 and 0x14.\<close>

function times_loop ::
  "cpuid_if \<Rightarrow> u32 \<Rightarrow> u32 \<Rightarrow> u32 \<Rightarrow> cpuid_data \<Rightarrow> cpuid_fault + cpuid_data"
where
  "times_loop cpu i j n d =
     (if j \<le> n then
        case take_entry d of
          Inl f \<Rightarrow> Inl f
        | Inr (c, d1) \<Rightarrow>
            times_loop cpu i (j + 1) n (put_entry c (fill_count cpu i j (entries d1 ! c)) d1)
      else Inr d)"
  by pat_completeness auto
termination
  by (relation "measure (\<lambda>(cpu, i, j, n, d). KVM_MAX_CPUID_ENTRIES - cpuid_i d)")
    (auto simp: take_entry_def put_entry_def split: if_splits)

declare times_loop.simps [simp del]

text \<open>A leaf without subleaves: an all-zero entry is given back.\<close>

definition default_leaf :: "cpuid_if \<Rightarrow> u32 \<Rightarrow> nat \<Rightarrow> cpuid_data \<Rightarrow> cpuid_data" where
  "default_leaf cpu i c d =
     (let e = put_regs (get_cpuid cpu i) ((entries d ! c)\<lparr>ce_function := i, ce_flags := 0\<rparr>);
          d1 = put_entry c e d
      in if all_zero e then d1\<lparr>cpuid_i := cpuid_i d1 - 1\<rparr> else d1)"

text \<open>The leaves 7 and 0x14: subleaf 0 says how many follow.\<close>

definition counted_leaf :: "cpuid_if \<Rightarrow> u32 \<Rightarrow> nat \<Rightarrow> cpuid_data \<Rightarrow> cpuid_fault + cpuid_data" where
  "counted_leaf cpu i c d =
     (let e = put_regs (get_cpuid cpu i)
                ((entries d ! c)\<lparr>ce_function := i, ce_index := 0,
                                 ce_flags := flag_significant_index cpu\<rparr>)
      in times_loop cpu i 1 (ce_eax e) (put_entry c e d))"

text \<open>The body of the first loop, with its \<^verbatim>\<open>switch\<close>, and the body of the second.\<close>

definition std_leaf :: "cpuid_if \<Rightarrow> u32 \<Rightarrow> cpuid_data \<Rightarrow> cpuid_fault + cpuid_data" where
  "std_leaf cpu i d =
     (case take_entry d of
        Inl f \<Rightarrow> Inl f
      | Inr (c, d1) \<Rightarrow>
          if i = 4 \<or> i = 0xb \<or> i = 0xd then subleaf_loop cpu i 0 c d1
          else if i = 0x7 \<or> i = 0x14 then counted_leaf cpu i c d1
          else Inr (default_leaf cpu i c d1))"

definition ext_leaf :: "cpuid_if \<Rightarrow> u32 \<Rightarrow> cpuid_data \<Rightarrow> cpuid_fault + cpuid_data" where
  "ext_leaf cpu i d =
     (case take_entry d of
        Inl f \<Rightarrow> Inl f
      | Inr (c, d1) \<Rightarrow> Inr (default_leaf cpu i c d1))"

text \<open>
  \<^verbatim>\<open>for(; i <= limit; i++)\<close> over 32-bit leaf numbers: with the largest limit the counter wraps, so
  the loop is partial (\<^term>\<open>None\<close> is divergence).
\<close>

partial_function (option) leaf_loop ::
  "(u32 \<Rightarrow> cpuid_data \<Rightarrow> cpuid_fault + cpuid_data) \<Rightarrow> u32 \<Rightarrow> u32 \<Rightarrow> cpuid_data \<Rightarrow>
   (cpuid_fault + cpuid_data) option"
where
  "leaf_loop body limit i d =
     (if i \<le> limit then
        case body i d of
          Inl f \<Rightarrow> Some (Inl f)
        | Inr d' \<Rightarrow> leaf_loop body limit (i + 1) d'
      else Some (Inr d))"

text \<open>The second maximum keeps the first one when the processor has no extended leaves.\<close>

definition build_cpuid :: "cpuid_if \<Rightarrow> (cpuid_fault + cpuid_data) option" where
  "build_cpuid cpu =
     (case get_cpuid cpu 0 of
        None \<Rightarrow> Some (Inl Uninitialised_limit)
      | Some (limit, _) \<Rightarrow>
          (case leaf_loop (std_leaf cpu) limit 0 initial_cpuid of
             None \<Rightarrow> None
           | Some (Inl f) \<Rightarrow> Some (Inl f)
           | Some (Inr d) \<Rightarrow>
               leaf_loop (ext_leaf cpu)
                 (case get_cpuid cpu 0x80000000 of None \<Rightarrow> limit | Some (l, _) \<Rightarrow> l)
                 0x80000000 d))"

text \<open>
  The whole function: the value it returns and the entries it hands to the ioctl, if it gets
  there. Only the two faults that are undefined behaviour in C stay faults.
\<close>

definition vm_init_cpuid ::
  "cpuid_if \<Rightarrow> (kvm_cpuid_entry2 list \<Rightarrow> int) \<Rightarrow>
   (cpuid_fault + (int \<times> kvm_cpuid_entry2 list option)) option"
where
  "vm_init_cpuid cpu set_cpuid2 =
     (case build_cpuid cpu of
        None \<Rightarrow> None
      | Some (Inl Table_full) \<Rightarrow> Some (Inr (-1, None))
      | Some (Inl f) \<Rightarrow> Some (Inl f)
      | Some (Inr d) \<Rightarrow>
          let sent = take (cpuid_i d) (entries d) in Some (Inr (set_cpuid2 sent, Some sent)))"

section \<open>Reference definitions\<close>

text \<open>
  What the table should hold, leaf by leaf, as lists of entries without a cursor. A leaf is given
  the number of entries still free and is \<^term>\<open>None\<close> when it does not fit.
\<close>

definition count_entry :: "cpuid_if \<Rightarrow> u32 \<Rightarrow> u32 \<Rightarrow> kvm_cpuid_entry2" where
  "count_entry cpu i j = fill_count cpu i j zero_entry"

definition default_entry :: "cpuid_if \<Rightarrow> u32 \<Rightarrow> kvm_cpuid_entry2" where
  "default_entry cpu i = put_regs (get_cpuid cpu i) (zero_entry\<lparr>ce_function := i\<rparr>)"

definition first_entry :: "cpuid_if \<Rightarrow> u32 \<Rightarrow> kvm_cpuid_entry2" where
  "first_entry cpu i = put_regs (get_cpuid cpu i)
     (zero_entry\<lparr>ce_function := i, ce_flags := flag_significant_index cpu\<rparr>)"

fun until_stop ::
  "(kvm_cpuid_entry2 \<Rightarrow> bool) \<Rightarrow> (u32 \<Rightarrow> kvm_cpuid_entry2) \<Rightarrow> nat \<Rightarrow> u32 \<Rightarrow>
   kvm_cpuid_entry2 list option"
where
  "until_stop stop f 0 j = None"
| "until_stop stop f (Suc n) j =
     (if stop (f j) then Some [f j] else map_option (Cons (f j)) (until_stop stop f n (j + 1)))"

definition fits :: "nat \<Rightarrow> 'a list \<Rightarrow> 'a list option" where
  "fits room es = (if length es \<le> room then Some es else None)"

definition stops :: "u32 \<Rightarrow> kvm_cpuid_entry2 \<Rightarrow> bool" where
  "stops i e = (if i = 4 then ce_eax e = 0 else ce_ecx e AND 0xff00 = 0)"

text \<open>
  Leaf 0xd: the subleaves with a size, and one entry more: the last subleaf when it has no size,
  else an entry that was reserved and never filled.
\<close>

definition xsave_entries :: "cpuid_if \<Rightarrow> kvm_cpuid_entry2 list" where
  "xsave_entries cpu =
     filter (\<lambda>e. ce_eax e \<noteq> 0) (map (\<lambda>j. count_entry cpu 0xd (of_nat j)) [0..<64]) @
     [if ce_eax (count_entry cpu 0xd 63) = 0 then count_entry cpu 0xd 63 else zero_entry]"

definition plain_leaf_entries :: "cpuid_if \<Rightarrow> nat \<Rightarrow> u32 \<Rightarrow> kvm_cpuid_entry2 list option" where
  "plain_leaf_entries cpu room i =
     (if room = 0 then None
      else Some (if all_zero (default_entry cpu i) then [] else [default_entry cpu i]))"

definition leaf_entries :: "cpuid_if \<Rightarrow> nat \<Rightarrow> u32 \<Rightarrow> kvm_cpuid_entry2 list option" where
  "leaf_entries cpu room i =
     (if i = 4 \<or> i = 0xb then until_stop (stops i) (count_entry cpu i) room 0
      else if i = 0xd then fits room (xsave_entries cpu)
      else if i = 0x7 \<or> i = 0x14 then
        fits room (first_entry cpu i #
          map (\<lambda>j. count_entry cpu i (of_nat j)) [1..<Suc (unat (ce_eax (first_entry cpu i)))])
      else plain_leaf_entries cpu room i)"

fun table_entries ::
  "(nat \<Rightarrow> u32 \<Rightarrow> 'a list option) \<Rightarrow> nat \<Rightarrow> u32 list \<Rightarrow> 'a list option"
where
  "table_entries leaf room [] = Some []"
| "table_entries leaf room (i # is) =
     (case leaf room i of
        None \<Rightarrow> None
      | Some es \<Rightarrow> map_option (append es) (table_entries leaf (room - length es) is))"

definition leaves :: "u32 \<Rightarrow> u32 \<Rightarrow> u32 list" where
  "leaves first limit = map of_nat [unat first..<Suc (unat limit)]"

definition ext_limit :: "cpuid_if \<Rightarrow> u32 \<Rightarrow> u32" where
  "ext_limit cpu limit = (case get_cpuid cpu 0x80000000 of None \<Rightarrow> limit | Some (l, _) \<Rightarrow> l)"

definition cpuid_table :: "cpuid_if \<Rightarrow> u32 \<Rightarrow> kvm_cpuid_entry2 list option" where
  "cpuid_table cpu limit =
     (case table_entries (leaf_entries cpu) KVM_MAX_CPUID_ENTRIES (leaves 0 limit) of
        None \<Rightarrow> None
      | Some es \<Rightarrow>
          map_option (append es)
            (table_entries (plain_leaf_entries cpu) (KVM_MAX_CPUID_ENTRIES - length es)
               (leaves 0x80000000 (ext_limit cpu limit))))"

section \<open>The array represents a list\<close>

text \<open>
  \<open>holds P d\<close>: the entries up to the cursor are \<open>P\<close>, the next one may carry a stale function
  number but no registers, the others are untouched. \<open>opened P e d\<close>: the same with one more entry
  \<open>e\<close> taken and still open to writes.
\<close>

definition clean :: "kvm_cpuid_entry2 \<Rightarrow> bool" where
  "clean e = (all_zero e \<and> ce_index e = 0)"

definition holds :: "kvm_cpuid_entry2 list \<Rightarrow> cpuid_data \<Rightarrow> bool" where
  "holds P d \<longleftrightarrow> (\<exists>t. d = \<lparr>entries = P @ t, cpuid_i = length P\<rparr> \<and>
     length P + length t = KVM_MAX_CPUID_ENTRIES \<and>
     (t \<noteq> [] \<longrightarrow> clean (hd t)) \<and> (\<forall>e \<in> set (tl t). e = zero_entry))"

definition opened :: "kvm_cpuid_entry2 list \<Rightarrow> kvm_cpuid_entry2 \<Rightarrow> cpuid_data \<Rightarrow> bool" where
  "opened P e d \<longleftrightarrow> (\<exists>t. d = \<lparr>entries = P @ e # t, cpuid_i = Suc (length P)\<rparr> \<and>
     Suc (length P + length t) = KVM_MAX_CPUID_ENTRIES \<and> (\<forall>x \<in> set t. x = zero_entry))"

definition outcome ::
  "kvm_cpuid_entry2 list \<Rightarrow> kvm_cpuid_entry2 list option \<Rightarrow> cpuid_fault + cpuid_data \<Rightarrow> bool"
where
  "outcome P es r =
     (case es of None \<Rightarrow> r = Inl Table_full | Some es \<Rightarrow> \<exists>d. r = Inr d \<and> holds (P @ es) d)"

lemma clean_zero [simp]: "clean zero_entry"
  by (simp add: clean_def all_zero_def zero_entry_def)

lemma holds_initial: "holds [] initial_cpuid"
  by (auto simp: holds_def initial_cpuid_def KVM_MAX_CPUID_ENTRIES_def dest: list.set_sel(2))

lemma holds_le: "holds P d \<Longrightarrow> length P \<le> KVM_MAX_CPUID_ENTRIES"
  by (auto simp: holds_def)

lemma opened_less: "opened P e d \<Longrightarrow> length P < KVM_MAX_CPUID_ENTRIES"
  by (auto simp: opened_def)

lemma take_entry_full: "holds P d \<Longrightarrow> length P = KVM_MAX_CPUID_ENTRIES \<Longrightarrow> take_entry d = Inl Table_full"
  by (auto simp: holds_def take_entry_def)

lemma take_entry_opens:
  assumes "holds P d" and "length P < KVM_MAX_CPUID_ENTRIES"
  obtains e d' where "take_entry d = Inr (length P, d')" and "opened P e d'" and "clean e"
proof -
  from assms(1) obtain t where t: "d = \<lparr>entries = P @ t, cpuid_i = length P\<rparr>"
    "length P + length t = KVM_MAX_CPUID_ENTRIES" "t \<noteq> [] \<longrightarrow> clean (hd t)"
    "\<forall>e \<in> set (tl t). e = zero_entry"
    by (auto simp: holds_def)
  with assms(2) obtain e t' where "t = e # t'" by (cases t) auto
  with t assms(2) show thesis
    by (intro that [of "d\<lparr>cpuid_i := Suc (length P)\<rparr>" e])
      (auto simp: take_entry_def opened_def)
qed

lemma take_entry_next:
  assumes "opened P e d"
  shows "if Suc (length P) = KVM_MAX_CPUID_ENTRIES then take_entry d = Inl Table_full
         else \<exists>d'. take_entry d = Inr (Suc (length P), d') \<and> opened (P @ [e]) zero_entry d'"
proof -
  from assms obtain t where t: "d = \<lparr>entries = P @ e # t, cpuid_i = Suc (length P)\<rparr>"
    "Suc (length P + length t) = KVM_MAX_CPUID_ENTRIES" "\<forall>x \<in> set t. x = zero_entry"
    by (auto simp: opened_def)
  show ?thesis
  proof (cases t)
    case Nil
    with t show ?thesis by (simp add: take_entry_def)
  next
    case (Cons x t')
    with t show ?thesis by (auto simp: take_entry_def opened_def)
  qed
qed

lemma opened_nth: "opened P e d \<Longrightarrow> entries d ! length P = e"
  by (auto simp: opened_def)

lemma opened_put: "opened P e d \<Longrightarrow> opened P e' (put_entry (length P) e' d)"
  by (auto simp: opened_def put_entry_def)

lemma opened_holds: "opened P e d \<Longrightarrow> holds (P @ [e]) d"
  unfolding opened_def holds_def by (elim exE, rename_tac t, case_tac t) auto

lemma opened_give_back: "opened P e d \<Longrightarrow> clean e \<Longrightarrow> holds P (d\<lparr>cpuid_i := cpuid_i d - 1\<rparr>)"
  by (auto simp: opened_def holds_def)

lemma fill_count_clean: "clean e \<Longrightarrow> fill_count cpu i j e = count_entry cpu i j"
  by (auto simp: clean_def all_zero_def fill_count_def count_entry_def put_regs_def zero_entry_def
      split: option.splits prod.splits)

lemma fill_count_supported:
  "get_cpuid_count cpu i j \<noteq> None \<Longrightarrow> fill_count cpu i j e = count_entry cpu i j"
  by (auto simp: fill_count_def count_entry_def put_regs_def zero_entry_def)

section \<open>The loops against the reference\<close>

lemma subleaf_until:
  assumes "opened P e d" and "clean e" and "i = 4 \<or> i = 0xb"
  shows "outcome P (until_stop (stops i) (count_entry cpu i) (KVM_MAX_CPUID_ENTRIES - length P) j)
           (subleaf_loop cpu i j (length P) d)"
  using assms(1,2)
proof (induction "KVM_MAX_CPUID_ENTRIES - length P" arbitrary: P e d j)
  case 0
  then show ?case using opened_less [of P e d] by simp
next
  case (Suc n)
  let ?x = "count_entry cpu i j" and ?d = "put_entry (length P) (count_entry cpu i j) d"
  have room: "KVM_MAX_CPUID_ENTRIES - length P = Suc n" using Suc.hyps(2) by simp
  have op: "opened P ?x ?d" by (rule opened_put [OF Suc.prems(1)])
  have unfold: "subleaf_loop cpu i j (length P) d =
    (if stops i ?x then Inr ?d
     else case take_entry ?d of
            Inl f \<Rightarrow> Inl f | Inr (c', d2) \<Rightarrow> subleaf_loop cpu i (j + 1) c' d2)"
    using assms(3) by (subst subleaf_loop.simps)
      (auto simp: opened_nth [OF Suc.prems(1)] fill_count_clean [OF Suc.prems(2)] stops_def Let_def)
  show ?case
  proof (cases "stops i ?x \<or> n = 0")
    case True
    then show ?thesis
      using take_entry_next [OF op] opened_holds [OF op] room
      by (auto simp: unfold outcome_def)
  next
    case False
    then obtain d' where t: "take_entry ?d = Inr (Suc (length P), d')"
        and op': "opened (P @ [?x]) zero_entry d'"
      using take_entry_next [OF op] room by (auto split: if_splits)
    have n: "n = KVM_MAX_CPUID_ENTRIES - length (P @ [?x])" using room by simp
    show ?thesis
      using Suc.hyps(1) [OF n op' clean_zero, of "j + 1", folded n] False
      by (auto simp: unfold t room outcome_def split: option.splits)
  qed
qed

fun xsave_from :: "cpuid_if \<Rightarrow> nat \<Rightarrow> kvm_cpuid_entry2 \<Rightarrow> kvm_cpuid_entry2 list" where
  "xsave_from cpu 0 e = [e]"
| "xsave_from cpu (Suc m) e =
     (let x = count_entry cpu 0xd (of_nat (63 - m)) in
      if ce_eax x = 0 then xsave_from cpu m x else x # xsave_from cpu m zero_entry)"

lemma xsave_from_nonempty: "xsave_from cpu m e \<noteq> []"
  by (induction m arbitrary: e) (auto simp: Let_def)

lemma xsave_from_Suc:
  "m < 64 \<Longrightarrow> xsave_from cpu (Suc m) e =
     filter (\<lambda>e. ce_eax e \<noteq> 0) (map (\<lambda>j. count_entry cpu 0xd (of_nat j)) [63 - m..<64]) @
     [if ce_eax (count_entry cpu 0xd 63) = 0 then count_entry cpu 0xd 63 else zero_entry]"
proof (induction m arbitrary: e)
  case 0
  then show ?case by (simp add: upt_rec)
next
  case (Suc m)
  have "[63 - Suc m..<64] = (63 - Suc m) # [63 - m..<64]"
    using Suc.prems by (subst upt_conv_Cons) (auto intro: arg_cong2 [where f = upt])
  with Suc show ?case
    by (simp del: xsave_from.simps add: xsave_from.simps(2) [of cpu "Suc m"] Let_def)
qed

lemma xsave_from_all: "xsave_from cpu 64 e = xsave_entries cpu"
  using xsave_from_Suc [of 63 cpu e] by (simp add: xsave_entries_def)

lemma subleaf_xsave:
  assumes "\<And>j. get_cpuid_count cpu 0xd j \<noteq> None"
  shows "opened P e d \<Longrightarrow> m \<le> 64 \<Longrightarrow>
    outcome P (fits (KVM_MAX_CPUID_ENTRIES - length P) (xsave_from cpu m e))
      (subleaf_loop cpu 0xd (of_nat (64 - m)) (length P) d)"
proof (induction m arbitrary: P e d)
  case 0
  then show ?case
    using opened_less [of P e d] opened_holds [of P e d]
    by (subst subleaf_loop.simps) (auto simp: outcome_def fits_def)
next
  case (Suc m)
  let ?x = "count_entry cpu 0xd (of_nat (63 - m))"
  let ?d = "put_entry (length P) ?x d"
  have op: "opened P ?x ?d" by (rule opened_put [OF Suc.prems(1)])
  have j: "(of_nat (63 - m) :: u32) \<noteq> 64" "of_nat (63 - m) + 1 = (of_nat (64 - m) :: u32)"
  proof -
    have "unat (of_nat (63 - m) :: u32) = 63 - m" by (rule unat_of_nat_u32) simp
    then show "(of_nat (63 - m) :: u32) \<noteq> 64" by (auto dest: arg_cong [where f = unat])
    have "Suc (63 - m) = 64 - m" using Suc.prems(2) by simp
    then show "of_nat (63 - m) + 1 = (of_nat (64 - m) :: u32)"
      by (metis Suc_eq_plus1 of_nat_add of_nat_1)
  qed
  have unfold: "subleaf_loop cpu 0xd (of_nat (63 - m)) (length P) d =
    (if ce_eax ?x = 0 then subleaf_loop cpu 0xd (of_nat (64 - m)) (length P) ?d
     else case take_entry ?d of
            Inl f \<Rightarrow> Inl f | Inr (c', d2) \<Rightarrow> subleaf_loop cpu 0xd (of_nat (64 - m)) c' d2)"
    by (subst subleaf_loop.simps)
      (simp add: opened_nth [OF Suc.prems(1)] fill_count_supported [OF assms] Let_def j
        split: sum.split)
  show ?case
  proof (cases "ce_eax ?x = 0")
    case True
    then show ?thesis using Suc.IH [OF op] Suc.prems(2) by (simp add: unfold del: of_nat_diff)
  next
    case False
    show ?thesis
    proof (cases "Suc (length P) = KVM_MAX_CPUID_ENTRIES")
      case True
      then have "KVM_MAX_CPUID_ENTRIES - length P = Suc 0" by simp
      moreover have "xsave_from cpu m zero_entry \<noteq> []" by (rule xsave_from_nonempty)
      ultimately show ?thesis
        using True False take_entry_next [OF op]
        by (cases "xsave_from cpu m zero_entry") (auto simp: unfold outcome_def fits_def Let_def simp del: of_nat_diff)
    next
      case room: False
      then obtain d' where t: "take_entry ?d = Inr (Suc (length P), d')"
          and op': "opened (P @ [?x]) zero_entry d'"
        using take_entry_next [OF op] by auto
      show ?thesis
        using Suc.IH [OF op'] Suc.prems(2) False opened_less [OF op']
        by (auto simp: unfold t outcome_def fits_def Let_def split: if_splits simp del: of_nat_diff)
    qed
  qed
qed

lemma times_counted:
  "holds P d \<Longrightarrow> k + (KVM_MAX_CPUID_ENTRIES - length P) < 4294967296 \<Longrightarrow>
    outcome P
      (fits (KVM_MAX_CPUID_ENTRIES - length P)
        (map (\<lambda>j. count_entry cpu i (of_nat j)) [k..<Suc (unat n)]))
      (times_loop cpu i (of_nat k) n d)"
proof (induction "KVM_MAX_CPUID_ENTRIES - length P" arbitrary: P d k)
  case 0
  then have full: "length P = KVM_MAX_CPUID_ENTRIES" using holds_le [of P d] by simp
  have k: "unat (of_nat k :: u32) = k" using 0 by (intro unat_of_nat_u32) simp
  show ?case
    using take_entry_full [OF "0.prems"(1) full] "0.prems"(1) full
    by (subst times_loop.simps)
      (auto simp: word_le_nat_alt k outcome_def fits_def)
next
  case (Suc r)
  have less: "length P < KVM_MAX_CPUID_ENTRIES" using Suc.hyps(2) by simp
  have k: "unat (of_nat k :: u32) = k" using Suc.prems(2) by (intro unat_of_nat_u32) simp
  show ?case
  proof (cases "k \<le> unat n")
    case False
    then show ?thesis using Suc.prems(1)
      by (subst times_loop.simps) (auto simp: word_le_nat_alt k outcome_def fits_def)
  next
    case True
    let ?x = "count_entry cpu i (of_nat k)"
    obtain e d' where t: "take_entry d = Inr (length P, d')" and op: "opened P e d'"
        and cl: "clean e"
      using take_entry_opens [OF Suc.prems(1) less] .
    let ?d = "put_entry (length P) ?x d'"
    have h: "holds (P @ [?x]) ?d" by (rule opened_holds [OF opened_put [OF op]])
    have r: "r = KVM_MAX_CPUID_ENTRIES - length (P @ [?x])" using Suc.hyps(2) by simp
    have run: "times_loop cpu i (of_nat k) n d = times_loop cpu i (of_nat (Suc k)) n ?d"
      using True by (subst times_loop.simps)
        (simp add: word_le_nat_alt k t opened_nth [OF op] fill_count_clean [OF cl] add.commute)
    have "Suc k + (KVM_MAX_CPUID_ENTRIES - length (P @ [?x])) < 4294967296"
      using Suc.prems(2) r Suc.hyps(2) by simp
    from Suc.hyps(1) [OF r h this] True Suc.hyps(2) r show ?thesis
      by (auto simp: run outcome_def fits_def upt_conv_Cons split: if_splits simp del: upt_Suc)
  qed
qed

lemma default_leaf_outcome:
  assumes "opened P e d" and "clean e"
  shows "outcome P (plain_leaf_entries cpu (KVM_MAX_CPUID_ENTRIES - length P) i)
    (Inr (default_leaf cpu i (length P) d))"
proof -
  let ?x = "put_regs (get_cpuid cpu i) (e\<lparr>ce_function := i, ce_flags := 0\<rparr>)"
  have x: "?x = default_entry cpu i"
    using assms(2) by (auto simp: clean_def all_zero_def default_entry_def put_regs_def zero_entry_def
        split: option.splits prod.splits)
  have op: "opened P (default_entry cpu i) (put_entry (length P) (default_entry cpu i) d)"
    by (rule opened_put [OF assms(1)])
  have "ce_index (default_entry cpu i) = 0"
    by (auto simp: default_entry_def put_regs_def zero_entry_def split: option.splits prod.splits)
  then show ?thesis
    using opened_give_back [OF op] opened_holds [OF op] opened_less [OF assms(1)]
    by (auto simp: default_leaf_def opened_nth [OF assms(1)] x Let_def outcome_def
        plain_leaf_entries_def clean_def)
qed

lemma counted_leaf_outcome:
  assumes "opened P e d" and "clean e"
  shows "outcome P (fits (KVM_MAX_CPUID_ENTRIES - length P) (first_entry cpu i #
        map (\<lambda>j. count_entry cpu i (of_nat j)) [1..<Suc (unat (ce_eax (first_entry cpu i)))]))
    (counted_leaf cpu i (length P) d)"
proof -
  let ?x = "first_entry cpu i"
  have x: "put_regs (get_cpuid cpu i) (e\<lparr>ce_function := i, ce_index := 0,
      ce_flags := flag_significant_index cpu\<rparr>) = ?x"
    using assms(2) by (auto simp: clean_def all_zero_def first_entry_def put_regs_def zero_entry_def
        split: option.splits prod.splits)
  have h: "holds (P @ [?x]) (put_entry (length P) ?x d)"
    by (rule opened_holds [OF opened_put [OF assms(1)]])
  have "1 + (KVM_MAX_CPUID_ENTRIES - length (P @ [?x])) < 4294967296"
    by (simp add: KVM_MAX_CPUID_ENTRIES_def)
  from times_counted [OF h this, where n = "ce_eax ?x" and cpu = cpu and i = i] opened_less [OF assms(1)] show ?thesis
    by (auto simp: counted_leaf_def opened_nth [OF assms(1)] x outcome_def fits_def Let_def
        KVM_MAX_CPUID_ENTRIES_def split: if_splits simp del: upt_Suc)
qed

lemma std_leaf_outcome:
  assumes "holds P d" and "i = 0xd \<Longrightarrow> (\<And>j. get_cpuid_count cpu i j \<noteq> None)"
  shows "outcome P (leaf_entries cpu (KVM_MAX_CPUID_ENTRIES - length P) i) (std_leaf cpu i d)"
proof (cases "length P = KVM_MAX_CPUID_ENTRIES")
  case True
  then show ?thesis
    using take_entry_full [OF assms(1)]
    by (auto simp: std_leaf_def outcome_def leaf_entries_def fits_def plain_leaf_entries_def
        xsave_entries_def)
next
  case False
  then have "length P < KVM_MAX_CPUID_ENTRIES" using holds_le [OF assms(1)] by simp
  then obtain e d' where t: "take_entry d = Inr (length P, d')" and op: "opened P e d'"
      and cl: "clean e"
    using take_entry_opens [OF assms(1)] by metis
  consider "i = 4 \<or> i = 0xb" | "i = 0xd" | "i = 0x7 \<or> i = 0x14"
    | "i \<noteq> 4 \<and> i \<noteq> 0xb \<and> i \<noteq> 0xd \<and> i \<noteq> 0x7 \<and> i \<noteq> 0x14" by blast
  then show ?thesis
  proof cases
    case 1
    then show ?thesis using subleaf_until [OF op cl] by (auto simp: std_leaf_def t leaf_entries_def)
  next
    case 2
    then show ?thesis using subleaf_xsave [of cpu P e d' 64] assms(2) op xsave_from_all
      by (auto simp: std_leaf_def t leaf_entries_def)
  next
    case 3
    then show ?thesis using counted_leaf_outcome [OF op cl]
      by (auto simp: std_leaf_def t leaf_entries_def simp del: upt_Suc)
  next
    case 4
    then show ?thesis using default_leaf_outcome [OF op cl]
      by (simp add: std_leaf_def t leaf_entries_def)
  qed
qed

lemma ext_leaf_outcome:
  assumes "holds P d"
  shows "outcome P (plain_leaf_entries cpu (KVM_MAX_CPUID_ENTRIES - length P) i) (ext_leaf cpu i d)"
proof (cases "length P = KVM_MAX_CPUID_ENTRIES")
  case True
  then show ?thesis using take_entry_full [OF assms]
    by (simp add: ext_leaf_def outcome_def plain_leaf_entries_def)
next
  case False
  then have "length P < KVM_MAX_CPUID_ENTRIES" using holds_le [OF assms] by simp
  then show ?thesis
    using take_entry_opens [OF assms] default_leaf_outcome by (metis (no_types, lifting) ext_leaf_def
        old.sum.simps(6) prod.case)
qed

text \<open>The leaf loops end, with the reference's entries appended, unless the limit is the largest leaf.\<close>

lemma leaf_loop_outcome:
  assumes body: "\<And>P d i. holds P d \<Longrightarrow> i \<le> limit \<Longrightarrow>
      outcome P (leaf (KVM_MAX_CPUID_ENTRIES - length P) i) (body i d)"
    and lim: "limit \<noteq> 0xffffffff"
  shows "holds P d \<Longrightarrow> k \<le> Suc (unat limit) \<Longrightarrow>
    \<exists>r. leaf_loop body limit (of_nat k) d = Some r \<and>
        outcome P (table_entries leaf (KVM_MAX_CPUID_ENTRIES - length P)
                     (map of_nat [k..<Suc (unat limit)])) r"
proof (induction "Suc (unat limit) - k" arbitrary: P d k)
  case 0
  have "unat limit \<noteq> unat (0xffffffff :: u32)" using lim by (simp add: word_unat_eq_iff)
  moreover have "unat limit < 4294967296" by (rule unat_u32_less)
  ultimately have k: "unat (of_nat k :: u32) = k"
    using 0 by (intro unat_of_nat_u32) simp
  show ?case using 0 by (subst leaf_loop.simps) (auto simp: word_le_nat_alt k outcome_def)
next
  case (Suc m)
  then have le: "k \<le> unat limit" by simp
  with unat_u32_less [of limit] have k: "unat (of_nat k :: u32) = k" by (intro unat_of_nat_u32) simp
  have le': "(of_nat k :: u32) \<le> limit" using le by (simp add: word_le_nat_alt k)
  have upt: "[k..<Suc (unat limit)] = k # [Suc k..<Suc (unat limit)]"
    using le by (simp add: upt_conv_Cons)
  have m: "m = Suc (unat limit) - Suc k" using Suc.hyps(2) by simp
  let ?ref = "leaf (KVM_MAX_CPUID_ENTRIES - length P) (of_nat k)"
  have out: "outcome P ?ref (body (of_nat k) d)" by (rule body [OF Suc.prems(1) le'])
  have unfold: "leaf_loop body limit (of_nat k) d =
      (case body (of_nat k) d of Inl f \<Rightarrow> Some (Inl f)
       | Inr d' \<Rightarrow> leaf_loop body limit (of_nat (Suc k)) d')"
    by (subst leaf_loop.simps) (simp add: le' add.commute split: sum.split)
  show ?case
  proof (cases ?ref)
    case None
    with out show ?thesis by (auto simp: unfold upt outcome_def simp del: upt_Suc)
  next
    case (Some es)
    with out obtain d' where b: "body (of_nat k) d = Inr d'" and h: "holds (P @ es) d'"
      by (auto simp: outcome_def)
    from Suc.hyps(1) [OF m h] le Some show ?thesis
      by (auto simp: unfold b upt outcome_def split: option.splits simp del: upt_Suc)
  qed
qed

lemma leaf_loop_table:
  assumes "\<And>P d i. holds P d \<Longrightarrow> i \<le> limit \<Longrightarrow>
      outcome P (leaf (KVM_MAX_CPUID_ENTRIES - length P) i) (body i d)"
    and "limit \<noteq> 0xffffffff" and "holds P d"
  shows "\<exists>r. leaf_loop body limit first d = Some r \<and>
    outcome P (table_entries leaf (KVM_MAX_CPUID_ENTRIES - length P) (leaves first limit)) r"
proof (cases "unat first \<le> Suc (unat limit)")
  case True
  from leaf_loop_outcome [OF assms(1,2,3) True] show ?thesis by (simp add: leaves_def)
next
  case False
  then show ?thesis using assms(3)
    by (subst leaf_loop.simps) (auto simp: word_le_nat_alt leaves_def outcome_def)
qed

section \<open>The array is never left\<close>

definition in_bounds :: "cpuid_data \<Rightarrow> bool" where
  "in_bounds d \<longleftrightarrow> length (entries d) = KVM_MAX_CPUID_ENTRIES \<and> cpuid_i d \<le> KVM_MAX_CPUID_ENTRIES"

definition safe :: "cpuid_fault + cpuid_data \<Rightarrow> bool" where
  "safe r = (case r of Inl f \<Rightarrow> f = Table_full | Inr d \<Rightarrow> in_bounds d)"

lemma take_entry_safe:
  "in_bounds d \<Longrightarrow> take_entry d = Inl Table_full \<or>
     (\<exists>d'. take_entry d = Inr (cpuid_i d, d') \<and> in_bounds d' \<and> 0 < cpuid_i d')"
  by (auto simp: in_bounds_def take_entry_def)

lemma put_entry_bounds [simp]: "in_bounds (put_entry c e d) = in_bounds d"
  by (simp add: in_bounds_def put_entry_def)

lemma subleaf_loop_safe: "in_bounds d \<Longrightarrow> safe (subleaf_loop cpu i j c d)"
proof (induction cpu i j c d rule: subleaf_loop.induct)
  case (1 cpu i j c d)
  let ?d = "put_entry c (fill_count cpu i j (entries d ! c)) d"
  have "in_bounds ?d" using "1.prems" by simp
  from take_entry_safe [OF this] show ?case
    using "1.IH" "1.prems"
    by (subst subleaf_loop.simps) (auto simp: Let_def safe_def)
qed

lemma times_loop_safe: "in_bounds d \<Longrightarrow> safe (times_loop cpu i j n d)"
proof (induction cpu i j n d rule: times_loop.induct)
  case (1 cpu i j n d)
  from take_entry_safe [OF "1.prems"] show ?case
    using "1.IH" "1.prems" by (subst times_loop.simps) (auto simp: safe_def)
qed

lemma default_leaf_safe: "in_bounds d \<Longrightarrow> in_bounds (default_leaf cpu i c d)"
  by (auto simp: default_leaf_def in_bounds_def put_entry_def Let_def)

lemma std_leaf_safe: "in_bounds d \<Longrightarrow> safe (std_leaf cpu i d)"
  using take_entry_safe [of d]
  by (auto simp: std_leaf_def counted_leaf_def subleaf_loop_safe times_loop_safe Let_def)
    (auto simp: safe_def default_leaf_safe)

lemma ext_leaf_safe: "in_bounds d \<Longrightarrow> safe (ext_leaf cpu i d)"
  using take_entry_safe [of d] by (auto simp: ext_leaf_def safe_def default_leaf_safe)

lemma leaf_loop_safe:
  assumes "\<And>i d. in_bounds d \<Longrightarrow> safe (body i d)" and "in_bounds d"
    and "leaf_loop body limit i d = Some r"
  shows "safe r"
proof -
  have "(\<forall>i d. in_bounds d \<longrightarrow> safe (body i d)) \<longrightarrow> in_bounds d \<longrightarrow> safe r"
  proof (rule leaf_loop.raw_induct [OF _ assms(3),
      where P = "\<lambda>body limit i d r. (\<forall>i d. in_bounds d \<longrightarrow> safe (body i d)) \<longrightarrow> in_bounds d \<longrightarrow> safe r"])
    fix f body limit i d r
    assume IH: "\<And>body limit i d r. f body limit i d = Some r \<Longrightarrow>
        (\<forall>i d. in_bounds d \<longrightarrow> safe (body i d)) \<longrightarrow> in_bounds d \<longrightarrow> safe r"
      and eq: "(if i \<le> limit then case body i d of Inl f \<Rightarrow> Some (Inl f)
                | Inr d' \<Rightarrow> f body limit (i + 1) d' else Some (Inr d)) = Some r"
    show "(\<forall>i d. in_bounds d \<longrightarrow> safe (body i d)) \<longrightarrow> in_bounds d \<longrightarrow> safe r"
    proof (intro impI)
      assume body: "\<forall>i d. in_bounds d \<longrightarrow> safe (body i d)" and d: "in_bounds d"
      then have b: "safe (body i d)" by blast
      show "safe r"
      proof (cases "body i d")
        case (Inl e)
        with eq have "r = Inl e \<or> r = Inr d" by (auto split: if_splits)
        with b d Inl show ?thesis by (auto simp: safe_def)
      next
        case (Inr d')
        with b have "in_bounds d'" by (simp add: safe_def)
        moreover from eq Inr have "r = Inr d \<or> f body limit (i + 1) d' = Some r"
          by (auto split: if_splits)
        ultimately show ?thesis using IH body d by (auto simp: safe_def)
      qed
    qed
  qed
  with assms(1,2) show ?thesis by blast
qed

lemma build_cpuid_safe:
  assumes b: "build_cpuid cpu = Some r"
  shows "r = Inl Uninitialised_limit \<or> safe r"
proof (cases "get_cpuid cpu 0")
  case None
  with b show ?thesis by (simp add: build_cpuid_def)
next
  case (Some regs)
  then obtain limit rest where regs: "get_cpuid cpu 0 = Some (limit, rest)" by (cases regs) auto
  have init: "in_bounds initial_cpuid" by (simp add: in_bounds_def initial_cpuid_def)
  from b regs obtain r1 where r1: "leaf_loop (std_leaf cpu) limit 0 initial_cpuid = Some r1"
    by (cases "leaf_loop (std_leaf cpu) limit 0 initial_cpuid") (auto simp: build_cpuid_def)
  have s1: "safe r1" by (rule leaf_loop_safe [OF _ init r1]) (rule std_leaf_safe)
  show ?thesis
  proof (cases r1)
    case (Inl f)
    with b regs r1 s1 show ?thesis by (simp add: build_cpuid_def)
  next
    case (Inr d)
    with b regs r1 have "leaf_loop (ext_leaf cpu) (ext_limit cpu limit) 0x80000000 d = Some r"
      by (simp add: build_cpuid_def ext_limit_def)
    moreover have "in_bounds d" using s1 Inr by (simp add: safe_def)
    ultimately have "safe r" using leaf_loop_safe [of "ext_leaf cpu"] ext_leaf_safe by blast
    then show ?thesis by simp
  qed
qed

lemma build_cpuid_table:
  assumes "get_cpuid cpu 0 = Some (limit, rest)" and "limit \<noteq> 0xffffffff"
    and "ext_limit cpu limit \<noteq> 0xffffffff"
    and "\<And>j. get_cpuid_count cpu 0xd j \<noteq> None"
  shows "\<exists>r. build_cpuid cpu = Some r \<and> outcome [] (cpuid_table cpu limit) r"
proof -
  obtain r where r: "leaf_loop (std_leaf cpu) limit 0 initial_cpuid = Some r"
      and o1: "outcome [] (table_entries (leaf_entries cpu) KVM_MAX_CPUID_ENTRIES (leaves 0 limit)) r"
    using leaf_loop_table [of limit "leaf_entries cpu" "std_leaf cpu" "[]" initial_cpuid 0]
      std_leaf_outcome assms(2,4) holds_initial by auto
  show ?thesis
  proof (cases "table_entries (leaf_entries cpu) KVM_MAX_CPUID_ENTRIES (leaves 0 limit)")
    case None
    with o1 r assms(1) show ?thesis
      by (auto simp: build_cpuid_def outcome_def cpuid_table_def)
  next
    case (Some es)
    with o1 obtain d where d: "r = Inr d" "holds es d" by (auto simp: outcome_def)
    obtain r' where r': "leaf_loop (ext_leaf cpu) (ext_limit cpu limit) 0x80000000 d = Some r'"
        and o2: "outcome es (table_entries (plain_leaf_entries cpu)
                   (KVM_MAX_CPUID_ENTRIES - length es)
                   (leaves 0x80000000 (ext_limit cpu limit))) r'"
      using leaf_loop_table [of "ext_limit cpu limit" "plain_leaf_entries cpu" "ext_leaf cpu" es d]
        ext_leaf_outcome assms(3) d(2) by blast
    have "build_cpuid cpu = Some r'"
      using assms(1) r d(1) r' by (simp add: build_cpuid_def ext_limit_def)
    with o2 Some show ?thesis
      by (auto simp: cpuid_table_def outcome_def split: option.splits)
  qed
qed

lemma vm_init_cpuid_result:
  assumes "get_cpuid cpu 0 = Some (limit, rest)" and "limit \<noteq> 0xffffffff"
    and "ext_limit cpu limit \<noteq> 0xffffffff"
    and "\<And>j. get_cpuid_count cpu 0xd j \<noteq> None"
  shows "vm_init_cpuid cpu set_cpuid2 =
    Some (Inr (case cpuid_table cpu limit of
                 None \<Rightarrow> (-1, None)
               | Some es \<Rightarrow> (set_cpuid2 es, Some es)))"
  using build_cpuid_table [OF assms]
  by (auto simp: vm_init_cpuid_def outcome_def holds_def Let_def split: option.splits)

section \<open>Well-formed entries\<close>

definition subleafed :: "u32 \<Rightarrow> bool" where
  "subleafed i \<longleftrightarrow> i = 4 \<or> i = 0x7 \<or> i = 0xb \<or> i = 0xd \<or> i = 0x14"

text \<open>
  An entry of a leaf with subleaves is marked as such; an entry of another leaf has no mark and no
  index and holds something. The one exception is the entry that the loop of leaf 0xd has reserved
  and not filled.
\<close>

definition entry_typed :: "cpuid_if \<Rightarrow> kvm_cpuid_entry2 \<Rightarrow> bool" where
  "entry_typed cpu e \<longleftrightarrow> e = zero_entry \<or>
     (if subleafed (ce_function e) then ce_flags e = flag_significant_index cpu
      else ce_flags e = 0 \<and> ce_index e = 0 \<and> \<not> all_zero e)"

lemma table_entries_all:
  assumes "table_entries leaf room is = Some es"
    and "\<And>i r xs. i \<in> set is \<Longrightarrow> leaf r i = Some xs \<Longrightarrow> list_all Q xs"
  shows "list_all Q es"
  using assms by (induction "is" arbitrary: room es) (fastforce split: option.splits)+

lemma until_stop_all:
  "until_stop stop f n j = Some es \<Longrightarrow> (\<And>k. Q (f k)) \<Longrightarrow> list_all Q es"
  by (induction n arbitrary: j es) (auto split: if_splits)

lemma put_regs_keeps [simp]:
  "ce_function (put_regs r e) = ce_function e" "ce_flags (put_regs r e) = ce_flags e" "ce_index (put_regs r e) = ce_index e"
  by (auto simp: put_regs_def split: option.splits)

lemma count_entry_typed: "subleafed i \<Longrightarrow> entry_typed cpu (count_entry cpu i j)"
  by (simp add: entry_typed_def count_entry_def fill_count_def)

lemma plain_leaf_typed:
  "\<not> subleafed i \<Longrightarrow> plain_leaf_entries cpu r i = Some es \<Longrightarrow> list_all (entry_typed cpu) es"
  by (auto simp: plain_leaf_entries_def entry_typed_def default_entry_def zero_entry_def split: if_splits)

lemma leaf_typed: "leaf_entries cpu r i = Some es \<Longrightarrow> list_all (entry_typed cpu) es"
proof -
  assume es: "leaf_entries cpu r i = Some es"
  consider "i = 4 \<or> i = 0xb" | "i = 0xd" | "i = 0x7 \<or> i = 0x14" | "\<not> subleafed i" by (auto simp: subleafed_def)
  then show ?thesis
  proof cases
    case 1
    then have "until_stop (stops i) (count_entry cpu i) r 0 = Some es" using es by (auto simp: leaf_entries_def)
    moreover have "subleafed i" using 1 by (auto simp: subleafed_def)
    ultimately show ?thesis using until_stop_all count_entry_typed by blast
  next
    case 2
    moreover have "entry_typed cpu zero_entry" by (simp add: entry_typed_def)
    ultimately show ?thesis using es count_entry_typed [of 13 cpu]
      by (auto simp: leaf_entries_def fits_def xsave_entries_def subleafed_def list_all_iff split: if_splits)
  next
    case 3
    then have "subleafed i" by (auto simp: subleafed_def)
    moreover from this have "entry_typed cpu (first_entry cpu i)" by (simp add: entry_typed_def first_entry_def)
    ultimately show ?thesis using 3 es count_entry_typed
      by (auto simp: leaf_entries_def fits_def list_all_iff split: if_splits)
  next
    case 4
    then show ?thesis using es plain_leaf_typed by (auto simp: leaf_entries_def subleafed_def)
  qed
qed

lemma cpuid_table_typed:
  assumes "cpuid_table cpu limit = Some es"
  shows "list_all (entry_typed cpu) es"
proof -
  obtain xs ys where xs: "table_entries (leaf_entries cpu) KVM_MAX_CPUID_ENTRIES (leaves 0 limit) = Some xs"
    and ys: "table_entries (plain_leaf_entries cpu) (KVM_MAX_CPUID_ENTRIES - length xs)
      (leaves 0x80000000 (ext_limit cpu limit)) = Some ys" and es: "es = xs @ ys"
    using assms by (auto simp: cpuid_table_def split: option.splits)
  have "\<not> subleafed i" if i: "i \<in> set (leaves 0x80000000 (ext_limit cpu limit))" for i
  proof -
    obtain n where n: "i = of_nat n" "0x80000000 \<le> n" "n \<le> unat (ext_limit cpu limit)"
      using i by (auto simp: leaves_def simp del: upt_Suc)
    then have "unat i = n" using unat_u32_less [of "ext_limit cpu limit"] by (simp add: unat_of_nat_u32)
    then show ?thesis using n(2) by (auto simp: subleafed_def)
  qed
  then have "list_all (entry_typed cpu) ys" using table_entries_all [OF ys] plain_leaf_typed by blast
  moreover have "list_all (entry_typed cpu) xs" using table_entries_all [OF xs] leaf_typed by blast
  ultimately show ?thesis by (simp add: es)
qed

section \<open>Properties\<close>


text \<open>
  C13: for every processor, whatever it reports and even if its maximum leaf makes the loop wrap, no
  entry outside the array is accessed, and at most a hundred entries are handed to the ioctl.
\<close>

theorem vm_init_cpuid_in_bounds:
  assumes "vm_init_cpuid cpu set_cpuid2 = Some r"
  shows "r \<noteq> Inl Entry_out_of_bounds \<and>
    (\<forall>v es. r = Inr (v, Some es) \<longrightarrow> length es \<le> KVM_MAX_CPUID_ENTRIES)"
proof (cases "build_cpuid cpu")
  case None
  with assms show ?thesis by (simp add: vm_init_cpuid_def)
next
  case (Some b)
  from build_cpuid_safe [OF this] assms Some show ?thesis
    by (auto simp: vm_init_cpuid_def safe_def in_bounds_def Let_def split: sum.splits)
qed


text \<open>An example processor: leaves 0 to 4, two cache levels, one extended leaf.\<close>

definition example_cpu :: cpuid_if where
  "example_cpu =
     \<lparr>get_cpuid = (\<lambda>i. if i = 0 then Some (4, 1, 2, 3)
                       else if i = 0x80000000 then Some (0x80000000, 0, 0, 0)
                       else if i = 1 then Some (5, 6, 7, 8) else Some (0, 0, 0, 0)),
      get_cpuid_count = (\<lambda>i j. if j < 2 then Some (9, 0, 0, 0) else Some (0, 0, 0, 0)),
      flag_significant_index = 1\<rparr>"

lemma example_cpu_limits:
  "get_cpuid example_cpu 0 = Some (4, 1, 2, 3)" "ext_limit example_cpu 4 = 0x80000000"
  "get_cpuid_count example_cpu 0xd j \<noteq> None"
  by (simp_all add: example_cpu_def ext_limit_def)

lemma example_cpu_leaves:
  "leaves 0 4 = [0, 1, 2, 3, 4]" "leaves 0x80000000 0x80000000 = [0x80000000]"
  by (simp_all add: leaves_def upt_rec)

lemma example_cpu_entries:
  assumes "0 < room"
  shows "plain_leaf_entries example_cpu room 0 =
      Some [zero_entry\<lparr>ce_eax := 4, ce_ebx := 1, ce_ecx := 2, ce_edx := 3\<rparr>]"
    "plain_leaf_entries example_cpu room 1 =
      Some [zero_entry\<lparr>ce_function := 1, ce_eax := 5, ce_ebx := 6, ce_ecx := 7, ce_edx := 8\<rparr>]"
    "plain_leaf_entries example_cpu room 2 = Some []"
    "plain_leaf_entries example_cpu room 3 = Some []"
    "plain_leaf_entries example_cpu room 0x80000000 =
      Some [zero_entry\<lparr>ce_function := 0x80000000, ce_eax := 0x80000000\<rparr>]"
  using assms
  by (simp_all add: plain_leaf_entries_def default_entry_def put_regs_def example_cpu_def
      zero_entry_def all_zero_def)

lemma until_stop_numeral:
  "until_stop stop f (numeral n) j =
     (if stop (f j) then Some [f j]
      else map_option (Cons (f j)) (until_stop stop f (pred_numeral n) (j + 1)))"
  by (simp add: numeral_eq_Suc)

lemma example_cpu_caches:
  "until_stop (stops 4) (count_entry example_cpu 4) 98 0 =
    Some [zero_entry\<lparr>ce_function := 4, ce_flags := 1, ce_eax := 9\<rparr>,
          zero_entry\<lparr>ce_function := 4, ce_index := 1, ce_flags := 1, ce_eax := 9\<rparr>,
          zero_entry\<lparr>ce_function := 4, ce_index := 2, ce_flags := 1\<rparr>]"
  by (simp add: until_stop_numeral stops_def count_entry_def fill_count_def put_regs_def
      example_cpu_def zero_entry_def)

lemma example_cpu_table:
  "cpuid_table example_cpu 4 =
    Some [zero_entry\<lparr>ce_eax := 4, ce_ebx := 1, ce_ecx := 2, ce_edx := 3\<rparr>,
          zero_entry\<lparr>ce_function := 1, ce_eax := 5, ce_ebx := 6, ce_ecx := 7, ce_edx := 8\<rparr>,
          zero_entry\<lparr>ce_function := 4, ce_flags := 1, ce_eax := 9\<rparr>,
          zero_entry\<lparr>ce_function := 4, ce_index := 1, ce_flags := 1, ce_eax := 9\<rparr>,
          zero_entry\<lparr>ce_function := 4, ce_index := 2, ce_flags := 1\<rparr>,
          zero_entry\<lparr>ce_function := 0x80000000, ce_eax := 0x80000000\<rparr>]"
  by (simp add: cpuid_table_def example_cpu_limits example_cpu_leaves leaf_entries_def
      example_cpu_entries example_cpu_caches KVM_MAX_CPUID_ENTRIES_def)



theorem vm_init_cpuid_in_bounds_witness:
  "\<exists>es. vm_init_cpuid example_cpu (\<lambda>es. 0) = Some (Inr (0, Some es)) \<and>
     length es \<le> KVM_MAX_CPUID_ENTRIES"
proof -
  have "\<exists>r. build_cpuid example_cpu = Some r \<and> outcome [] (cpuid_table example_cpu 4) r"
    using build_cpuid_table [OF example_cpu_limits(1) _ _ example_cpu_limits(3)]
    by (simp add: example_cpu_limits(2))
  then obtain es where r: "vm_init_cpuid example_cpu (\<lambda>es. 0) = Some (Inr (0, Some es))"
    by (auto simp: vm_init_cpuid_def outcome_def example_cpu_table Let_def)
  show ?thesis using r vm_init_cpuid_in_bounds [OF r] by blast
qed

end
