(* ===== verification/Vm_Main.thy ===== *)
theory Vm_Main
  imports Vm_Args Vm_Cpuid
begin

text \<open>
  The monitor's \<^verbatim>\<open>main\<close> (\<^verbatim>\<open>src/vm.c\<close>): \<^verbatim>\<open>kvm_init\<close>, the creation of the virtual machine with its two
  memory regions, interrupt route and virtual CPU, and the loop that runs the guest and emulates its
  exits. The results of system calls are inputs of the model: a record for the set-up, a list for
  the exits. The virtual machine that the calls built up is the output of the set-up, what the
  monitor prints and signals is the output of the loop.
\<close>

section \<open>State\<close>

definition KVM_API_VERSION :: int where
  "KVM_API_VERSION = 12"

definition EINVAL :: int where
  "EINVAL = 22"

definition virq :: u32 where
  "virq = 0x48"

text \<open>Fields of the \<^verbatim>\<open>malloc\<close>ed state are \<^term>\<open>None\<close> until they are assigned.\<close>

record KVMState =
  ks_fd :: "int option"
  ks_vmfd :: "int option"
  ks_ioefd :: "int option"
  ks_irqefd :: "int option"
  ks_vcpufd :: "int option"

definition fresh_state :: KVMState where
  "fresh_state = \<lparr>ks_fd = None, ks_vmfd = None, ks_ioefd = None, ks_irqefd = None, ks_vcpufd = None\<rparr>"

text \<open>\<^verbatim>\<open>mmap\<close> gives an address or \<^verbatim>\<open>MAP_FAILED\<close>, never the null pointer the code tests for.\<close>

datatype mapping = Mapped u64 | Map_failed

record memory_region =
  mr_slot :: nat
  mr_guest_phys_addr :: nat
  mr_memory_size :: nat
  mr_host :: mapping

record irq_route =
  ir_gsi :: u32
  ir_address_lo :: u32
  ir_address_hi :: u32
  ir_data :: u32

record boot_regs =
  br_rip :: u64
  br_rax :: u64
  br_rbx :: u64
  br_rflags :: u64
  br_cs_base :: u64
  br_cs_selector :: u16

record machine =
  m_state :: KVMState
  m_image :: "u8 list"
  m_regions :: "memory_region list"
  m_route :: irq_route
  m_irqfd :: "int \<times> u32"
  m_cpuid :: "int \<times> kvm_cpuid_entry2 list option"
  m_run_size :: u64
  m_run :: mapping
  m_regs :: boot_regs

datatype boot_fault =
    Null_state
  | Image_overrun
  | Uninitialised_fd
  | Cpuid_fault cpuid_fault

datatype boot_stop =
    Exited_with int
  | Boot_fault boot_fault
  | Hangs

text \<open>The results of the system calls of the set-up, and the file to boot.\<close>

record boot_env =
  be_errno :: int
  be_alloc_ks :: bool
  be_alloc_cpus :: bool
  be_open_kvm :: int
  be_api_version :: int
  be_eventfd1 :: int
  be_eventfd2 :: int
  be_open_file :: int
  be_fstat :: int
  be_file :: "u8 list"
  be_st_size :: nat
  be_create_vm :: int
  be_mem1 :: mapping
  be_read_error :: bool
  be_set_region1 :: int
  be_mem2 :: mapping
  be_set_region2 :: int
  be_create_vcpu :: int
  be_cpu :: cpuid_if
  be_set_cpuid2 :: "kvm_cpuid_entry2 list \<Rightarrow> int"
  be_mmap_size :: int
  be_irqfd :: int
  be_run :: mapping
  be_get_sregs :: int
  be_set_sregs :: int
  be_set_regs :: int

section \<open>Operations\<close>

definition kvm_init :: "boot_env \<Rightarrow> KVMState \<Rightarrow> KVMState \<times> int" where
  "kvm_init e s =
     (let s = s\<lparr>ks_fd := Some (be_open_kvm e)\<rparr> in
      if be_open_kvm e = -1 then (s, - be_errno e)
      else if be_api_version e \<noteq> KVM_API_VERSION then (s, - EINVAL)
      else
        let s = (if 0 < be_eventfd1 e then s\<lparr>ks_ioefd := Some (be_eventfd1 e)\<rparr> else s) in
        if 0 < be_eventfd2 e then (s\<lparr>ks_irqefd := Some (be_eventfd2 e)\<rparr>, 0)
        else (s, be_eventfd2 e))"

text \<open>The registration of the I/O event is commented out; the interrupt event is registered.\<close>

definition set_ioeventfd_mmio :: "boot_env \<Rightarrow> KVMState \<Rightarrow> boot_stop + ((int \<times> u32) \<times> int)" where
  "set_ioeventfd_mmio e s =
     (case ks_irqefd s of
        None \<Rightarrow> Inl (Boot_fault Uninitialised_fd)
      | Some fd \<Rightarrow> Inr ((fd, virq), if be_irqfd e < 0 then - be_errno e else 0))"

definition mem1_size :: nat where "mem1_size = 0x80000"
definition mem2_size :: nat where "mem2_size = 0x4000000"
definition load_offset :: nat where "load_offset = 0xc00"

text \<open>\<^verbatim>\<open>read(fd, mem1+0xc00, st_size+1)\<close> into fresh anonymous memory.\<close>

definition load_image :: "boot_env \<Rightarrow> boot_stop + u8 list" where
  "load_image e =
     (let bs = take (be_st_size e + 1) (be_file e) in
      if be_read_error e \<or> be_mem1 e = Map_failed then Inl (Exited_with (-1))
      else if mem1_size < load_offset + length bs then Inl (Boot_fault Image_overrun)
      else Inr (replicate load_offset 0 @ bs @ replicate (mem1_size - load_offset - length bs) 0))"

definition region1 :: "mapping \<Rightarrow> memory_region" where
  "region1 m = \<lparr>mr_slot = 0, mr_guest_phys_addr = 0x7000, mr_memory_size = mem1_size, mr_host = m\<rparr>"

definition region2 :: "mapping \<Rightarrow> memory_region" where
  "region2 m = \<lparr>mr_slot = 2, mr_guest_phys_addr = 0x100000, mr_memory_size = mem2_size, mr_host = m\<rparr>"

definition msi_route :: irq_route where
  "msi_route = \<lparr>ir_gsi = virq, ir_address_lo = 0xfee00000 OR push_bit 12 0xff, ir_address_hi = 0,
                ir_data = 0x30\<rparr>"

definition start_regs :: boot_regs where
  "start_regs = \<lparr>br_rip = 0x7c00, br_rax = 2, br_rbx = 2, br_rflags = 0x82, br_cs_base = 0,
                 br_cs_selector = 0\<rparr>"

text \<open>
  From the virtual CPU on. \<^verbatim>\<open>mmap_size\<close> is a \<^verbatim>\<open>size_t\<close>, so the test for a negative value never holds; the
  result of \<^verbatim>\<open>vm_init_cpuid\<close> is not looked at. \<open>sizeof_run\<close> is the size of \<^verbatim>\<open>struct kvm_run\<close>.
\<close>

definition setup_vcpu ::
  "u64 \<Rightarrow> boot_env \<Rightarrow> KVMState \<Rightarrow> u8 list \<Rightarrow> boot_stop + machine"
where
  "setup_vcpu sizeof_run e s img =
     (if \<not> be_alloc_cpus e then Inl (Boot_fault Null_state)
      else
        let s = s\<lparr>ks_vcpufd := Some (be_create_vcpu e)\<rparr> in
        if be_create_vcpu e = -1 then Inl (Exited_with 1)
        else case vm_init_cpuid (be_cpu e) (be_set_cpuid2 e) of
               None \<Rightarrow> Inl Hangs
             | Some (Inl f) \<Rightarrow> Inl (Boot_fault (Cpuid_fault f))
             | Some (Inr cpuid) \<Rightarrow>
                 let mmap_size = word_of_int (be_mmap_size e) :: u64 in
                 if mmap_size < 0 then Inl (Exited_with 1)
                 else if mmap_size < sizeof_run then Inl (Exited_with 1)
                 else case set_ioeventfd_mmio e s of
                        Inl f \<Rightarrow> Inl f
                      | Inr (irqfd, ret) \<Rightarrow>
                          if ret < 0 then Inl (Exited_with 1)
                          else if be_get_sregs e = -1 then Inl (Exited_with 1)
                          else if be_set_sregs e = -1 then Inl (Exited_with 1)
                          else if be_set_regs e = -1 then Inl (Exited_with 1)
                          else Inr \<lparr>m_state = s, m_image = img,
                                    m_regions = [region1 (be_mem1 e), region2 (be_mem2 e)],
                                    m_route = msi_route, m_irqfd = irqfd, m_cpuid = cpuid,
                                    m_run_size = mmap_size, m_run = be_run e, m_regs = start_regs\<rparr>)"

text \<open>
  The whole set-up, after the command line. Enabling the split interrupt controller and setting the
  route may fail without consequence.
\<close>

definition vm_setup :: "u64 \<Rightarrow> boot_env \<Rightarrow> boot_stop + machine" where
  "vm_setup sizeof_run e =
     (if \<not> be_alloc_ks e then Inl (Boot_fault Null_state)
      else
        let (s, ret) = kvm_init e fresh_state in
        if ret \<noteq> 0 then Inl (Exited_with (-1))
        else if be_open_file e = -1 then Inl (Exited_with 1)
        else if be_fstat e \<noteq> 0 then Inl (Exited_with (-1))
        else
          let s = s\<lparr>ks_vmfd := Some (be_create_vm e)\<rparr> in
          if be_create_vm e = -1 then Inl (Exited_with 1)
          else case load_image e of
                 Inl f \<Rightarrow> Inl f
               | Inr img \<Rightarrow>
                   if be_set_region1 e = -1 then Inl (Exited_with 1)
                   else if be_set_region2 e = -1 then Inl (Exited_with 1)
                   else setup_vcpu sizeof_run e s img)"

section \<open>The run loop\<close>

text \<open>
  One return of \<^verbatim>\<open>KVM_RUN\<close>: an error, or an exit with the part of \<^verbatim>\<open>struct kvm_run\<close> that the loop reads.
  An I/O exit carries the byte at its data offset, an MMIO exit its data bytes and, as the result of a
  later call, how many bytes the write to the interrupt event took.
\<close>

datatype kvm_exit =
    Run_error
  | Exit_io bool nat u16 nat u8
  | Exit_mmio u64 u32 bool "u8 list" int
  | Exit_shutdown
  | Exit_unknown u64
  | Exit_system_event
  | Exit_fail_entry u64
  | Exit_internal_error u64
  | Exit_hlt
  | Exit_other u32

datatype vm_output =
    Putchar u8
  | Newline
  | Console u8
  | Doorbell u64 "u8 list"
  | Irq_signal int
  | Irq_write_failed
  | Say_io u16 nat nat
  | Say_mmio u64 u32 bool
  | Say_unknown u64
  | Say_hlt

datatype run_status =
    Running
  | Stopped int
  | Invalid_run_pointer

text \<open>
  The screen and the doorbell. At the doorbell the monitor waits for a key before it signals the
  interrupt event; \<open>written\<close> is the result of that write.
\<close>

definition mmio_exit :: "int \<Rightarrow> int \<Rightarrow> u64 \<Rightarrow> u32 \<Rightarrow> bool \<Rightarrow> u8 list \<Rightarrow> vm_output list \<times> run_status" where
  "mmio_exit irqefd written phys_addr len is_write bs =
     (if 0xb8000 \<le> phys_addr \<and> phys_addr \<le> 0xba000 then
        ((if (phys_addr - 0xb8000) mod (2 * 80) = 0 then [Newline] else []) @ [Console (bs ! 0)], Running)
      else if phys_addr = 0x8000000 then
        ([Doorbell phys_addr bs, Irq_signal irqefd] @ (if written \<noteq> 8 then [Irq_write_failed] else []), Running)
      else ([Say_mmio phys_addr len is_write], Stopped (-1)))"

definition exit_step :: "int \<Rightarrow> kvm_exit \<Rightarrow> vm_output list \<times> run_status" where
  "exit_step irqefd x =
     (case x of
        Run_error \<Rightarrow> ([], Stopped 1)
      | Exit_io out sz port count byte \<Rightarrow>
          if out \<and> sz = 1 \<and> port = 0x3f8 \<and> count = 1 then ([Putchar byte], Running)
          else ([Say_io port sz count], Stopped 1)
      | Exit_mmio a len w bs written \<Rightarrow> mmio_exit irqefd written a len w bs
      | Exit_shutdown \<Rightarrow> ([], Running)
      | Exit_unknown r \<Rightarrow> ([Say_unknown r], Running)
      | Exit_system_event \<Rightarrow> ([], Running)
      | Exit_fail_entry _ \<Rightarrow> ([], Stopped 1)
      | Exit_internal_error _ \<Rightarrow> ([], Stopped 1)
      | Exit_hlt \<Rightarrow> ([Say_hlt], Stopped 0)
      | Exit_other _ \<Rightarrow> ([], Stopped 1))"

text \<open>The loop over the exits seen so far: what was printed, and whether the monitor still runs.\<close>

fun run_loop :: "int \<Rightarrow> kvm_exit list \<Rightarrow> vm_output list \<times> run_status" where
  "run_loop irqefd [] = ([], Running)"
| "run_loop irqefd (x # xs) =
     (case exit_step irqefd x of
        (out, Running) \<Rightarrow> (case run_loop irqefd xs of (out', st) \<Rightarrow> (out @ out', st))
      | (out, st) \<Rightarrow> (out, st))"

text \<open>The loop of a machine reads the exit reason through the mapping of \<^verbatim>\<open>struct kvm_run\<close>.\<close>

definition run_machine :: "machine \<Rightarrow> kvm_exit list \<Rightarrow> vm_output list \<times> run_status" where
  "run_machine m xs =
     (case xs of
        [] \<Rightarrow> ([], Running)
      | Run_error # _ \<Rightarrow> ([], Stopped 1)
      | _ \<Rightarrow> (case m_run m of
                Map_failed \<Rightarrow> ([], Invalid_run_pointer)
              | Mapped _ \<Rightarrow> run_loop (fst (m_irqfd m)) xs))"

text \<open>The whole program: command line, set-up, loop.\<close>

definition vm_main ::
  "u64 \<Rightarrow> (char \<times> string) list \<Rightarrow> boot_env \<Rightarrow> kvm_exit list \<Rightarrow>
   arg_fault + (boot_stop + (vm_output list \<times> run_status))"
where
  "vm_main sizeof_run opts e xs =
     (case parse_argv opts initial_args of
        Inl f \<Rightarrow> Inl f
      | Inr (_, ret) \<Rightarrow>
          if ret \<noteq> 0 then Inr (Inl (Exited_with (-1)))
          else case vm_setup sizeof_run e of
                 Inl f \<Rightarrow> Inr (Inl f)
               | Inr m \<Rightarrow> Inr (Inr (run_machine m xs)))"

section \<open>The event thread\<close>

text \<open>
  The body of the thread that would watch the I/O event descriptor; the monitor's call that creates it
  is commented out. A round is what \<^verbatim>\<open>select\<close> returned, whether the descriptor is in its set, what
  \<^verbatim>\<open>read\<close> returned, and the counter that it read. The loop has no way out: the output is that of the
  rounds so far.
\<close>

record select_round =
  sr_retval :: int
  sr_isset :: bool
  sr_read :: int
  sr_counter :: u64

datatype worker_msg = Worker_running | Select_error | Eventfd_read_error | Eventfd_value u64 | No_data

definition eventfd_round :: "select_round \<Rightarrow> worker_msg list" where
  "eventfd_round r =
     (if sr_retval r = -1 then [Select_error]
      else if 0 < sr_retval r then
        (if sr_isset r then
           (if sr_read r \<noteq> 8 then [Eventfd_read_error] else [Eventfd_value (sr_counter r)])
         else [])
      else if sr_retval r = 0 then [No_data]
      else [])"

definition wait_eventfd :: "select_round list \<Rightarrow> worker_msg list" where
  "wait_eventfd rounds = Worker_running # concat (map eventfd_round rounds)"

text \<open>
  The counters that it shows are those of the successful reads, in order, and an error, whose message
  says that the thread exits, does not end it: what it prints for the rounds after it is the same.
\<close>

lemma wait_eventfd_values:
  "[c. Eventfd_value c \<leftarrow> wait_eventfd rounds] =
    map sr_counter (filter (\<lambda>r. 0 < sr_retval r \<and> sr_isset r \<and> sr_read r = 8) rounds)"
  by (induction rounds) (auto simp: wait_eventfd_def eventfd_round_def)

lemma wait_eventfd_goes_on:
  "wait_eventfd (xs @ r # ys) = wait_eventfd xs @ eventfd_round r @ tl (wait_eventfd ys)"
  by (simp add: wait_eventfd_def)

section \<open>The loop and its outputs\<close>

lemma run_loop_append:
  assumes "\<forall>x \<in> set xs. snd (exit_step q x) = Running"
  shows "run_loop q (xs @ ys) =
    (concat (map (fst \<circ> exit_step q) xs) @ fst (run_loop q ys), snd (run_loop q ys))"
  using assms
proof (induction xs)
  case (Cons x xs)
  obtain out where "exit_step q x = (out, Running)" using Cons.prems by (metis list.set_intros(1) prod.collapse)
  then show ?case using Cons by (auto split: prod.splits)
qed simp

lemma run_loop_stops:
  assumes "\<forall>x \<in> set xs. snd (exit_step q x) = Running" and "snd (exit_step q y) \<noteq> Running"
  shows "run_loop q (xs @ y # zs) =
    (concat (map (fst \<circ> exit_step q) xs) @ fst (exit_step q y), snd (exit_step q y))"
  unfolding run_loop_append [OF assms(1)] using assms(2)
  by (cases "exit_step q y"; cases "snd (exit_step q y)") auto

lemma run_loop_continues:
  "run_loop q xs = (out, Running) \<Longrightarrow> run_loop q (xs @ ys) = (out @ fst (run_loop q ys), snd (run_loop q ys))"
  by (induction xs arbitrary: out) (auto split: prod.splits run_status.splits)

text \<open>Text stored to the screen, and the rows in which it is printed.\<close>

definition screen_writes :: "u8 list \<Rightarrow> nat \<Rightarrow> u8 list \<Rightarrow> kvm_exit list" where
  "screen_writes attr pos cs = map (\<lambda>(i, c). Exit_mmio (cell_addr i) 2 True (c # attr) 0) (enumerate pos cs)"

function screen_lines :: "u8 list \<Rightarrow> vm_output list" where
  "screen_lines cs = (if cs = [] then [] else Newline # map Console (take 80 cs) @ screen_lines (drop 80 cs))"
  by pat_completeness auto
termination
  by (relation "measure length") auto

declare screen_lines.simps [simp del]

lemma cell_output:
  assumes "2 * i \<le> 0x2000"
  shows "exit_step q (Exit_mmio (cell_addr i) 2 True (c # attr) 0) =
    ((if i mod 80 = 0 then [Newline] else []) @ [Console c], Running)"
proof -
  have u: "unat (of_nat (2 * i) :: u64) = 2 * i" using assms by (intro unat_of_nat_small) simp_all
  have a: "unat (0xb8000 + of_nat (2 * i) :: u64) = 0xb8000 + 2 * i"
    using assms u by (simp add: unat_word_ariths)
  have "(of_nat (2 * i) mod 160 = (0 :: u64)) \<longleftrightarrow> (2 * i) mod 160 = 0"
    using u by (simp add: word_unat_eq_iff unat_mod)
  also have "\<dots> \<longleftrightarrow> i mod 80 = 0" by presburger
  finally have "(of_nat (2 * i) mod 160 = (0 :: u64)) \<longleftrightarrow> i mod 80 = 0" .
  moreover have "0xb8000 \<le> (0xb8000 + of_nat (2 * i) :: u64)" "(0xb8000 + of_nat (2 * i) :: u64) \<le> 0xba000"
    using a assms by (simp_all add: word_le_nat_alt)
  ultimately show ?thesis by (simp add: exit_step_def mmio_exit_def cell_addr_def)
qed

lemma no_newline_in_row:
  "\<forall>k < length cs. (pos + k) mod 80 \<noteq> 0 \<Longrightarrow>
   concat (map (\<lambda>(i, c). (if i mod 80 = 0 then [Newline] else []) @ [Console c]) (enumerate pos cs)) =
     map Console cs"
proof (induction cs arbitrary: pos)
  case (Cons c cs)
  have "(Suc pos + k) mod 80 \<noteq> 0" if "k < length cs" for k
    using Cons.prems [rule_format, of "Suc k"] that by simp
  then have "\<forall>k < length cs. (Suc pos + k) mod 80 \<noteq> 0" by blast
  then show ?case using Cons.IH [of "Suc pos"] Cons.prems [rule_format, of 0] by simp
qed simp

lemma screen_rows:
  "pos mod 80 = 0 \<Longrightarrow>
   concat (map (\<lambda>(i, c). (if i mod 80 = 0 then [Newline] else []) @ [Console c]) (enumerate pos cs)) =
     screen_lines cs"
proof (induction cs arbitrary: pos rule: screen_lines.induct)
  case (1 cs)
  show ?case
  proof (cases cs)
    case (Cons c rest)
    let ?f = "\<lambda>(i, c). (if i mod 80 = 0 then [Newline] else []) @ [Console c]"
    have row: "concat (map ?f (enumerate (Suc pos) (take 79 rest))) = map Console (take 79 rest)"
    proof (rule no_newline_in_row, intro allI impI)
      fix k assume "k < length (take 79 rest)"
      then have "Suc k < 80" by simp
      moreover obtain m where "pos = m * 80" using 1(2) by (metis div_mult_mod_eq add_0_right)
      then have "Suc pos + k = Suc k + m * 80" by simp
      ultimately show "(Suc pos + k) mod 80 \<noteq> 0" by (simp only: mod_mult_self1 mod_less)
    qed
    have "enumerate pos cs = enumerate pos (take 80 cs @ drop 80 cs)" by simp
    also have "\<dots> = (pos, c) # enumerate (Suc pos) (take 79 rest) @ enumerate (pos + length (take 80 cs)) (drop 80 cs)"
      unfolding enumerate_append_eq by (simp add: Cons)
    finally have e: "enumerate pos cs = (pos, c) # enumerate (Suc pos) (take 79 rest) @
        enumerate (pos + length (take 80 cs)) (drop 80 cs)" .
    have "concat (map ?f (enumerate (pos + length (take 80 cs)) (drop 80 cs))) = screen_lines (drop 80 cs)"
    proof (cases "80 \<le> length cs")
      case True
      then show ?thesis using 1(1) [of "pos + 80"] 1(2) Cons by simp
    qed (simp add: screen_lines.simps [of "[]"])
    then show ?thesis unfolding e using row 1(2) by (simp add: screen_lines.simps [of "c # rest"] Cons)
  qed (simp add: screen_lines.simps [of "[]"])
qed

section \<open>The guest's memory\<close>

definition in_region :: "memory_region \<Rightarrow> nat \<Rightarrow> bool" where
  "in_region r a \<longleftrightarrow> mr_guest_phys_addr r \<le> a \<and> a < mr_guest_phys_addr r + mr_memory_size r"

definition is_ram :: "machine \<Rightarrow> nat \<Rightarrow> bool" where
  "is_ram m a = (\<exists>r \<in> set (m_regions m). in_region r a)"

text \<open>What the guest reads at a physical address of the first region.\<close>

definition guest_byte :: "machine \<Rightarrow> nat \<Rightarrow> u8 option" where
  "guest_byte m a = (if in_region (region1 Map_failed) a then Some (m_image m ! (a - 0x7000)) else None)"

text \<open>What a successful set-up went through.\<close>

lemma setup_vcpu_success:
  assumes "setup_vcpu sz e s img = Inr m"
  obtains cpuid irqfd ret where "be_alloc_cpus e" "be_create_vcpu e \<noteq> -1"
    "vm_init_cpuid (be_cpu e) (be_set_cpuid2 e) = Some (Inr cpuid)"
    "set_ioeventfd_mmio e (s\<lparr>ks_vcpufd := Some (be_create_vcpu e)\<rparr>) = Inr (irqfd, ret)" "\<not> ret < 0"
    "be_get_sregs e \<noteq> -1" "be_set_sregs e \<noteq> -1" "be_set_regs e \<noteq> -1"
    "m = \<lparr>m_state = s\<lparr>ks_vcpufd := Some (be_create_vcpu e)\<rparr>, m_image = img,
          m_regions = [region1 (be_mem1 e), region2 (be_mem2 e)], m_route = msi_route, m_irqfd = irqfd,
          m_cpuid = cpuid, m_run_size = word_of_int (be_mmap_size e), m_run = be_run e, m_regs = start_regs\<rparr>"
  using assms that
  by (auto simp: setup_vcpu_def Let_def split: if_split_asm option.split_asm sum.split_asm prod.split_asm)

lemma vm_setup_success:
  assumes "vm_setup sz e = Inr m"
  obtains s img where "be_alloc_ks e" "kvm_init e fresh_state = (s, 0)" "load_image e = Inr img"
    "setup_vcpu sz e (s\<lparr>ks_vmfd := Some (be_create_vm e)\<rparr>) img = Inr m"
  using assms that
  by (auto simp: vm_setup_def Let_def split: if_split_asm sum.split_asm prod.split_asm)

lemma vm_setup_machine:
  assumes "vm_setup sz e = Inr m"
  shows "m_regions m = [region1 (be_mem1 e), region2 (be_mem2 e)]" "load_image e = Inr (m_image m)"
    "m_regs m = start_regs" "vm_init_cpuid (be_cpu e) (be_set_cpuid2 e) = Some (Inr (m_cpuid m))"
    "m_route m = msi_route" "snd (m_irqfd m) = virq" "ks_irqefd (m_state m) = Some (fst (m_irqfd m))"
  using assms
  by (auto elim!: vm_setup_success setup_vcpu_success simp: set_ioeventfd_mmio_def split: option.split_asm)

lemma load_image_bytes:
  assumes "load_image e = Inr img"
  shows "length img = mem1_size"
    "i < length (take (be_st_size e + 1) (be_file e)) \<Longrightarrow> img ! (load_offset + i) = be_file e ! i"
proof -
  let ?bs = "take (be_st_size e + 1) (be_file e)"
  have img: "img = replicate load_offset 0 @ ?bs @ replicate (mem1_size - load_offset - length ?bs) 0"
    and room: "load_offset + length ?bs \<le> mem1_size"
    using assms by (auto simp: load_image_def Let_def split: if_splits)
  show "length img = mem1_size" using room by (simp add: img)
  show "i < length ?bs \<Longrightarrow> img ! (load_offset + i) = be_file e ! i"
    by (simp add: img nth_append)
qed

lemma image_in_memory:
  assumes "vm_setup sz e = Inr m" and "i < length (take (be_st_size e + 1) (be_file e))"
  shows "guest_byte m (0x7c00 + i) = Some (be_file e ! i)"
proof -
  note m = vm_setup_machine [OF assms(1)]
  note b = load_image_bytes [OF m(2)]
  have "load_offset + i < mem1_size"
    using m(2) assms(2) by (auto simp: load_image_def Let_def split: if_splits)
  then show ?thesis using b(2) [OF assms(2)]
    by (simp add: guest_byte_def in_region_def region1_def load_offset_def mem1_size_def)
qed

text \<open>The set-up does not depend on the size and the mapping of the shared area.\<close>

lemma setup_vcpu_bad_run:
  assumes "setup_vcpu sz e s img = Inr m"
  shows "setup_vcpu sz (e\<lparr>be_mmap_size := -1, be_run := Map_failed\<rparr>) s img =
    Inr (m\<lparr>m_run_size := - 1, m_run := Map_failed\<rparr>)"
proof -
  have "sz \<le> (- 1 :: u64)" by (rule word_n1_ge)
  then have big: "\<not> (- 1 :: u64) < sz" by simp
  from assms show ?thesis
  proof (rule setup_vcpu_success)
    fix cpuid irqfd ret
    assume ok: "be_alloc_cpus e" "be_create_vcpu e \<noteq> -1"
      "vm_init_cpuid (be_cpu e) (be_set_cpuid2 e) = Some (Inr cpuid)" "\<not> ret < 0"
      "be_get_sregs e \<noteq> -1" "be_set_sregs e \<noteq> -1" "be_set_regs e \<noteq> -1"
      and io: "set_ioeventfd_mmio e (s\<lparr>ks_vcpufd := Some (be_create_vcpu e)\<rparr>) = Inr (irqfd, ret)"
      and m: "m = \<lparr>m_state = s\<lparr>ks_vcpufd := Some (be_create_vcpu e)\<rparr>, m_image = img,
          m_regions = [region1 (be_mem1 e), region2 (be_mem2 e)], m_route = msi_route, m_irqfd = irqfd,
          m_cpuid = cpuid, m_run_size = word_of_int (be_mmap_size e), m_run = be_run e, m_regs = start_regs\<rparr>"
    have "set_ioeventfd_mmio (e\<lparr>be_mmap_size := -1, be_run := Map_failed\<rparr>)
        (s\<lparr>ks_vcpufd := Some (be_create_vcpu e)\<rparr>) = Inr (irqfd, ret)"
      using io by (auto simp: set_ioeventfd_mmio_def split: option.splits)
    then show ?thesis using ok m big by (simp add: setup_vcpu_def)
  qed
qed

lemma vm_setup_bad_run:
  assumes "vm_setup sz e = Inr m"
  shows "vm_setup sz (e\<lparr>be_mmap_size := -1, be_run := Map_failed\<rparr>) =
    Inr (m\<lparr>m_run_size := - 1, m_run := Map_failed\<rparr>)"
proof -
  let ?e = "e\<lparr>be_mmap_size := -1, be_run := Map_failed\<rparr>"
  obtain s img where s: "kvm_init e fresh_state = (s, 0)" "load_image e = Inr img"
    "setup_vcpu sz e (s\<lparr>ks_vmfd := Some (be_create_vm e)\<rparr>) img = Inr m"
    using assms by (rule vm_setup_success)
  have "kvm_init ?e fresh_state = kvm_init e fresh_state" "load_image ?e = load_image e"
    by (simp_all add: kvm_init_def load_image_def Let_def)
  with setup_vcpu_bad_run [OF s(3)] show ?thesis
    using assms s by (simp add: vm_setup_def Let_def split: if_split_asm)
qed

definition example_boot :: boot_env where
  "example_boot = \<lparr>be_errno = 5, be_alloc_ks = True, be_alloc_cpus = True, be_open_kvm = 3, be_api_version = 12,
     be_eventfd1 = 4, be_eventfd2 = 5, be_open_file = 6, be_fstat = 0, be_file = [0xfa, 0xf4], be_st_size = 2,
     be_create_vm = 7, be_mem1 = Mapped 0x10000, be_read_error = False, be_set_region1 = 0,
     be_mem2 = Mapped 0x200000, be_set_region2 = 0, be_create_vcpu = 8, be_cpu = example_cpu, be_set_cpuid2 = (\<lambda>es. 0), be_mmap_size = 0x3000, be_irqfd = 0,
     be_run = Mapped 0x9000000, be_get_sregs = 0, be_set_sregs = 0, be_set_regs = 0\<rparr>"

lemma example_boot_cpuid:
  "vm_init_cpuid example_cpu (\<lambda>es. 0) = Some (Inr (0, cpuid_table example_cpu 4))"
  using vm_init_cpuid_result [OF example_cpu_limits(1) _ _ example_cpu_limits(3), of "\<lambda>es. 0"]
  by (simp add: example_cpu_limits(2) example_cpu_table)

lemma example_boot_loads:
  assumes "length f < 0x7f000"
  shows "\<exists>m. vm_setup 0x930 (example_boot\<lparr>be_file := f, be_st_size := n\<rparr>) = Inr m"
  using example_boot_cpuid assms
  by (simp add: vm_setup_def setup_vcpu_def set_ioeventfd_mmio_def kvm_init_def load_image_def example_boot_def
      fresh_state_def KVM_API_VERSION_def mem1_size_def load_offset_def Let_def)

lemma example_boot_runs: "\<exists>m. vm_setup 0x930 example_boot = Inr m"
  using example_boot_loads [of "be_file example_boot" "be_st_size example_boot"] by (simp add: example_boot_def)

section \<open>Properties\<close>



text \<open>
  The machine that the set-up delivers has the CPUID table of the host's processor: the one table
  handed to KVM is the reference table, or none when that does not fit; the monitor goes on
  in both cases.
\<close>

theorem machine_has_cpuid_table:
  assumes "vm_setup sz e = Inr m" and "get_cpuid (be_cpu e) 0 = Some (limit, rest)" "limit \<noteq> 0xffffffff"
    and "ext_limit (be_cpu e) limit \<noteq> 0xffffffff" and "\<And>j. get_cpuid_count (be_cpu e) 0xd j \<noteq> None"
  shows "snd (m_cpuid m) = cpuid_table (be_cpu e) limit"
  using vm_setup_machine(4) [OF assms(1)] vm_init_cpuid_result [OF assms(2-5), of "be_set_cpuid2 e"]
  by (cases "m_cpuid m") (auto split: option.splits)

theorem machine_has_cpuid_table_witness:
  "\<exists>m. vm_setup 0x930 example_boot = Inr m \<and> snd (m_cpuid m) = cpuid_table example_cpu 4"
proof -
  obtain m where m: "vm_setup 0x930 example_boot = Inr m" using example_boot_runs by blast
  have e: "be_cpu example_boot = example_cpu" by (simp add: example_boot_def)
  show ?thesis using machine_has_cpuid_table [OF m, unfolded e, OF example_cpu_limits(1)] example_cpu_limits m
    by (simp add: e)
qed

text \<open>
  The memory map of the machine: the two regions never overlap, and no cell of the text screen
  nor the doorbell address is memory, so that every access to them leaves the guest.
\<close>

theorem memory_map:
  assumes "vm_setup sz e = Inr m"
  shows "(\<forall>a. \<not> (in_region (m_regions m ! 0) a \<and> in_region (m_regions m ! 1) a)) \<and>
     (\<forall>a \<in> {0xb8000..0xba000} \<union> {0x8000000}. \<not> is_ram m a)"
  using vm_setup_machine(1) [OF assms]
  by (auto simp: is_ram_def in_region_def region1_def region2_def mem1_size_def mem2_size_def)

theorem memory_map_witness:
  "\<exists>m. vm_setup 0x930 example_boot = Inr m \<and> \<not> is_ram m 0xb8000"
  using example_boot_runs memory_map [of "0x930" example_boot] by auto

text \<open>
  Writing text to the screen row by row prints it row by row: a newline before every 80
  characters, for any text that starts at the beginning of a row and stays on the screen.
\<close>

theorem console_prints_rows:
  assumes "pos mod 80 = 0" and "pos + length cs \<le> 0x1000"
  shows "run_loop q (screen_writes attr pos cs) = (screen_lines cs, Running)"
proof -
  have cell: "exit_step q (Exit_mmio (cell_addr i) 2 True (c # attr) 0) =
      ((if i mod 80 = 0 then [Newline] else []) @ [Console c], Running)" if "(i, c) \<in> set (enumerate pos cs)" for i c
    using that assms(2) by (intro cell_output) (auto simp: in_set_enumerate_eq)
  then have run: "\<forall>x \<in> set (screen_writes attr pos cs). snd (exit_step q x) = Running"
    by (auto simp: screen_writes_def)
  have "map (fst \<circ> exit_step q) (screen_writes attr pos cs) =
      map (\<lambda>(i, c). (if i mod 80 = 0 then [Newline] else []) @ [Console c]) (enumerate pos cs)"
    unfolding screen_writes_def map_map
  proof (rule map_cong [OF refl])
    fix x assume x: "x \<in> set (enumerate pos cs)"
    obtain i c where "x = (i, c)" by force
    with x show "((fst \<circ> exit_step q) \<circ> (\<lambda>(i, c). Exit_mmio (cell_addr i) 2 True (c # attr) 0)) x =
        (case x of (i, c) \<Rightarrow> (if i mod 80 = 0 then [Newline] else []) @ [Console c])"
      by (simp only: comp_apply prod.case cell fst_conv)
  qed
  then show ?thesis using run_loop_append [OF run, of "[]"] screen_rows [OF assms(1), of cs] by simp
qed

theorem console_prints_rows_witness:
  "run_loop 5 (screen_writes [7] 160 [0x48, 0x69]) = ([Newline, Console 0x48, Console 0x69], Running)"
  using console_prints_rows [of 160 "[0x48, 0x69]" 5 "[7]"] by (simp add: screen_lines.simps)



text \<open>
  C39: a failed query of the shared area's size is not noticed: the size is unsigned, so the error value
  -1 passes both tests as the largest size; and a failed mapping of that area is not noticed
  either, so the first exit is read through an invalid pointer.
\<close>

theorem failed_run_area_unnoticed:
  assumes "vm_setup sz e = Inr m"
  shows "vm_setup sz (e\<lparr>be_mmap_size := -1, be_run := Map_failed\<rparr>) =
      Inr (m\<lparr>m_run_size := - 1, m_run := Map_failed\<rparr>) \<and>
    run_machine (m\<lparr>m_run_size := - 1, m_run := Map_failed\<rparr>) (Exit_hlt # xs) =
      ([], Invalid_run_pointer)"
  using vm_setup_bad_run [OF assms] by (simp add: run_machine_def)

theorem failed_run_area_unnoticed_witness:
  "\<exists>m. vm_setup 0x930 (example_boot\<lparr>be_mmap_size := -1, be_run := Map_failed\<rparr>) = Inr m"
  using example_boot_runs failed_run_area_unnoticed by blast

text \<open>
  \<^verbatim>\<open>kvm_init\<close> reports success exactly when the device opens, the version is 12 and the second event
  descriptor is not an error; a failure of the first one is ignored and leaves its field unset.
\<close>

theorem kvm_init_success:
  assumes "be_errno e > 0"
  shows "(snd (kvm_init e s) = 0 \<longleftrightarrow>
      be_open_kvm e \<noteq> -1 \<and> be_api_version e = KVM_API_VERSION \<and> 0 \<le> be_eventfd2 e) \<and>
    (be_eventfd1 e < 0 \<longrightarrow> ks_ioefd (fst (kvm_init e s)) = ks_ioefd s)"
  using assms by (auto simp: kvm_init_def Let_def EINVAL_def)

theorem kvm_init_success_witness:
  "snd (kvm_init (example_boot\<lparr>be_eventfd1 := -1\<rparr>) fresh_state) = 0 \<and>
   ks_ioefd (fst (kvm_init (example_boot\<lparr>be_eventfd1 := -1\<rparr>) fresh_state)) = None"
  using kvm_init_success [of "example_boot\<lparr>be_eventfd1 := -1\<rparr>" fresh_state]
  by (simp add: example_boot_def KVM_API_VERSION_def fresh_state_def)

end
