(* ===== verification/Vm_Getopt.thy ===== *)
theory Vm_Getopt
  imports Vm_Args "HOL-Library.Sublist" "HOL-Library.Multiset"
begin

text \<open>
  From the command line of the monitor to its options: \<^verbatim>\<open>getopt_long\<close> of the C library as \<^verbatim>\<open>parse_argv\<close> of
  \<^verbatim>\<open>src/vm.c\<close> calls it, with the short options and the table of long options of the source. As in the
  library, the letters of an argument that are still to be read are its state, operands are passed
  over, two dashes end the options, a long option may be shortened to a unique prefix, and what is not an option
  or lacks its argument is a question mark.
\<close>

section \<open>The options of the source\<close>

text \<open>A long option's name, whether it needs an argument, and the character it stands for.\<close>

definition long_options :: "(string \<times> bool \<times> char) list" where
  "long_options =
     [(''smp'', True, CHR ''n''), (''mem'', True, CHR ''m''), (''file'', True, CHR ''f''), (''help'', False, CHR ''H'')]"

definition short_options :: string where
  "short_options = ''f:m:hH''"

section \<open>getopt\<close>

text \<open>Whether a letter is an option, and whether a colon says that it needs an argument.\<close>

fun short_option :: "string \<Rightarrow> char \<Rightarrow> bool option" where
  "short_option [] c = None"
| "short_option (d # ds) c =
     (if d = c \<and> c \<noteq> CHR '':'' then Some (ds \<noteq> [] \<and> hd ds = CHR '':'') else short_option ds c)"

definition find_long :: "(string \<times> bool \<times> char) list \<Rightarrow> string \<Rightarrow> (bool \<times> char) option" where
  "find_long tab name =
     (case filter (\<lambda>t. fst t = name) tab of
        t # _ \<Rightarrow> Some (snd t)
      | [] \<Rightarrow> (case filter (\<lambda>t. prefix name (fst t)) tab of [t] \<Rightarrow> Some (snd t) | _ \<Rightarrow> None))"

definition unknown :: "char \<times> string" where
  "unknown = (CHR ''?'', [])"

text \<open>A long option without its dashes, and the arguments after it: the result, and what is left.\<close>

definition long_option :: "string \<Rightarrow> string list \<Rightarrow> (char \<times> string) \<times> string list" where
  "long_option s args =
     (let name = takeWhile (\<lambda>c. c \<noteq> CHR ''='') s;
          val = (if CHR ''='' \<in> set s then Some (tl (dropWhile (\<lambda>c. c \<noteq> CHR ''='') s)) else None)
      in case find_long long_options name of
           None \<Rightarrow> (unknown, args)
         | Some (False, c) \<Rightarrow> (if val = None then (c, []) else unknown, args)
         | Some (True, c) \<Rightarrow>
             (case val of
                Some v \<Rightarrow> ((c, v), args)
              | None \<Rightarrow> (case args of [] \<Rightarrow> (unknown, []) | a # rest \<Rightarrow> ((c, a), rest))))"

lemma long_option_rest: "length (snd (long_option s args)) \<le> length args"
  by (auto simp: long_option_def Let_def split: option.splits list.splits bool.splits)

text \<open>The options that the calls return, in order, without \<^verbatim>\<open>POSIXLY_CORRECT\<close> in the environment; the first argument is the unread part of a group of letters.\<close>

function getopts :: "string \<Rightarrow> string list \<Rightarrow> (char \<times> string) list" where
  "getopts [] [] = []"
| "getopts [] (a # args) =
     (if a = ''--'' then []
      else if prefix ''--'' a then
        (case long_option (drop 2 a) args of (r, args') \<Rightarrow> r # getopts [] args')
      else if a \<noteq> [] \<and> hd a = CHR ''-'' then getopts (tl a) args
      else getopts [] args)"
| "getopts (c # cs) args =
     (case short_option short_options c of
        None \<Rightarrow> (CHR ''?'', []) # getopts cs args
      | Some False \<Rightarrow> (c, []) # getopts cs args
      | Some True \<Rightarrow>
          if cs \<noteq> [] then (c, cs) # getopts [] args
          else (case args of [] \<Rightarrow> [unknown] | a # rest \<Rightarrow> (c, a) # getopts [] rest))"
  by pat_completeness auto
termination
proof (relation "measures [\<lambda>(cs, args). length args, \<lambda>(cs, args). length cs]", goal_cases)
  case (2 a args r args')
  then have "length args' \<le> length args"
    using long_option_rest [of "drop 2 a" args] by (metis snd_conv)
  then show ?case by simp
qed auto

definition parse_command_line :: "string list \<Rightarrow> arg_state \<Rightarrow> arg_fault + (arg_state \<times> int)" where
  "parse_command_line argv st = parse_argv (getopts [] (tl argv)) st"

section \<open>What the user writes and what the parser sees\<close>

text \<open>
  The ways to write an option: with its long name and the argument after it or behind an equals sign, or with
  its letter and the argument after it or joined to it.
\<close>

definition spellings :: "char \<times> string \<Rightarrow> string list list" where
  "spellings oa =
     (case oa of (c, a) \<Rightarrow>
        (case map_of (map (\<lambda>(name, needs, c). (c, (name, needs))) long_options) c of
           None \<Rightarrow> []
         | Some (name, needs) \<Rightarrow>
             if needs then [[''--'' @ name, a], [''--'' @ name @ ''='' @ a]]
             else if a = [] then [[''--'' @ name]] else [])
        @ (case short_option short_options c of
             None \<Rightarrow> []
           | Some needs \<Rightarrow>
               if needs then [[CHR ''-'', c], a] # (if a = [] then [] else [[CHR ''-'' # c # a]])
               else if a = [] then [[[CHR ''-'', c]]] else []))"

lemma short_option_letters:
  "short_option short_options c =
     (if c = CHR ''f'' \<or> c = CHR ''m'' then Some True
      else if c = CHR ''h'' \<or> c = CHR ''H'' then Some False else None)"
  by (auto simp: short_options_def)

lemma find_long_names:
  "find_long long_options ''smp'' = Some (True, CHR ''n'')"
  "find_long long_options ''mem'' = Some (True, CHR ''m'')"
  "find_long long_options ''file'' = Some (True, CHR ''f'')"
  "find_long long_options ''help'' = Some (False, CHR ''H'')"
  by (simp_all add: find_long_def long_options_def)

lemma long_option_letters:
  "map_of (map (\<lambda>(name, needs, c). (c, (name, needs))) long_options) c =
     (if c = CHR ''n'' then Some (''smp'', True) else if c = CHR ''m'' then Some (''mem'', True)
      else if c = CHR ''f'' then Some (''file'', True) else if c = CHR ''H'' then Some (''help'', False)
      else None)"
  by (auto simp: long_options_def)

lemma getopts_spelling:
  "ws \<in> set (spellings oa) \<Longrightarrow> getopts [] (ws @ args) = oa # getopts [] args"
  by (cases oa)
     (auto simp: spellings_def long_option_letters short_option_letters long_option_def find_long_names
           split: if_splits)

lemma getopts_spellings:
  "list_all2 (\<lambda>oa ws. ws \<in> set (spellings oa)) opts wss \<Longrightarrow> getopts [] (concat wss) = opts"
  by (induction rule: list_all2_induct) (simp_all add: getopts_spelling)

text \<open>An operand, which the library passes over.\<close>

definition operand :: "string \<Rightarrow> bool" where
  "operand a \<longleftrightarrow> (case a of [] \<Rightarrow> True | c # _ \<Rightarrow> c \<noteq> CHR ''-'')"

lemma getopts_operand: "operand a \<Longrightarrow> getopts [] (a # args) = getopts [] args"
  by (cases a) (auto simp: operand_def)

lemma getopts_mem: "getopts [] (''-mem'' # args) = (CHR ''m'', ''em'') # getopts [] args"
  by (simp add: short_options_def)

lemma getopts_smp: "getopts [] (''-smp'' # args) = (CHR ''?'', []) # (CHR ''m'', ''p'') # getopts [] args"
  by (simp add: short_options_def)

section \<open>Properties\<close>

lemmas opt_mem_eval =
  opt_mem_eq_ref opt_mem_ref_def mem_body_def mem_base_def hex_prefix_iff digit_step_def unit_of_def
  mem_unit_def nul_def ctype_simps Let_def

lemma dec_digits_isdigit: "list_all isdigit (dec_digits n)"
proof (induction n rule: dec_digits.induct)
  case (1 n)
  have "isdigit (char_of (48 + d))" if "d < 10" for d :: nat
    using that by (simp add: isdigit_def ascii_digit)
  with 1 show ?case by (subst dec_digits.simps) auto
qed

lemma dec_digits_nonempty: "dec_digits n \<noteq> []"
  by (subst dec_digits.simps) simp

lemma num_value_digits: "list_all isdigit ds \<Longrightarrow> num_value 10 ds = dec_value ds"
  unfolding num_value_def dec_value_def
  by (intro foldl_cong refl) (auto simp: hexval_def list_all_iff)

lemma opt_step_mem:
  assumes "mem_unit u = Some k"
  shows "\<exists>v. \<forall>st. opt_step (CHR ''m'') (dec_digits m @ [u]) st =
    Inr (st\<lparr>vm_memory_size := of_nat m * k, digit_val := v\<rparr>, None)"
proof -
  have "opt_step (CHR ''m'') (dec_digits m @ [u]) st =
      Inr (st\<lparr>vm_memory_size := of_nat m * k, digit_val := Some (hexval (last (dec_digits m)))\<rparr>, None)" for st
    using opt_mem_decimal [OF dec_digits_isdigit assms, of m st] num_value_digits [OF dec_digits_isdigit, of m]
      dec_digits_nonempty [of m]
    by (simp add: opt_step_def dec_value_digits)
  then show ?thesis by blast
qed

lemma atoi_digits:
  assumes "n < 2 ^ 31"
  shows "atoi (dec_digits n) = Some (int n)"
proof -
  have "\<not> isspace c \<and> c \<noteq> CHR ''-'' \<and> c \<noteq> CHR ''+''" if "isdigit c" for c
    using that by (auto simp: ctype_simps)
  then have "dropWhile isspace (dec_digits n) = dec_digits n"
    "hd (dec_digits n) \<noteq> CHR ''-''" "hd (dec_digits n) \<noteq> CHR ''+''"
    "takeWhile isdigit (dec_digits n) = dec_digits n"
    using dec_digits_isdigit [of n] dec_digits_nonempty [of n]
    by (auto simp: list_all_iff dropWhile_eq_self_iff takeWhile_eq_all_conv [THEN iffD2])
  then show ?thesis using assms by (simp add: atoi_def dec_value_digits Let_def takeWhile_eq_all_conv [THEN iffD2])
qed

lemma pair_mset: "{#x, y#} = {#a, b#} \<longleftrightarrow> x = a \<and> y = b \<or> x = b \<and> y = a"
  by (auto simp: add_eq_conv_ex)

lemma triple_mset:
  assumes "{#x, y, z#} = {#a, b, c#}"
  shows "x = a \<and> {#y, z#} = {#b, c#} \<or> x = b \<and> {#y, z#} = {#a, c#} \<or> x = c \<and> {#y, z#} = {#a, b#}"
proof -
  have "x \<in># {#a, b, c#}" unfolding assms [symmetric] by simp
  then consider "x = a" | "x = b" | "x = c" by auto
  then show ?thesis
    using assms by cases (simp_all add: add_mset_commute)
qed

lemma mset_three:
  assumes "mset xs = {#a, b, c#}"
  shows "xs \<in> {[a, b, c], [a, c, b], [b, a, c], [b, c, a], [c, a, b], [c, b, a]}"
proof -
  have "length xs = 3" using arg_cong [OF assms, of size] by simp
  then obtain x y z where xs: "xs = [x, y, z]" by (auto simp: numeral_3_eq_3 length_Suc_conv)
  with assms have "{#x, y, z#} = {#a, b, c#}" by simp
  from triple_mset [OF this] show ?thesis by (auto simp: xs pair_mset)
qed

text \<open>
  C28: a command line that gives the number of processors, the memory size and the image file, in
  any order and each in any of the spellings that the option tables allow, sets exactly these
  values, the size in its unit modulo the width of \<^verbatim>\<open>size_t\<close>, and the parser prints nothing but
  its summary.
\<close>

theorem command_line_configures:
  assumes "mset opts = {#(CHR ''n'', dec_digits n), (CHR ''m'', dec_digits m @ [u]), (CHR ''f'', path)#}"
    and "list_all2 (\<lambda>oa ws. ws \<in> set (spellings oa)) opts wss"
    and "n < 2 ^ 31" and "mem_unit u = Some k"
  shows "\<exists>v. parse_command_line (prog # concat wss) initial_args =
    Inr (\<lparr>cpu_nums = int n, vm_memory_size = of_nat m * k, filename = Some path, digit_val = v,
          printed = [Msg_summary (int n) (of_nat m * k) (Some path)]\<rparr>, 0)"
proof -
  obtain v where "opt_step (CHR ''m'') (dec_digits m @ [u]) st =
      Inr (st\<lparr>vm_memory_size := of_nat m * k, digit_val := v\<rparr>, None)" for st
    using opt_step_mem [OF assms(4)] by blast
  moreover have "opt_step (CHR ''n'') (dec_digits n) st = Inr (st\<lparr>cpu_nums := int n\<rparr>, None)"
    "opt_step (CHR ''f'') path st = Inr (st\<lparr>filename := Some path\<rparr>, None)" for st
    using atoi_digits [OF assms(3)] by (simp_all add: opt_step_def)
  ultimately have "parse_argv opts initial_args =
      Inr (\<lparr>cpu_nums = int n, vm_memory_size = of_nat m * k, filename = Some path, digit_val = v,
            printed = [Msg_summary (int n) (of_nat m * k) (Some path)]\<rparr>, 0)"
    using mset_three [OF assms(1)] by (auto simp: initial_args_def say_def)
  then show ?thesis using getopts_spellings [OF assms(2)] by (simp add: parse_command_line_def)
qed

theorem command_line_configures_witness:
  "\<exists>v. parse_command_line [''a.out'', ''-f'', ''asm/demo.img'', ''--mem=512M'', ''--smp'', ''2''] initial_args =
    Inr (\<lparr>cpu_nums = 2, vm_memory_size = 0x20000000, filename = Some ''asm/demo.img'', digit_val = v,
          printed = [Msg_summary 2 0x20000000 (Some ''asm/demo.img'')]\<rparr>, 0)"
proof -
  let ?opts = "[(CHR ''f'', ''asm/demo.img''), (CHR ''m'', dec_digits 512 @ ''M''), (CHR ''n'', dec_digits 2)]"
  let ?words = "[[''-f'', ''asm/demo.img''], [''--mem=512M''], [''--smp'', ''2'']]"
  have d: "dec_digits 512 = ''512''" "dec_digits 2 = ''2''"
    by (simp_all add: dec_digits.simps char_of_def bit_0)
  have 1: "mset ?opts = {#(CHR ''n'', dec_digits 2), (CHR ''m'', dec_digits 512 @ ''M''), (CHR ''f'', ''asm/demo.img'')#}"
    by (simp add: add_mset_commute)
  have 2: "list_all2 (\<lambda>oa ws. ws \<in> set (spellings oa)) ?opts ?words"
    by (simp add: d spellings_def long_option_letters short_option_letters, blast)
  have 3: "(2::nat) < 2 ^ 31" by simp
  have 4: "mem_unit (CHR ''M'') = Some 0x100000" by (simp add: mem_unit_def)
  show ?thesis using command_line_configures [OF 1 2 3 4, of "''a.out''"] by simp
qed

text \<open>
  The options that the program's own usage text names are read differently: -mem is the letter
  option m with the argument em, so that the size that follows is passed over and the memory is
  14 megabytes; -smp is an unknown letter and a size p without digits, and parsing fails.
\<close>

theorem usage_text_misread:
  assumes "operand sz"
  shows "\<exists>v. parse_command_line [prog, ''-mem'', sz] initial_args =
      Inr (initial_args\<lparr>vm_memory_size := 0xe00000, digit_val := v,
             printed := [Msg_summary 1 0xe00000 None]\<rparr>, 0)"
    and "\<exists>st'. parse_command_line (prog # ''-smp'' # args) st = Inr (st', -1) \<and> cpu_nums st' = cpu_nums st"
proof -
  have "opt_mem ''em'' initial_args = Inr (initial_args\<lparr>vm_memory_size := 0xe00000, digit_val := Some 14\<rparr>, None)"
    by (simp add: opt_mem_eval initial_args_def)
  moreover have "getopts [] [''-mem'', sz] = [(CHR ''m'', ''em'')]"
    using getopts_mem [of "[sz]"] getopts_operand [OF assms, of "[]"]
    by (simp only: getopts.simps(1))
  ultimately show "\<exists>v. parse_command_line [prog, ''-mem'', sz] initial_args =
      Inr (initial_args\<lparr>vm_memory_size := 0xe00000, digit_val := v,
             printed := [Msg_summary 1 0xe00000 None]\<rparr>, 0)"
    by (simp add: parse_command_line_def opt_step_def say_def initial_args_def del: getopts.simps)
  have "\<exists>st'. opt_mem ''p'' st = Inr (st', Some (-1)) \<and> cpu_nums st' = cpu_nums st" for st
    by (simp add: opt_mem_eval say_def)
  then obtain st' where "opt_mem ''p'' (say Msg_invalid_option st) = Inr (st', Some (-1))"
    "cpu_nums st' = cpu_nums (say Msg_invalid_option st)"
    by blast
  moreover have "cpu_nums (say Msg_invalid_option st) = cpu_nums st" by (simp add: say_def)
  ultimately show "\<exists>st'. parse_command_line (prog # ''-smp'' # args) st = Inr (st', -1) \<and> cpu_nums st' = cpu_nums st"
    using getopts_smp [of args] by (simp add: parse_command_line_def opt_step_def del: getopts.simps)
qed

end
