(* ===== verification/Cell_Store.thy ===== *)
theory Cell_Store
  imports VL_Prelude
begin

text \<open>
  The contract of a store of independent cells: reading a cell gives what was last written to it
  and writing one cell leaves the others alone. The intercept vector and the MSR permission map of
  the VMCB, the register file of a virtual CPU and the fields of a VMCS are such stores; each
  interprets the locale and takes its facts about sequences of writes from it.
\<close>

text \<open>The writes of a list, first to last, and the value that the last write of a key leaves.\<close>

definition write_all :: "('k \<Rightarrow> 'v \<Rightarrow> 's \<Rightarrow> 's) \<Rightarrow> ('k \<times> 'v) list \<Rightarrow> 's \<Rightarrow> 's" where
  "write_all put kvs s = fold (\<lambda>(k, v). put k v) kvs s"

definition last_write :: "('k \<times> 'v) list \<Rightarrow> 'k \<Rightarrow> 'v option" where
  "last_write kvs k = map_of (rev kvs) k"

lemma write_all_simps [simp]:
  "write_all put [] s = s"
  "write_all put ((k, v) # kvs) s = write_all put kvs (put k v s)"
  by (simp_all add: write_all_def)

lemma last_write_Nil [simp]: "last_write [] k = None"
  by (simp add: last_write_def)

lemma last_write_Cons:
  "last_write ((k, v) # kvs) j =
     (case last_write kvs j of None \<Rightarrow> (if j = k then Some v else None) | Some x \<Rightarrow> Some x)"
  by (auto simp: last_write_def map_add_def split: option.splits)

lemma last_write_const: "last_write (map (\<lambda>k. (k, v)) ks) j = (if j \<in> set ks then Some v else None)"
  by (induction ks) (auto simp: last_write_Cons)

lemma last_write_None_iff: "last_write kvs k = None \<longleftrightarrow> k \<notin> fst ` set kvs"
  by (simp add: last_write_def map_of_eq_None_iff)

text \<open>
  A store may keep a value in another form than it was given: reading gives the \<open>view\<close> of what was
  written, as a decoded interrupt gate is the view of the address of its handler.
\<close>

locale cell_view =
  fixes ok :: "'s \<Rightarrow> bool"
    and key :: "'k \<Rightarrow> bool"
    and get :: "'s \<Rightarrow> 'k \<Rightarrow> 'w"
    and view :: "'v \<Rightarrow> 'w"
    and put :: "'k \<Rightarrow> 'v \<Rightarrow> 's \<Rightarrow> 's"
  assumes ok_kept: "ok s \<Longrightarrow> key k \<Longrightarrow> ok (put k v s)"
    and get_view: "ok s \<Longrightarrow> key k \<Longrightarrow> key j \<Longrightarrow> get (put k v s) j = (if j = k then view v else get s j)"
begin

lemma writes:
  "ok s \<Longrightarrow> \<forall>k \<in> fst ` set kvs. key k \<Longrightarrow>
   ok (write_all put kvs s) \<and>
   (\<forall>j. key j \<longrightarrow> get (write_all put kvs s) j =
      (case last_write kvs j of None \<Rightarrow> get s j | Some v \<Rightarrow> view v))"
proof (induction kvs arbitrary: s)
  case (Cons kv kvs)
  obtain k v where kv: "kv = (k, v)" by force
  have "ok (put k v s)" using Cons.prems kv by (intro ok_kept) auto
  from Cons.IH [OF this] Cons.prems show ?case
    by (auto simp: kv last_write_Cons get_view split: option.splits)
qed simp

lemma ok_writes: "ok s \<Longrightarrow> \<forall>k \<in> fst ` set kvs. key k \<Longrightarrow> ok (write_all put kvs s)"
  using writes by blast

lemma get_writes:
  "ok s \<Longrightarrow> \<forall>k \<in> fst ` set kvs. key k \<Longrightarrow> key j \<Longrightarrow>
   get (write_all put kvs s) j = (case last_write kvs j of None \<Rightarrow> get s j | Some v \<Rightarrow> view v)"
  using writes by blast

text \<open>Writing one value to many cells, and the frame of a sequence of writes.\<close>

lemma get_fill:
  "ok s \<Longrightarrow> \<forall>k \<in> set ks. key k \<Longrightarrow> key j \<Longrightarrow>
   get (write_all put (map (\<lambda>k. (k, v)) ks) s) j = (if j \<in> set ks then view v else get s j)"
  by (simp add: get_writes image_image last_write_const)

lemma get_writes_other:
  "ok s \<Longrightarrow> \<forall>k \<in> fst ` set kvs. key k \<Longrightarrow> key j \<Longrightarrow> j \<notin> fst ` set kvs \<Longrightarrow>
   get (write_all put kvs s) j = get s j"
  using last_write_None_iff [of kvs j] by (simp add: get_writes)

end

text \<open>The usual case: what is read is what was written.\<close>

locale cell_store =
  fixes ok :: "'s \<Rightarrow> bool"
    and key :: "'k \<Rightarrow> bool"
    and get :: "'s \<Rightarrow> 'k \<Rightarrow> 'v"
    and put :: "'k \<Rightarrow> 'v \<Rightarrow> 's \<Rightarrow> 's"
  assumes ok_put: "ok s \<Longrightarrow> key k \<Longrightarrow> ok (put k v s)"
    and get_put: "ok s \<Longrightarrow> key k \<Longrightarrow> key j \<Longrightarrow> get (put k v s) j = (if j = k then v else get s j)"

sublocale cell_store \<subseteq> cell_view ok key get "\<lambda>v. v" put
  by unfold_locales (simp_all add: ok_put get_put)

end
