(* ===== verification/Guest_Paging.thy ===== *)
theory Guest_Paging
  imports Cell_Store
begin

unbundle bit_operations_syntax

text \<open>
  The guest's page tables: \<^verbatim>\<open>pae_enable\<close>, \<^verbatim>\<open>clear_4k_pages\<close> and \<^verbatim>\<open>init_paging\<close> of \<^verbatim>\<open>src/asm/page64.S\<close> with the constants of
  \<^verbatim>\<open>src/asm/page.h\<close>. Guest-physical memory is a function from the addresses of four-byte cells to
  their contents: the code stores aligned double words, and 16 zero bytes at a time. The processor's
  four-level page walk is defined here after the architecture manual, as the reference that gives the
  tables their meaning.
\<close>

section \<open>Constants\<close>

definition PML4T_BASE :: nat where "PML4T_BASE = 0x200000"

definition P_flag :: u32 where "P_flag = 0x1"
definition RW_flag :: u32 where "RW_flag = 0x2"
definition US_flag :: u32 where "US_flag = 0x4"
definition PWT_flag :: u32 where "PWT_flag = 0x8"
definition PCD_flag :: u32 where "PCD_flag = 0x10"
definition PS_flag :: u32 where "PS_flag = 0x80"

lemmas page_flags = P_flag_def RW_flag_def US_flag_def PWT_flag_def PCD_flag_def PS_flag_def

text \<open>The 64-bit stack pointers: kernel, interrupt, sysenter, syscall, IST1 and user.\<close>

definition PROCESSOR_KERNEL_RSP :: u64 where "PROCESSOR_KERNEL_RSP = 0xFFFFFFFFFFE00800"
definition PROCESSOR_IDT_RSP :: u64 where "PROCESSOR_IDT_RSP = 0xFFFFFFFFFFE04800"
definition PROCESSOR_SYSENTER_RSP :: u64 where "PROCESSOR_SYSENTER_RSP = 0xFFFFFFFFFFE08800"
definition PROCESSOR_SYSCALL_RSP :: u64 where "PROCESSOR_SYSCALL_RSP = 0xFFFFFFFFFFE0C800"
definition PROCESSOR_IST1_RSP :: u64 where "PROCESSOR_IST1_RSP = 0xFFFFFFFFFFE10800"
definition PROCESSOR_USER_RSP :: u64 where "PROCESSOR_USER_RSP = 0x00007FFFFFE00800"
definition PROCESSOR_STACK_SIZE :: nat where "PROCESSOR_STACK_SIZE = 0x800"

lemmas stack_pointer_defs = PROCESSOR_KERNEL_RSP_def PROCESSOR_IDT_RSP_def PROCESSOR_SYSENTER_RSP_def
  PROCESSOR_SYSCALL_RSP_def PROCESSOR_IST1_RSP_def PROCESSOR_USER_RSP_def

text \<open>The bit that \<^verbatim>\<open>pae_enable\<close> sets in CR4, when CPUID leaf 1 reports the feature in bit 6 of EDX.\<close>

definition PAE_BIT :: nat where "PAE_BIT = 5"

definition pae_enable :: "u32 \<Rightarrow> u32 \<Rightarrow> u32" where
  "pae_enable cpuid_edx cr4 = (if bit cpuid_edx 6 then set_bit PAE_BIT cr4 else cr4)"

section \<open>Clearing pages\<close>

type_synonym phys_mem = "nat \<Rightarrow> u32"

definition movl :: "nat \<Rightarrow> u32 \<Rightarrow> phys_mem \<Rightarrow> phys_mem" where
  "movl a v m = m(a := v)"

text \<open>\<^verbatim>\<open>movdqu\<close> of a zero register: four cells.\<close>

definition movdqu_zero :: "u32 \<Rightarrow> phys_mem \<Rightarrow> phys_mem" where
  "movdqu_zero a m = write_all movl (map (\<lambda>k. (unat a + k, 0)) [0, 4, 8, 12]) m"

text \<open>
  Eight stores from the end of the page downwards, and again until EAX, a 32-bit register, is zero.
  For an EAX that is no multiple of 128 the loop would never end.
\<close>

partial_function (option) clear_4K_page_loop :: "u32 \<Rightarrow> u32 \<Rightarrow> phys_mem \<Rightarrow> phys_mem option" where
  "clear_4K_page_loop esi eax m =
     (let m1 = fold (\<lambda>k. movdqu_zero (esi + eax - k)) [16, 32, 48, 64, 80, 96, 112, 128] m;
          eax1 = eax - 128
      in if eax1 = 0 then Some m1 else clear_4K_page_loop esi eax1 m1)"

definition clear_4K_page :: "u32 \<Rightarrow> phys_mem \<Rightarrow> phys_mem option" where
  "clear_4K_page esi m = clear_4K_page_loop esi 4096 m"

partial_function (option) clear_4k_pages_loop :: "u32 \<Rightarrow> u32 \<Rightarrow> phys_mem \<Rightarrow> phys_mem option" where
  "clear_4k_pages_loop esi edi m =
     (case clear_4K_page esi m of
        None \<Rightarrow> None
      | Some m1 \<Rightarrow>
          let esi1 = esi + 0x1000; edi1 = edi - 1 in
          if edi1 = 0 then Some m1 else clear_4k_pages_loop esi1 edi1 m1)"

definition clear_4k_pages :: "u32 \<Rightarrow> u32 \<Rightarrow> phys_mem \<Rightarrow> phys_mem option" where
  "clear_4k_pages esi edi m = (if edi = 0 then Some m else clear_4k_pages_loop esi edi m)"

section \<open>The tables\<close>

text \<open>An entry is stored as two double words, the upper one zero.\<close>

definition table_writes :: "(nat \<times> u32) list" where
  "table_writes =
    [(0x200000, 0x201000 OR RW_flag OR US_flag OR P_flag), (0x200004, 0),
     (0x200000 + 0x1FF * 8, 0x202000 OR RW_flag OR P_flag), (0x200000 + 0x1FF * 8 + 4, 0),
     (0x200000 + 0xff * 8, 0x300000 OR RW_flag OR US_flag OR P_flag), (0x200000 + 0xff * 8 + 4, 0),
     (0x201000, 0x203000 OR RW_flag OR US_flag OR P_flag), (0x201004, 0),
     (0x203000, 0x205000 OR RW_flag OR US_flag OR P_flag), (0x203004, 0),
     (0x203000 + 1 * 8, 0x200000 OR PS_flag OR RW_flag OR P_flag), (0x203000 + 1 * 8 + 4, 0),
     (0x203000 + 2 * 8, 0x207000 OR RW_flag OR P_flag), (0x203000 + 2 * 8 + 4, 0),
     (0x203000 + 0x40 * 8, 0x8000000 OR PS_flag OR US_flag OR RW_flag OR P_flag), (0x203000 + 0x40 * 8 + 4, 0),
     (0x203000 + 4 * 8, 0xfee00000 OR PCD_flag OR PWT_flag OR PS_flag OR RW_flag OR P_flag),
     (0x203000 + 4 * 8 + 4, 0),
     (0x202000 + 0x1e0 * 8, 0x204000 OR RW_flag OR US_flag OR P_flag), (0x202000 + 0x1e0 * 8 + 4, 0),
     (0x204000, 0x206000 OR RW_flag OR P_flag), (0x204004, 0),
     (0x204000 + 0x80 * 8, 0x208000 OR RW_flag OR P_flag), (0x204000 + 0x80 * 8 + 4, 0),
     (0x202000 + 0x1ff * 8, 0x209000 OR RW_flag OR P_flag), (0x202000 + 0x1ff * 8 + 4, 0),
     (0x300000 + 0x1fc * 8, 0x301000 OR RW_flag OR US_flag OR P_flag), (0x300000 + 0x1fc * 8 + 4, 0),
     (0x300000 + 0x1ff * 8, 0x302000 OR RW_flag OR US_flag OR P_flag), (0x300000 + 0x1ff * 8 + 4, 0),
     (0x301000, 0x800000 OR PS_flag OR RW_flag OR US_flag OR PS_flag), (0x301004, 0),
     (0x302000 + 0x1ff * 8, 0x303000 OR RW_flag OR US_flag OR P_flag), (0x302000 + 0x1ff * 8 + 4, 0),
     (0x209000 + 0x1ff * 8, 0xa00000 OR PS_flag OR RW_flag OR P_flag), (0x209000 + 0x1ff * 8 + 4, 0),
     (0x205000 + 8, 0 OR RW_flag OR US_flag), (0x205000 + 4, 0),
     (0x205000 + 8 * 0x9, 0x09000 OR RW_flag OR US_flag OR P_flag), (0x205000 + 8 * 0x9 + 4, 0),
     (0x205000 + 8 * 0xa, 0x0a000 OR RW_flag OR US_flag OR P_flag), (0x205000 + 8 * 0xa + 4, 0),
     (0x205000 + 8 * 0xb, 0x0b000 OR RW_flag OR US_flag OR P_flag), (0x205000 + 8 * 0xb + 4, 0),
     (0x205000 + 8 * 0xc, 0x0c000 OR RW_flag OR US_flag OR P_flag), (0x205000 + 8 * 0xc + 4, 0),
     (0x205000 + 8 * 0xd, 0x0d000 OR RW_flag OR US_flag OR P_flag), (0x205000 + 8 * 0xd + 4, 0),
     (0x205000 + 8 * 0xe, 0x0e000 OR RW_flag OR US_flag OR P_flag), (0x205000 + 8 * 0xe + 4, 0),
     (0x205000 + 8 * 0xf, 0x0f000 OR RW_flag OR US_flag OR P_flag), (0x205000 + 8 * 0xf + 4, 0),
     (0x205000 + 8 * 0x10, 0x10000 OR RW_flag OR US_flag OR P_flag), (0x205000 + 8 * 0x10 + 4, 0),
     (0x205000 + 8 * 0x11, 0x11000 OR RW_flag OR US_flag OR P_flag), (0x205000 + 8 * 0x11 + 4, 0),
     (0x205000 + 8 * 0x12, 0x12000 OR RW_flag OR US_flag OR P_flag), (0x205000 + 8 * 0x12 + 4, 0),
     (0x205000 + 8 * 0x13, 0x13000 OR RW_flag OR US_flag OR P_flag), (0x205000 + 8 * 0x13 + 4, 0),
     (0x205000 + 8 * 0x14, 0x14000 OR RW_flag OR US_flag OR P_flag), (0x205000 + 8 * 0x14 + 4, 0),
     (0x205000 + 8 * 0x15, 0x15000 OR RW_flag OR US_flag OR P_flag), (0x205000 + 8 * 0x15 + 4, 0),
     (0x205000 + 8 * 0x16, 0x16000 OR RW_flag OR US_flag OR P_flag), (0x205000 + 8 * 0x16 + 4, 0),
     (0x205000 + 8 * 0x17, 0x17000 OR RW_flag OR US_flag OR P_flag), (0x205000 + 8 * 0x17 + 4, 0),
     (0x205000 + 8 * 0x18, 0x18000 OR RW_flag OR US_flag OR P_flag), (0x205000 + 8 * 0x18 + 4, 0),
     (0x205000 + 8 * 0x19, 0x19000 OR RW_flag OR US_flag OR P_flag), (0x205000 + 8 * 0x19 + 4, 0),
     (0x205000 + 8 * 0x20, 0x20000 OR RW_flag OR US_flag OR P_flag), (0x205000 + 8 * 0x20 + 4, 0),
     (0x205000 + 0xb8 * 8, 0xb8000 OR RW_flag OR US_flag OR P_flag), (0x205000 + 0xb8 * 8 + 4, 0),
     (0x205000 + 0xb9 * 8, 0xb9000 OR RW_flag OR US_flag OR P_flag), (0x205000 + 0xb9 * 8 + 4, 0),
     (0x206000, 0x410000 OR RW_flag OR P_flag), (0x206004, 0),
     (0x206000 + 8, 0x411000 OR RW_flag OR P_flag), (0x206000 + 1 * 8 + 4, 0),
     (0x208000, 0x412000 OR RW_flag OR P_flag), (0x208004, 0),
     (0x208000 + 8 * 1, 0x413000 OR RW_flag OR P_flag), (0x208000 + 1 * 8 + 4, 0),
     (0x303000, 0x414000 OR RW_flag OR US_flag OR P_flag), (0x303000 + 4, 0),
     (0x303000 + 1 * 8, 0x415000 OR RW_flag OR US_flag OR P_flag), (0x303000 + 1 * 8 + 4, 0),
     (0x303000 + 2 * 8, 0x416000 OR RW_flag OR US_flag OR P_flag), (0x303000 + 2 * 8 + 4, 0),
     (0x303000 + 3 * 8, 0x417000 OR RW_flag OR US_flag OR P_flag), (0x303000 + 3 * 8 + 4, 0)]"

text \<open>
  The whole routine: \<open>apic_base\<close> is the low half of the MSR \<^verbatim>\<open>IA32_APIC_BASE\<close>, whose bit 8 marks the bootstrap
  processor; on the others the routine does nothing.
\<close>

definition init_paging :: "u32 \<Rightarrow> phys_mem \<Rightarrow> phys_mem option" where
  "init_paging apic_base m =
     (if \<not> bit apic_base 8 then Some m
      else case clear_4k_pages 0x200000 15 m of
             None \<Rightarrow> None
           | Some m1 \<Rightarrow>
               (case clear_4k_pages 0x201000 3 m1 of
                  None \<Rightarrow> None
                | Some m2 \<Rightarrow>
                    (case clear_4k_pages 0x300000 5 m2 of
                       None \<Rightarrow> None
                     | Some m3 \<Rightarrow> Some (write_all movl table_writes m3))))"

section \<open>The page walk\<close>

definition entry :: "phys_mem \<Rightarrow> nat \<Rightarrow> u64" where
  "entry m a = ucast (m a) OR push_bit 32 (ucast (m (a + 4)))"

definition present :: "u64 \<Rightarrow> bool" where "present e = bit e 0"
definition large :: "u64 \<Rightarrow> bool" where "large e = bit e 7"

text \<open>The physical page number in an entry, bits 12 to 51.\<close>

definition entry_page :: "u64 \<Rightarrow> nat" where
  "entry_page e = unat (drop_bit 12 e AND 0xffffffffff)"

text \<open>A page is writable, or open to user code, when every entry on the way allows it.\<close>

definition rights :: "u64 list \<Rightarrow> bool \<times> bool" where
  "rights es = (list_all (\<lambda>e. bit e 1) es, list_all (\<lambda>e. bit e 2) es)"

text \<open>From a virtual page number (36 bits) to the physical page number, with its rights.\<close>

definition walk :: "phys_mem \<Rightarrow> nat \<Rightarrow> nat \<Rightarrow> (nat \<times> bool \<times> bool) option" where
  "walk m root p =
     (let e4 = entry m (root + 8 * (p div 0x8000000 mod 512));
          e3 = entry m (entry_page e4 * 4096 + 8 * (p div 0x40000 mod 512));
          e2 = entry m (entry_page e3 * 4096 + 8 * (p div 512 mod 512));
          e1 = entry m (entry_page e2 * 4096 + 8 * (p mod 512))
      in if \<not> present e4 then None
         else if \<not> present e3 then None
         else if large e3 then Some (entry_page e3 div 0x40000 * 0x40000 + p mod 0x40000, rights [e4, e3])
         else if \<not> present e2 then None
         else if large e2 then Some (entry_page e2 div 512 * 512 + p mod 512, rights [e4, e3, e2])
         else if \<not> present e1 then None
         else Some (entry_page e1, rights [e4, e3, e2, e1]))"

text \<open>A canonical virtual address has 48 significant bits.\<close>

definition translate :: "phys_mem \<Rightarrow> nat \<Rightarrow> u64 \<Rightarrow> (nat \<times> bool \<times> bool) option" where
  "translate m root va =
     (let a = unat va mod 2 ^ 48 in
      map_option (\<lambda>(f, r). (f * 4096 + a mod 4096, r)) (walk m root (a div 4096)))"

text \<open>
  What the tables are to map, by virtual page number, with the access of user code: the pages of the
  code and of the screen one to one, the tables themselves, the local APIC, the doorbell, the user
  stacks, the system data and the kernel stacks.
\<close>

definition guest_map :: "nat \<Rightarrow> (nat \<times> bool) option" where
  "guest_map p =
     (if 0x9 \<le> p \<and> p \<le> 0x19 \<or> p = 0x20 \<or> p = 0xb8 \<or> p = 0xb9 then Some (p, True)
      else if 0x200 \<le> p \<and> p < 0x400 then Some (p, False)
      else if 0x800 \<le> p \<and> p < 0xa00 then Some (p - 0x800 + 0xfee00, False)
      else if 0x8000 \<le> p \<and> p < 0x8200 then Some (p, True)
      else if 0x7fffffe00 \<le> p \<and> p < 0x7fffffe04 then Some (p - 0x7fffffe00 + 0x414, True)
      else if 0xfff800000 \<le> p \<and> p < 0xfff800002 then Some (p - 0xfff800000 + 0x410, False)
      else if 0xfff810000 \<le> p \<and> p < 0xfff810002 then Some (p - 0xfff810000 + 0x412, False)
      else if 0xffffffe00 \<le> p \<and> p < 0x1000000000 then Some (p - 0xffffffe00 + 0xa00, False)
      else None)"

section \<open>Clearing: what it leaves\<close>

interpretation guest_mem: cell_store "\<lambda>_. True" "\<lambda>_. True" "\<lambda>m a. m a" movl
  by unfold_locales (auto simp: movl_def)

definition zero_range :: "nat \<Rightarrow> nat \<Rightarrow> phys_mem \<Rightarrow> phys_mem" where
  "zero_range b n m a = (if b \<le> a \<and> a < b + n \<and> (a - b) mod 4 = 0 then 0 else m a)"

lemma zero_range_empty [simp]: "zero_range b 0 m = m"
  by (rule ext) (auto simp: zero_range_def)

lemma zero_range_join:
  assumes "k mod 4 = 0"
  shows "zero_range b k (zero_range (b + k) n m) = zero_range b (k + n) m"
proof (rule ext)
  fix a
  have "(a - (b + k)) mod 4 = (a - b) mod 4" if "b + k \<le> a"
  proof -
    obtain q where "k = 4 * q" using assms by auto
    then have "a - b = (a - (b + k)) + 4 * q" using that by simp
    then show ?thesis by simp
  qed
  then show "zero_range b k (zero_range (b + k) n m) a = zero_range b (k + n) m a"
    by (auto simp: zero_range_def)
qed

lemma zero_range_commute: "zero_range b k (zero_range c n m) = zero_range c n (zero_range b k m)"
  by (rule ext) (auto simp: zero_range_def)

lemma movdqu_zero_range: "movdqu_zero a m = zero_range (unat a) 16 m"
proof (rule ext)
  fix x
  have "unat a \<le> x \<and> x < unat a + 16 \<and> (x - unat a) mod 4 = 0 \<longleftrightarrow>
      x = unat a \<or> x = unat a + 4 \<or> x = unat a + 8 \<or> x = unat a + 12" by presburger
  then show "movdqu_zero a m x = zero_range (unat a) 16 m x"
    by (simp add: movdqu_zero_def zero_range_def movl_def)
qed

lemma stores_of_a_round:
  assumes "unat esi + 128 * Suc n < 2 ^ 32"
  shows "fold (\<lambda>k. movdqu_zero (esi + of_nat (128 * Suc n) - k)) [16, 32, 48, 64, 80, 96, 112, 128] m =
    zero_range (unat esi + 128 * n) 128 m"
proof -
  have below: "unat (esi + of_nat (128 * Suc n) - of_nat k) = unat esi + 128 * n + (128 - k)" if "k \<le> 128" for k
  proof -
    have "esi + of_nat (128 * Suc n) - of_nat k = of_nat (unat esi + 128 * n + (128 - k))"
      using that by (simp add: of_nat_diff)
    moreover have "unat (of_nat (unat esi + 128 * n + (128 - k)) :: u32) = unat esi + 128 * n + (128 - k)"
      using assms that by (intro unat_of_nat_small) auto
    ultimately show ?thesis by (simp only:)
  qed
  have addrs: "map (\<lambda>k. unat (esi + of_nat (128 * Suc n) - k)) [16, 32, 48, 64, 80, 96, 112, 128] =
      map (\<lambda>k. unat esi + 128 * n + k) [112, 96, 80, 64, 48, 32, 16, 0]"
    using below [of 16] below [of 32] below [of 48] below [of 64] below [of 80] below [of 96] below [of 112]
      below [of 128] by (simp only: list.map) simp
  define b where "b = unat esi + 128 * n"
  have join: "zero_range (b + k) 16 (zero_range (b + (k + 16)) j m) = zero_range (b + k) (16 + j) m" for k j
    using zero_range_join [of 16 "b + k" j m] by (simp add: add.assoc)
  show ?thesis
    using addrs join [of 96 16] join [of 80 32] join [of 64 48] join [of 48 64] join [of 32 80] join [of 16 96]
      join [of 0 112]
    by (simp add: movdqu_zero_range b_def [symmetric])
qed

lemma clear_4K_page_loop_zeroes:
  assumes "unat esi + 128 * Suc n < 2 ^ 32" and "n < 32"
  shows "clear_4K_page_loop esi (of_nat (128 * Suc n)) m = Some (zero_range (unat esi) (128 * Suc n) m)"
  using assms
proof (induction n arbitrary: m)
  case 0
  then show ?case using stores_of_a_round [of esi 0 m]
    by (subst clear_4K_page_loop.simps) (simp add: Let_def)
next
  case (Suc n)
  let ?m = "zero_range (unat esi + 128 * Suc n) 128 m"
  have eax: "of_nat (128 * Suc (Suc n)) - 128 = (of_nat (128 * Suc n) :: u32)" by simp
  have "unat (of_nat (128 * Suc n) :: u32) = 128 * Suc n" using Suc.prems(2) by (intro unat_of_nat_small) auto
  then have ne: "(of_nat (128 * Suc n) :: u32) \<noteq> 0" by (metis mult_eq_0_iff nat.simps(3) unat_0 zero_neq_numeral)
  have "clear_4K_page_loop esi (of_nat (128 * Suc (Suc n))) m = clear_4K_page_loop esi (of_nat (128 * Suc n)) ?m"
    unfolding clear_4K_page_loop.simps [of esi "of_nat (128 * Suc (Suc n))" m]
      stores_of_a_round [OF Suc.prems(1)] Let_def eax using ne by (simp only: if_False)
  also have "\<dots> = Some (zero_range (unat esi) (128 * Suc n) ?m)" using Suc by (intro Suc.IH) auto
  also have "zero_range (unat esi) (128 * Suc n) ?m = zero_range (unat esi) (128 * Suc (Suc n)) m"
    using zero_range_join [of "128 * Suc n" "unat esi" 128 m] by (simp add: add.commute)
  finally show ?case .
qed

lemma clear_4K_page_zeroes:
  assumes "unat esi + 4096 < 2 ^ 32"
  shows "clear_4K_page esi m = Some (zero_range (unat esi) 4096 m)"
  using clear_4K_page_loop_zeroes [of esi 31 m] assms by (simp add: clear_4K_page_def)

lemma clear_4k_pages_loop_zeroes:
  assumes "unat esi + 4096 * Suc n < 2 ^ 32"
  shows "clear_4k_pages_loop esi (of_nat (Suc n)) m = Some (zero_range (unat esi) (4096 * Suc n) m)"
  using assms
proof (induction n arbitrary: esi m)
  case 0
  then show ?case by (subst clear_4k_pages_loop.simps) (simp add: clear_4K_page_zeroes Let_def)
next
  case (Suc n)
  have esi: "unat (esi + 0x1000) = unat esi + 4096" using Suc.prems by (subst unat_plus_simple [THEN iffD1])
      (auto simp: word_le_nat_alt unat_word_ariths)
  have "unat (of_nat (Suc n) :: u32) = Suc n" using Suc.prems by (intro unat_of_nat_small) auto
  then have ne: "(of_nat (Suc n) :: u32) \<noteq> 0" by (metis nat.simps(3) unat_0)
  have "clear_4k_pages_loop esi (of_nat (Suc (Suc n))) m =
      clear_4k_pages_loop (esi + 0x1000) (of_nat (Suc n)) (zero_range (unat esi) 4096 m)"
    using ne Suc.prems by (subst clear_4k_pages_loop.simps) (simp add: clear_4K_page_zeroes Let_def)
  also have "\<dots> = Some (zero_range (unat esi + 4096) (4096 * Suc n) (zero_range (unat esi) 4096 m))"
    using Suc.IH [of "esi + 0x1000"] Suc.prems esi by simp
  also have "zero_range (unat esi + 4096) (4096 * Suc n) (zero_range (unat esi) 4096 m) =
      zero_range (unat esi) (4096 * Suc (Suc n)) m"
    using zero_range_join [of 4096 "unat esi" "4096 * Suc n" m] zero_range_commute by simp
  finally show ?case .
qed

section \<open>The entries of each table\<close>

definition paged :: "phys_mem \<Rightarrow> phys_mem" where
  "paged m = write_all movl table_writes
     (zero_range 0x300000 0x5000 (zero_range 0x201000 0x3000 (zero_range 0x200000 0xf000 m)))"

lemma init_paging_bootstrap: "bit apic_base 8 \<Longrightarrow> init_paging apic_base m = Some (paged m)"
  using clear_4k_pages_loop_zeroes [of "0x200000" 14 m]
    clear_4k_pages_loop_zeroes [of "0x201000" 2] clear_4k_pages_loop_zeroes [of "0x300000" 4]
  by (simp add: init_paging_def clear_4k_pages_def paged_def)

definition is_table :: "nat \<Rightarrow> bool" where
  "is_table b \<longleftrightarrow> b mod 4096 = 0 \<and> (0x200000 \<le> b \<and> b < 0x20f000 \<or> 0x300000 \<le> b \<and> b < 0x305000)"

lemma is_table_aligned: "is_table b \<Longrightarrow> 8 dvd b"
  unfolding is_table_def using dvd_trans [of 8 4096 b] by auto

lemma paged_cell:
  assumes "is_table b" and "k < 4096" and "k mod 4 = 0"
  shows "paged m (b + k) = (case last_write table_writes (b + k) of None \<Rightarrow> 0 | Some v \<Rightarrow> v)"
proof -
  have "b + k < 0x20f000 \<and> 0x200000 \<le> b \<or> b + k < 0x305000 \<and> 0x300000 \<le> b"
    using assms(1,2) by (auto simp: is_table_def)
  moreover have "4 dvd b + k" using is_table_aligned [OF assms(1)] assms(3) dvd_trans [of 4 8 b] by auto
  then have "(b + k - 0x200000) mod 4 = 0" "(b + k - 0x300000) mod 4 = 0"
    using dvd_diff_nat [of 4 "b + k" "0x200000"] dvd_diff_nat [of 4 "b + k" "0x300000"]
    by (simp_all only: dvd_eq_mod_eq_0) simp_all
  ultimately have "zero_range 0x300000 0x5000 (zero_range 0x201000 0x3000 (zero_range 0x200000 0xf000 m)) (b + k) = 0"
    by (auto simp: zero_range_def)
  then show ?thesis unfolding paged_def by (simp add: guest_mem.get_writes split: option.split)
qed

text \<open>The stores to the lower halves of one table, by index, and the upper halves.\<close>

definition table_at :: "nat \<Rightarrow> (nat \<times> u32) list" where
  "table_at b = map (\<lambda>(a, v). ((a - b) div 8, v))
     (filter (\<lambda>(a, v). b \<le> a \<and> a < b + 4096 \<and> a mod 8 = 0) (rev table_writes))"

lemma map_of_table:
  fixes b i :: nat
  assumes "b mod 8 = 0" and "i < 512"
  shows "map_of (map (\<lambda>(a, v). ((a - b) div 8, v))
      (filter (\<lambda>(a, v). b \<le> a \<and> a < b + 4096 \<and> a mod 8 = 0) xs)) i = map_of xs (b + 8 * i)"
proof (induction xs)
  case (Cons x xs)
  obtain a v where x: "x = (a, v)" by force
  have "(a - b) div 8 = i \<longleftrightarrow> a = b + 8 * i" if ab: "b \<le> a" "a mod 8 = 0"
  proof -
    obtain x y where "a = 8 * x" "b = 8 * y" using assms(1) ab(2) by (auto simp: mod_eq_0_iff_dvd elim!: dvdE)
    then show ?thesis using ab(1) by (auto simp flip: right_diff_distrib')
  qed
  moreover have in_table: "b \<le> b + 8 * i \<and> b + 8 * i < b + 4096 \<and> (b + 8 * i) mod 8 = 0"
    using assms by simp
  ultimately show ?case
  proof (cases "b \<le> a \<and> a < b + 4096 \<and> a mod 8 = 0")
    case False
    then have "a \<noteq> b + 8 * i" using in_table by metis
    with False show ?thesis using Cons x by (simp only: filter.simps prod.case if_False map_of.simps fst_conv fun_upd_apply) simp
  qed (use Cons x in auto)
qed simp

lemma upper_halves_zero:
  assumes "a mod 8 = 4"
  shows "(case last_write table_writes a of None \<Rightarrow> 0 | Some v \<Rightarrow> v) = 0"
proof -
  have "list_all (\<lambda>(a, v). a mod 8 = 4 \<longrightarrow> v = 0) table_writes" by (simp add: table_writes_def)
  then show ?thesis using assms
    by (auto simp: last_write_def list_all_iff dest!: map_of_SomeD split: option.splits)
qed

lemma entry_paged:
  assumes "is_table b" and "i < 512"
  shows "entry (paged m) (b + 8 * i) = (case map_of (table_at b) i of None \<Rightarrow> 0 | Some v \<Rightarrow> ucast v)"
proof -
  have b: "b mod 8 = 0" using is_table_aligned [OF assms(1)] by simp
  have "(b + (8 * i + 4)) mod 8 = 4" "(8 * i + 4) mod 4 = 0" "8 * i + 4 < 4096"
    using b assms(2) mod_add_left_eq [of b 8 "8 * i + 4"] by simp_all
  then have "paged m (b + (8 * i + 4)) = 0"
    using paged_cell [OF assms(1), of "8 * i + 4" m] upper_halves_zero by simp
  moreover have "paged m (b + 8 * i) = (case map_of (table_at b) i of None \<Rightarrow> 0 | Some v \<Rightarrow> v)"
    using paged_cell [OF assms(1), of "8 * i" m] assms b
    by (simp add: table_at_def map_of_table last_write_def)
  ultimately show ?thesis by (simp add: entry_def add.assoc split: option.split)
qed

lemma tables:
  "table_at 0x200000 = [(0xff, 0x300007), (0x1ff, 0x202003), (0, 0x201007)]"
  "table_at 0x201000 = [(0, 0x203007)]"
  "table_at 0x202000 = [(0x1ff, 0x209003), (0x1e0, 0x204007)]"
  "table_at 0x203000 = [(4, 0xfee0009b), (0x40, 0x8000087), (2, 0x207003), (1, 0x200083), (0, 0x205007)]"
  "table_at 0x204000 = [(0x80, 0x208003), (0, 0x206003)]"
  "table_at 0x206000 = [(1, 0x411003), (0, 0x410003)]"
  "table_at 0x207000 = []"
  "table_at 0x208000 = [(1, 0x413003), (0, 0x412003)]"
  "table_at 0x209000 = [(0x1ff, 0xa00083)]"
  "table_at 0x300000 = [(0x1ff, 0x302007), (0x1fc, 0x301007)]"
  "table_at 0x301000 = [(0, 0x800086)]"
  "table_at 0x302000 = [(0x1ff, 0x303007)]"
  "table_at 0x303000 = [(3, 0x417007), (2, 0x416007), (1, 0x415007), (0, 0x414007)]"
  by (simp_all add: table_at_def table_writes_def page_flags)

lemma low_table:
  "table_at 0x205000 = [(0xb9, 0xb9007), (0xb8, 0xb8007), (0x20, 0x20007), (0x19, 0x19007), (0x18, 0x18007),
     (0x17, 0x17007), (0x16, 0x16007), (0x15, 0x15007), (0x14, 0x14007), (0x13, 0x13007), (0x12, 0x12007),
     (0x11, 0x11007), (0x10, 0x10007), (0xf, 0xf007), (0xe, 0xe007), (0xd, 0xd007), (0xc, 0xc007), (0xb, 0xb007),
     (0xa, 0xa007), (9, 0x9007), (1, 6)]"
  by (simp add: table_at_def table_writes_def page_flags)

section \<open>The walk through the tables\<close>

definition page_of :: "nat \<Rightarrow> nat \<Rightarrow> nat \<Rightarrow> nat \<Rightarrow> nat" where
  "page_of i4 i3 i2 i1 = ((i4 * 512 + i3) * 512 + i2) * 512 + i1"

lemma page_of_indices:
  assumes "i3 < 512" "i2 < 512" "i1 < 512" "i4 < 512"
  shows "page_of i4 i3 i2 i1 div 0x8000000 mod 512 = i4" "page_of i4 i3 i2 i1 div 0x40000 mod 512 = i3"
    "page_of i4 i3 i2 i1 div 512 mod 512 = i2" "page_of i4 i3 i2 i1 mod 512 = i1"
proof -
  have d1: "page_of i4 i3 i2 i1 div 512 = (i4 * 512 + i3) * 512 + i2" using assms by (simp add: page_of_def)
  have "page_of i4 i3 i2 i1 div 0x40000 = page_of i4 i3 i2 i1 div 512 div 512" by (simp flip: div_mult2_eq)
  then have d2: "page_of i4 i3 i2 i1 div 0x40000 = i4 * 512 + i3" using assms by (simp add: d1)
  have "page_of i4 i3 i2 i1 div 0x8000000 = page_of i4 i3 i2 i1 div 0x40000 div 512" by (simp flip: div_mult2_eq)
  then show "page_of i4 i3 i2 i1 div 0x8000000 mod 512 = i4" using assms by (simp add: d2)
  show "page_of i4 i3 i2 i1 div 0x40000 mod 512 = i3" using assms by (simp add: d2)
  show "page_of i4 i3 i2 i1 div 512 mod 512 = i2" using assms by (simp only: d1 mod_mult_self3 mod_less)
  show "page_of i4 i3 i2 i1 mod 512 = i1" using assms by (simp only: page_of_def mod_mult_self3 mod_less)
qed

lemma page_of_cover:
  assumes "p < 2 ^ 36"
  obtains i4 i3 i2 i1 where "i4 < 512" "i3 < 512" "i2 < 512" "i1 < 512" "p = page_of i4 i3 i2 i1"
proof
  show "p div 512 div 512 div 512 < 512" using assms by (simp add: div_less_iff_less_mult)
  show "p = page_of (p div 512 div 512 div 512) (p div 512 div 512 mod 512) (p div 512 mod 512) (p mod 512)"
    by (simp add: page_of_def)
qed simp_all

lemma walk_page_of:
  assumes "i4 < 512" "i3 < 512" "i2 < 512" "i1 < 512"
  shows "walk m root (page_of i4 i3 i2 i1) =
     (let e4 = entry m (root + 8 * i4);
          e3 = entry m (entry_page e4 * 4096 + 8 * i3);
          e2 = entry m (entry_page e3 * 4096 + 8 * i2);
          e1 = entry m (entry_page e2 * 4096 + 8 * i1)
      in if \<not> present e4 then None
         else if \<not> present e3 then None
         else if large e3 then Some (entry_page e3 div 0x40000 * 0x40000 + (i2 * 512 + i1), rights [e4, e3])
         else if \<not> present e2 then None
         else if large e2 then Some (entry_page e2 div 512 * 512 + i1, rights [e4, e3, e2])
         else if \<not> present e1 then None
         else Some (entry_page e1, rights [e4, e3, e2, e1]))"
proof -
  have "page_of i4 i3 i2 i1 = (i4 * 512 + i3) * 0x40000 + (i2 * 512 + i1)" by (simp add: page_of_def)
  moreover have "i2 * 512 + i1 < 0x40000" using assms by simp
  ultimately have "page_of i4 i3 i2 i1 mod 0x40000 = i2 * 512 + i1" by (simp only: mod_mult_self3 mod_less)
  then show ?thesis using assms by (simp add: walk_def page_of_indices Let_def)
qed

lemma directory_entries:
  "entry (paged m) 0x200000 = 0x201007" "entry (paged m) 0x2007f8 = 0x300007" "entry (paged m) 0x200ff8 = 0x202003"
  "entry (paged m) 0x201000 = 0x203007" "entry (paged m) 0x202f00 = 0x204007" "entry (paged m) 0x202ff8 = 0x209003"
  "entry (paged m) 0x203000 = 0x205007" "entry (paged m) 0x203008 = 0x200083" "entry (paged m) 0x203010 = 0x207003"
  "entry (paged m) 0x203020 = 0xfee0009b" "entry (paged m) 0x203200 = 0x8000087" "entry (paged m) 0x204000 = 0x206003"
  "entry (paged m) 0x204400 = 0x208003" "entry (paged m) 0x209ff8 = 0xa00083" "entry (paged m) 0x300fe0 = 0x301007"
  "entry (paged m) 0x300ff8 = 0x302007" "entry (paged m) 0x301000 = 0x800086" "entry (paged m) 0x302ff8 = 0x303007"
  using entry_paged [of "0x200000" "0x0" m] entry_paged [of "0x200000" "0xff" m] entry_paged [of "0x200000" "0x1ff" m]
    entry_paged [of "0x201000" "0x0" m] entry_paged [of "0x202000" "0x1e0" m] entry_paged [of "0x202000" "0x1ff" m]
    entry_paged [of "0x203000" "0x0" m] entry_paged [of "0x203000" "0x1" m] entry_paged [of "0x203000" "0x2" m]
    entry_paged [of "0x203000" "0x4" m] entry_paged [of "0x203000" "0x40" m] entry_paged [of "0x204000" "0x0" m]
    entry_paged [of "0x204000" "0x80" m] entry_paged [of "0x209000" "0x1ff" m] entry_paged [of "0x300000" "0x1fc" m]
    entry_paged [of "0x300000" "0x1ff" m] entry_paged [of "0x301000" "0x0" m] entry_paged [of "0x302000" "0x1ff" m]
  by (simp_all add: is_table_def tables)

lemmas entry_bits = present_def large_def entry_page_def rights_def

abbreviation mapped :: "nat \<Rightarrow> (nat \<times> bool \<times> bool) option" where
  "mapped p \<equiv> map_option (\<lambda>(f, u). (f, True, u)) (guest_map p)"

lemma low_page_cases:
  assumes "9 \<le> i \<and> i \<le> (0x19 :: nat)"
  shows "i \<in> {9, 10, 11, 12, 13, 14, 15, 16, 17, 18, 19, 20, 21, 22, 23, 24, 25}"
proof -
  have "i \<in> set [9..<26]" using assms by (simp only: set_upt atLeastLessThan_iff) simp
  also have "[9..<26 :: nat] = [9, 10, 11, 12, 13, 14, 15, 16, 17, 18, 19, 20, 21, 22, 23, 24, 25]"
    by (simp add: upt_rec)
  finally show ?thesis by simp
qed

text \<open>The last step of a walk that came through the entries \<open>es\<close>, with the stored word of its page.\<close>

definition leaf :: "u64 list \<Rightarrow> u32 option \<Rightarrow> (nat \<times> bool \<times> bool) option" where
  "leaf es v =
     (case v of
        None \<Rightarrow> None
      | Some v \<Rightarrow> let e = ucast v in if present e then Some (entry_page e, rights (es @ [e])) else None)"

lemma low_pages_agree:
  "list_all (\<lambda>(i, v). leaf [0x201007, 0x203007, 0x205007] (Some v) = mapped i) (table_at 0x205000)"
  by (simp add: low_table entry_bits guest_map_def leaf_def)

lemma walk_low:
  assumes "i1 < 512"
  shows "walk (paged m) PML4T_BASE (page_of 0 0 0 i1) = mapped (page_of 0 0 0 i1)"
proof -
  have p: "guest_map (page_of 0 0 0 i1) = guest_map i1" by (simp add: page_of_def)
  have w: "walk (paged m) PML4T_BASE (page_of 0 0 0 i1) =
      leaf [0x201007, 0x203007, 0x205007] (map_of (table_at 0x205000) i1)"
    using assms
    by (simp add: walk_page_of PML4T_BASE_def directory_entries entry_paged is_table_def entry_bits leaf_def
        Let_def split: option.split)
  show ?thesis
  proof (cases "map_of (table_at 0x205000) i1")
    case None
    then have out: "i1 \<notin> fst ` set (table_at 0x205000)" by (simp only: map_of_eq_None_iff not_False_eq_True)
    have "\<not> (9 \<le> i1 \<and> i1 \<le> 0x19)"
    proof
      assume "9 \<le> i1 \<and> i1 \<le> 0x19"
      with out show False using low_page_cases [of i1] by (simp add: low_table)
    qed
    moreover have "i1 \<noteq> 0x20" "i1 \<noteq> 0xb8" "i1 \<noteq> 0xb9" using out by (simp_all add: low_table)
    ultimately have "guest_map i1 = None" using assms unfolding guest_map_def by simp
    then show ?thesis by (simp add: w p None leaf_def)
  next
    case (Some v)
    then have "(i1, v) \<in> set (table_at 0x205000)" by (rule map_of_SomeD)
    with low_pages_agree show ?thesis unfolding w p Some by (auto simp: list_all_iff)
  qed
qed

lemmas walk_eval = walk_page_of PML4T_BASE_def directory_entries entry_paged is_table_def tables entry_bits Let_def

lemmas leaf_eval = walk_page_of PML4T_BASE_def directory_entries entry_paged is_table_def entry_bits leaf_def Let_def

lemma walk_first_gigabyte:
  assumes "i2 < 512" "i1 < 512"
  shows "walk (paged m) PML4T_BASE (page_of 0 0 i2 i1) = mapped (page_of 0 0 i2 i1)"
proof -
  consider "i2 = 0" | "i2 = 1" | "i2 = 2" | "i2 = 4" | "i2 = 0x40" | "i2 \<notin> {0, 1, 2, 4, 0x40}" by blast
  then show ?thesis
  proof cases
    case 1 then show ?thesis using walk_low assms(2) by simp
  next
    case 2 then show ?thesis using assms by (simp add: walk_eval) (simp add: guest_map_def page_of_def)
  next
    case 3 then show ?thesis using assms by (simp add: walk_eval) (simp add: guest_map_def page_of_def)
  next
    case 4 then show ?thesis using assms by (simp add: walk_eval) (simp add: guest_map_def page_of_def)
  next
    case 5 then show ?thesis using assms by (simp add: walk_eval) (simp add: guest_map_def page_of_def)
  next
    case 6
    then have "\<not> (page_of 0 0 i2 i1 < 0x600)" "\<not> (0x800 \<le> page_of 0 0 i2 i1 \<and> page_of 0 0 i2 i1 < 0xa00)"
      "\<not> (0x8000 \<le> page_of 0 0 i2 i1 \<and> page_of 0 0 i2 i1 < 0x8200)" "page_of 0 0 i2 i1 < 0x40000"
      using assms unfolding page_of_def by auto
    then have "guest_map (page_of 0 0 i2 i1) = None" unfolding guest_map_def by simp
    then show ?thesis using 6 assms by (simp add: walk_eval)
  qed
qed

lemma walk_user_stacks:
  assumes "i3 < 512" "i2 < 512" "i1 < 512"
  shows "walk (paged m) PML4T_BASE (page_of 0xff i3 i2 i1) = mapped (page_of 0xff i3 i2 i1)"
proof -
  consider "i3 = 0x1ff \<and> i2 = 0x1ff" | "i3 = 0x1ff \<and> i2 \<noteq> 0x1ff" | "i3 = 0x1fc" | "i3 \<notin> {0x1fc, 0x1ff}" by blast
  then show ?thesis
  proof cases
    case 1
    then have w: "walk (paged m) PML4T_BASE (page_of 0xff i3 i2 i1) =
        leaf [0x300007, 0x302007, 0x303007] (map_of (table_at 0x303000) i1)"
      using assms by (simp add: leaf_eval split: option.split)
    consider "i1 = 0" | "i1 = 1" | "i1 = 2" | "i1 = 3" | "4 \<le> i1" by linarith
    then show ?thesis unfolding w using 1 assms
      by cases (simp_all add: tables leaf_def entry_bits guest_map_def page_of_def)
  next
    case 2 then show ?thesis using assms by (simp add: walk_eval) (simp add: guest_map_def page_of_def)
  next
    case 3 then show ?thesis using assms
      by (cases "i2 = 0") (simp_all add: walk_eval, simp_all add: guest_map_def page_of_def)
  next
    case 4 then show ?thesis using assms by (simp add: walk_eval) (simp add: guest_map_def page_of_def)
  qed
qed

lemma walk_kernel:
  assumes "i3 < 512" "i2 < 512" "i1 < 512"
  shows "walk (paged m) PML4T_BASE (page_of 0x1ff i3 i2 i1) = mapped (page_of 0x1ff i3 i2 i1)"
proof -
  consider "i3 = 0x1e0 \<and> i2 = 0" | "i3 = 0x1e0 \<and> i2 = 0x80" | "i3 = 0x1e0 \<and> i2 \<notin> {0, 0x80}"
    | "i3 = 0x1ff \<and> i2 = 0x1ff" | "i3 = 0x1ff \<and> i2 \<noteq> 0x1ff" | "i3 \<notin> {0x1e0, 0x1ff}" by blast
  then show ?thesis
  proof cases
    case 1
    then have w: "walk (paged m) PML4T_BASE (page_of 0x1ff i3 i2 i1) =
        leaf [0x202003, 0x204007, 0x206003] (map_of (table_at 0x206000) i1)"
      using assms by (simp add: leaf_eval split: option.split)
    consider "i1 = 0" | "i1 = 1" | "2 \<le> i1" by linarith
    then show ?thesis unfolding w using 1 assms
      by cases (simp_all add: tables leaf_def entry_bits guest_map_def page_of_def)
  next
    case 2
    then have w: "walk (paged m) PML4T_BASE (page_of 0x1ff i3 i2 i1) =
        leaf [0x202003, 0x204007, 0x208003] (map_of (table_at 0x208000) i1)"
      using assms by (simp add: leaf_eval split: option.split)
    consider "i1 = 0" | "i1 = 1" | "2 \<le> i1" by linarith
    then show ?thesis unfolding w using 2 assms
      by cases (simp_all add: tables leaf_def entry_bits guest_map_def page_of_def)
  next
    case 3
    then have "page_of 0x1ff i3 i2 i1 < 0xfff840000" "page_of 0x1ff i3 i2 i1 \<ge> 0xfff800200"
      "\<not> (0xfff810000 \<le> page_of 0x1ff i3 i2 i1 \<and> page_of 0x1ff i3 i2 i1 < 0xfff810200)"
      using assms unfolding page_of_def by auto
    then have "guest_map (page_of 0x1ff i3 i2 i1) = None" unfolding guest_map_def by auto
    then show ?thesis using 3 assms by (simp add: walk_eval)
  next
    case 4 then show ?thesis using assms by (simp add: walk_eval) (simp add: guest_map_def page_of_def)
  next
    case 5 then show ?thesis using assms by (simp add: walk_eval) (simp add: guest_map_def page_of_def)
  next
    case 6
    then have "page_of 0x1ff i3 i2 i1 < 0xfff800000 \<or> 0xfff840000 \<le> page_of 0x1ff i3 i2 i1"
      "page_of 0x1ff i3 i2 i1 < 0xfffff0000" "0xff8000000 \<le> page_of 0x1ff i3 i2 i1"
      using assms unfolding page_of_def by auto
    then have "guest_map (page_of 0x1ff i3 i2 i1) = None" unfolding guest_map_def by auto
    then show ?thesis using 6 assms by (simp add: walk_eval)
  qed
qed

lemma walk_paged:
  assumes "p < 2 ^ 36"
  shows "walk (paged m) PML4T_BASE p = mapped p"
  using assms
proof (rule page_of_cover)
  fix i4 i3 i2 i1 assume i: "i4 < 512" "i3 < 512" "i2 < 512" "i1 < 512" and p: "p = page_of i4 i3 i2 i1"
  consider "i4 = 0 \<and> i3 = 0" | "i4 = 0 \<and> i3 \<noteq> 0" | "i4 = 0xff" | "i4 = 0x1ff" | "i4 \<notin> {0, 0xff, 0x1ff}" by blast
  then show ?thesis
  proof cases
    case 1 then show ?thesis using walk_first_gigabyte i p by simp
  next
    case 2
    then have "page_of i4 i3 i2 i1 < 0x8000000" "0x40000 \<le> page_of i4 i3 i2 i1"
      using i unfolding page_of_def by auto
    then have "guest_map p = None" unfolding guest_map_def p by simp
    then show ?thesis using 2 i p by (simp add: walk_eval)
  next
    case 3 then show ?thesis using walk_user_stacks i p by simp
  next
    case 4 then show ?thesis using walk_kernel i p by simp
  next
    case 5
    then have "0x8000000 \<le> p" "p < 0x7f8000000 \<or> 0x800000000 \<le> p" "p < 0xff8000000"
      using i unfolding page_of_def p by auto
    then have "guest_map p = None" unfolding guest_map_def by auto
    then show ?thesis using 5 i p by (simp add: walk_eval)
  qed
qed

lemma translate_paged:
  "translate (paged m) PML4T_BASE va =
     map_option (\<lambda>(f, u). (f * 4096 + unat va mod 4096, True, u)) (guest_map (unat va mod 2 ^ 48 div 4096))"
proof -
  have "unat va mod 2 ^ 48 div 4096 < 2 ^ 36" by (simp add: div_less_iff_less_mult)
  moreover have "unat va mod 2 ^ 48 mod 4096 = unat va mod 4096" by (simp add: mod_mod_cancel)
  ultimately show ?thesis
    by (simp add: translate_def walk_paged option.map_comp comp_def split_def Let_def)
qed

lemma paged_below: "a < PML4T_BASE \<Longrightarrow> paged m a = m a"
proof -
  assume a: "a < PML4T_BASE"
  have "\<forall>k \<in> fst ` set table_writes. PML4T_BASE \<le> k" by (simp add: table_writes_def PML4T_BASE_def)
  with a have "a \<notin> fst ` set table_writes" by auto
  then have "last_write table_writes a = None" by (simp add: last_write_None_iff)
  then show "paged m a = m a"
    using a by (simp add: paged_def guest_mem.get_writes zero_range_def PML4T_BASE_def)
qed

text \<open>The pages of the stacks.\<close>

lemma page_of_offset:
  fixes b k :: nat
  assumes "b mod 4096 = 0" "k < 4096"
  shows "(b + k) mod 2 ^ 48 div 4096 = b mod 2 ^ 48 div 4096"
proof -
  obtain q where b: "b = 4096 * q" using assms(1) by auto
  have "(4096 * q + j) mod (4096 * 2 ^ 36) = 4096 * (q mod 2 ^ 36) + j" if "j < 4096" for j
    using that by (simp only: mod_mult2_eq) simp
  from this [of k] this [of 0] show ?thesis using assms(2) b by simp
qed

lemma stack_pages:
  "\<forall>(rsp, u) \<in> {(PROCESSOR_KERNEL_RSP, False), (PROCESSOR_IDT_RSP, False), (PROCESSOR_SYSENTER_RSP, False),
      (PROCESSOR_SYSCALL_RSP, False), (PROCESSOR_IST1_RSP, False), (PROCESSOR_USER_RSP, True)}.
    0x800 \<le> unat rsp \<and> (unat rsp - 0x800) mod 4096 = 0 \<and>
    (\<exists>f. guest_map ((unat rsp - 0x800) mod 2 ^ 48 div 4096) = Some (f, u))"
  by (simp add: stack_pointer_defs guest_map_def)

section \<open>Properties\<close>

lemma clear_4k_pages_result:
  assumes "unat esi + 4096 * n < 2 ^ 32"
  shows "clear_4k_pages esi (of_nat n) m = Some (zero_range (unat esi) (4096 * n) m)"
proof (cases n)
  case (Suc k)
  have "unat (of_nat n :: u32) = n" using assms by (intro unat_of_nat_small) auto
  then have "(of_nat n :: u32) \<noteq> 0" using Suc by (metis nat.simps(3) unat_0)
  then show ?thesis using clear_4k_pages_loop_zeroes [of esi k m] assms Suc by (simp add: clear_4k_pages_def)
qed (simp add: clear_4k_pages_def)

text \<open>
  C23: clearing pages ends, for every number of pages below the end of the address space, and sets
  exactly the cells of these pages to zero.
\<close>

theorem clear_4k_pages_zeroes:
  assumes "unat esi + 4096 * n < 2 ^ 32"
  shows "\<exists>m'. clear_4k_pages esi (of_nat n) m = Some m' \<and>
    (\<forall>a. m' a = (if unat esi \<le> a \<and> a < unat esi + 4096 * n \<and> (a - unat esi) mod 4 = 0 then 0 else m a))"
  using clear_4k_pages_result [OF assms, of m] by (simp add: zero_range_def)

theorem clear_4k_pages_zeroes_witness:
  "\<exists>m'. clear_4k_pages 0x200000 15 (\<lambda>_. 7) = Some m' \<and> m' 0x200ffc = 0 \<and> m' 0x20f000 = 7"
  using clear_4k_pages_zeroes [of "0x200000" 15 "\<lambda>_. 7"] by auto

text \<open>
  C8: on the bootstrap processor \<^verbatim>\<open>init_paging\<close> ends, and from any initial memory the tables it leaves map
  exactly what they are to map: every virtual address translates as \<^const>\<open>guest_map\<close> says, writable, and
  open to user code exactly where that says so; no other address is mapped. Cells below the tables
  keep their contents.
\<close>

theorem init_paging_maps_exactly:
  assumes "bit apic_base 8"
  shows "\<exists>m'. init_paging apic_base m = Some m' \<and>
    (\<forall>va. translate m' PML4T_BASE va =
       map_option (\<lambda>(f, u). (f * 4096 + unat va mod 4096, True, u)) (guest_map (unat va mod 2 ^ 48 div 4096))) \<and>
    (\<forall>a < PML4T_BASE. m' a = m a)"
  using init_paging_bootstrap [OF assms, of m] translate_paged paged_below by auto

theorem init_paging_maps_exactly_witness:
  "\<exists>m'. init_paging 0xfee00900 (\<lambda>_. 0xffffffff) = Some m' \<and>
     translate m' PML4T_BASE 0x800123 = Some (0xfee00123, True, False) \<and>
     translate m' PML4T_BASE 0xfffffff810001234 = Some (0x413234, True, False) \<and>
     translate m' PML4T_BASE 0x400000 = None"
proof -
  have "bit (0xfee00900 :: u32) 8" by simp
  then obtain m' where "init_paging 0xfee00900 (\<lambda>_. 0xffffffff) = Some m'"
    "\<forall>va. translate m' PML4T_BASE va =
       map_option (\<lambda>(f, u). (f * 4096 + unat va mod 4096, True, u)) (guest_map (unat va mod 2 ^ 48 div 4096))"
    using init_paging_maps_exactly by blast
  then show ?thesis by (simp add: guest_map_def)
qed

text \<open>
  C24: the stacks of the 64-bit mode are usable: every address of the stack below each of the stack
  pointers is mapped and writable, and open to user code exactly for the user stack.
\<close>

theorem stacks_mapped:
  assumes "bit apic_base 8" and "init_paging apic_base m = Some m'"
    and "(rsp, u) \<in> {(PROCESSOR_KERNEL_RSP, False), (PROCESSOR_IDT_RSP, False), (PROCESSOR_SYSENTER_RSP, False),
      (PROCESSOR_SYSCALL_RSP, False), (PROCESSOR_IST1_RSP, False), (PROCESSOR_USER_RSP, True)}"
    and "0 < k" and "k \<le> PROCESSOR_STACK_SIZE"
  shows "\<exists>pa. translate m' PML4T_BASE (rsp - of_nat k) = Some (pa, True, u)"
proof -
  have m': "m' = paged m" using init_paging_bootstrap [OF assms(1), of m] assms(2) by simp
  define b where "b = unat rsp - 0x800"
  have rsp: "unat rsp = b + 0x800" "b mod 4096 = 0" and map: "\<exists>f. guest_map (b mod 2 ^ 48 div 4096) = Some (f, u)"
    using bspec [OF stack_pages assms(3)] by (simp_all add: b_def)
  have k: "unat (of_nat k :: u64) = k" "k \<le> 0x800"
    using assms(5) by (simp_all add: PROCESSOR_STACK_SIZE_def unat_of_nat_small)
  then have "unat (rsp - of_nat k) = b + (0x800 - k)"
    using rsp(1) unat_sub [of "of_nat k" rsp] by (simp add: word_le_nat_alt)
  moreover have "(b + (0x800 - k)) mod 2 ^ 48 div 4096 = b mod 2 ^ 48 div 4096"
    using assms(4) by (intro page_of_offset [OF rsp(2)]) simp
  ultimately show ?thesis using map unfolding m' translate_paged by auto
qed

theorem stacks_mapped_witness:
  "\<exists>m'. init_paging 0xfee00900 (\<lambda>_. 0) = Some m' \<and>
     (\<exists>pa. translate m' PML4T_BASE (PROCESSOR_USER_RSP - 8) = Some (pa, True, True))"
proof -
  have b: "bit (0xfee00900 :: u32) 8" by simp
  show ?thesis using init_paging_bootstrap [OF b, of "\<lambda>_. 0"]
      stacks_mapped [OF b, of "\<lambda>_. 0" _ PROCESSOR_USER_RSP True 8]
    by (simp add: PROCESSOR_STACK_SIZE_def)
qed

end
