(* ===== verification/Svm_Descriptors.thy ===== *)
theory Svm_Descriptors
  imports VL_Prelude
begin

unbundle bit_operations_syntax

text \<open>
  Segment descriptors (\<^verbatim>\<open>src/vmx_mod/vmcs.h\<close>): the descriptor macros and the GDT template of 64-bit
  segments, the segment record of the guest configuration and its encoding as the attribute word
  of a VMCB segment. The bit positions of the attribute word are constants of the kernel's
  \<^verbatim>\<open>asm/svm.h\<close>, a parameter.
\<close>

section \<open>Descriptors\<close>

definition STA_A :: u64 where "STA_A = push_bit 0 1"
definition STA_W :: u64 where "STA_W = push_bit 1 1"
definition STA_E :: u64 where "STA_E = push_bit 2 1"
definition STA_X :: u64 where "STA_X = push_bit 3 1"
definition STA_R :: u64 where "STA_R = push_bit 1 1"
definition STA_C :: u64 where "STA_C = push_bit 2 1"

definition SEG_A :: u64 where "SEG_A = push_bit 40 STA_A"
definition SEG_W :: u64 where "SEG_W = push_bit 40 STA_W"
definition SEG_E :: u64 where "SEG_E = push_bit 40 STA_E"
definition SEG_X :: u64 where "SEG_X = push_bit 40 STA_X"
definition SEG_R :: u64 where "SEG_R = push_bit 40 STA_R"
definition SEG_C :: u64 where "SEG_C = push_bit 40 STA_C"

definition SEG_S :: u64 where "SEG_S = push_bit 44 1"
definition SEG_DPL :: "u64 \<Rightarrow> u64" where "SEG_DPL x = push_bit 45 (x AND 3)"
definition SEG_P :: u64 where "SEG_P = push_bit 47 1"
definition SEG_L :: u64 where "SEG_L = push_bit 53 1"
definition SEG_D :: u64 where "SEG_D = push_bit 54 1"
definition SEG_G :: u64 where "SEG_G = push_bit 55 1"

definition SEG_LIM :: "u64 \<Rightarrow> u64" where
  "SEG_LIM x = (x AND 0xffff) OR push_bit 32 (x AND 0xf0000)"

definition SEG64 :: "u64 \<Rightarrow> u64 \<Rightarrow> u64" where
  "SEG64 type dpl = type OR SEG_S OR SEG_P OR SEG_G OR SEG_L OR SEG_A OR SEG_DPL dpl
     OR SEG_LIM 0xffffffff"

definition NR_GDT_ENTRIES :: nat where
  "NR_GDT_ENTRIES = 9"

definition gdt_template :: "u64 list" where
  "gdt_template =
     [0, 0, SEG64 (SEG_X OR SEG_R) 0, SEG64 SEG_W 0, 0, SEG64 SEG_W 3, SEG64 (SEG_X OR SEG_R) 3, 0, 0]"

lemmas seg_macros = STA_A_def STA_W_def STA_E_def STA_X_def STA_R_def STA_C_def
  SEG_A_def SEG_W_def SEG_E_def SEG_X_def SEG_R_def SEG_C_def SEG_S_def SEG_DPL_def SEG_P_def
  SEG_L_def SEG_D_def SEG_G_def SEG_LIM_def SEG64_def

text \<open>The fields of a descriptor, as the processor reads them.\<close>

record desc_fields =
  df_base :: u64
  df_limit :: u64
  df_type :: u64
  df_s :: bool
  df_dpl :: u64
  df_p :: bool
  df_avl :: bool
  df_l :: bool
  df_db :: bool
  df_g :: bool

definition desc_decode :: "u64 \<Rightarrow> desc_fields" where
  "desc_decode d = \<lparr>
     df_base = (drop_bit 16 d AND 0xffffff) OR push_bit 24 (drop_bit 56 d),
     df_limit = (d AND 0xffff) OR (drop_bit 32 d AND 0xf0000),
     df_type = drop_bit 40 d AND 0xf,
     df_s = bit d 44,
     df_dpl = drop_bit 45 d AND 3,
     df_p = bit d 47,
     df_avl = bit d 52,
     df_l = bit d 53,
     df_db = bit d 54,
     df_g = bit d 55\<rparr>"

lemma SEG64_decode_lemma:
  assumes "t < 16"
  shows "desc_decode (SEG64 (push_bit 40 t) dpl) =
     \<lparr>df_base = 0, df_limit = 0xfffff, df_type = t OR 1, df_s = True, df_dpl = dpl AND 3, df_p = True,
      df_avl = False, df_l = True, df_db = False, df_g = True\<rparr>"
proof -
  define d where "d = dpl AND 3"
  have "unat d < 4" using unat_mask_less [of dpl 2] by (simp add: d_def mask_eq_exp_minus_1)
  then have d: "d \<in> {0, 1, 2, 3}" using small_word [of d 4] by (simp add: upt_rec)
  have "unat t < 16" using assms by (simp add: word_less_nat_alt)
  then have t: "t \<in> {0, 1, 2, 3, 4, 5, 6, 7, 8, 9, 10, 11, 12, 13, 14, 15}"
    using small_word [of t 16] by (simp add: upt_rec)
  have "desc_decode (push_bit 40 t OR SEG_S OR SEG_P OR SEG_G OR SEG_L OR SEG_A OR push_bit 45 d
       OR SEG_LIM 0xffffffff) =
     \<lparr>df_base = 0, df_limit = 0xfffff, df_type = t OR 1, df_s = True, df_dpl = d, df_p = True,
      df_avl = False, df_l = True, df_db = False, df_g = True\<rparr>"
    using d t by (elim insertE emptyE; simp add: desc_decode_def seg_macros)
  then show ?thesis unfolding d_def SEG64_def SEG_DPL_def .
qed

section \<open>Segment attributes\<close>

record segment =
  seg_base :: u64
  seg_limit :: u32
  seg_selector :: u16
  seg_type :: u8
  seg_present :: u8
  seg_dpl :: u8
  seg_db :: u8
  seg_s :: u8
  seg_l :: u8
  seg_g :: u8
  seg_avl :: u8
  seg_unusable :: u8
  seg_padding :: u8

record sel_layout =
  SVM_SELECTOR_TYPE_MASK :: u32
  SVM_SELECTOR_S_SHIFT :: nat
  SVM_SELECTOR_DPL_SHIFT :: nat
  SVM_SELECTOR_P_SHIFT :: nat
  SVM_SELECTOR_AVL_SHIFT :: nat
  SVM_SELECTOR_L_SHIFT :: nat
  SVM_SELECTOR_DB_SHIFT :: nat
  SVM_SELECTOR_G_SHIFT :: nat

definition svm_segment_access_rights :: "sel_layout \<Rightarrow> segment \<Rightarrow> u32" where
  "svm_segment_access_rights h var =
     (if seg_unusable var \<noteq> 0 \<or> seg_present var = 0 then push_bit 16 1
      else (ucast (seg_type var) AND SVM_SELECTOR_TYPE_MASK h)
        OR push_bit (SVM_SELECTOR_S_SHIFT h) (ucast (seg_s var) AND 1)
        OR push_bit (SVM_SELECTOR_DPL_SHIFT h) (ucast (seg_s var) AND 3)
        OR push_bit (SVM_SELECTOR_P_SHIFT h) (ucast (seg_present var) AND 1)
        OR push_bit (SVM_SELECTOR_AVL_SHIFT h) (ucast (seg_avl var) AND 1)
        OR push_bit (SVM_SELECTOR_L_SHIFT h) (ucast (seg_l var) AND 1)
        OR push_bit (SVM_SELECTOR_DB_SHIFT h) (ucast (seg_db var) AND 1)
        OR push_bit (SVM_SELECTOR_G_SHIFT h) (ucast (seg_g var) AND 1))"

text \<open>The layout of the attribute word in AMD's manual, and its decoding.\<close>

definition amd_layout :: sel_layout where
  "amd_layout = \<lparr>SVM_SELECTOR_TYPE_MASK = 0xf, SVM_SELECTOR_S_SHIFT = 4, SVM_SELECTOR_DPL_SHIFT = 5,
     SVM_SELECTOR_P_SHIFT = 7, SVM_SELECTOR_AVL_SHIFT = 8, SVM_SELECTOR_L_SHIFT = 9,
     SVM_SELECTOR_DB_SHIFT = 10, SVM_SELECTOR_G_SHIFT = 11\<rparr>"

record attr_fields =
  at_type :: u32
  at_s :: bool
  at_dpl :: u32
  at_p :: bool
  at_avl :: bool
  at_l :: bool
  at_db :: bool
  at_g :: bool
  at_rest :: u32

definition attr_decode :: "u32 \<Rightarrow> attr_fields" where
  "attr_decode a = \<lparr>at_type = a AND 0xf, at_s = bit a 4, at_dpl = drop_bit 5 a AND 3, at_p = bit a 7,
     at_avl = bit a 8, at_l = bit a 9, at_db = bit a 10, at_g = bit a 11, at_rest = drop_bit 12 a\<rparr>"

text \<open>One bit of each field of the attribute word.\<close>

lemma bit_field_1: "k < 32 \<Longrightarrow> bit (push_bit k (x AND 1) :: u32) n \<longleftrightarrow> n = k \<and> bit x 0"
  unfolding bit_push_bit_iff bit_and_iff bit_1_iff by auto

lemma bit_field_3:
  "k < 31 \<Longrightarrow> bit (push_bit k (x AND 3) :: u32) n \<longleftrightarrow> n = k \<and> bit x 0 \<or> n = Suc k \<and> bit x 1"
proof -
  have three: "bit (3 :: u32) m \<longleftrightarrow> m = 0 \<or> m = 1" for m
    using bit_mask_iff [where 'a = u32, of 2 m] by (auto simp: mask_eq_exp_minus_1)
  assume "k < 31"
  moreover have "m - k = 0 \<longleftrightarrow> m = k" "m - k = 1 \<longleftrightarrow> m = Suc k" if "k \<le> m" for m :: nat
    using that by auto
  ultimately show ?thesis
    unfolding bit_push_bit_iff bit_and_iff three by auto
qed

lemma bit_field_type: "bit (x AND 15 :: u32) n \<longleftrightarrow> n < 4 \<and> bit x n"
proof -
  have "bit (15 :: u32) n \<longleftrightarrow> n < 4"
    using bit_mask_iff [where 'a = u32, of 4 n] by (auto simp: mask_eq_exp_minus_1)
  then show ?thesis by (auto simp: bit_and_iff)
qed

lemma bit_ucast_u8: "bit (ucast (x :: u8) :: u32) n = bit x n"
  by (auto simp: bit_unsigned_iff dest: bit_imp_le_length)

lemma access_rights_bits:
  assumes "seg_unusable var = 0" and "seg_present var \<noteq> 0"
  shows "bit (svm_segment_access_rights amd_layout var) n =
    (if n < 4 then bit (seg_type var) n
     else if n = 4 then bit (seg_s var) 0
     else if n = 5 then bit (seg_s var) 0
     else if n = 6 then bit (seg_s var) 1
     else if n = 7 then bit (seg_present var) 0
     else if n = 8 then bit (seg_avl var) 0
     else if n = 9 then bit (seg_l var) 0
     else if n = 10 then bit (seg_db var) 0
     else if n = 11 then bit (seg_g var) 0
     else False)"
proof -
  have "bit (svm_segment_access_rights amd_layout var) n \<longleftrightarrow>
     n < 4 \<and> bit (seg_type var) n \<or> n = 4 \<and> bit (seg_s var) 0 \<or>
     (n = 5 \<and> bit (seg_s var) 0 \<or> n = Suc 5 \<and> bit (seg_s var) 1) \<or>
     n = 7 \<and> bit (seg_present var) 0 \<or> n = 8 \<and> bit (seg_avl var) 0 \<or>
     n = 9 \<and> bit (seg_l var) 0 \<or> n = 10 \<and> bit (seg_db var) 0 \<or> n = 11 \<and> bit (seg_g var) 0"
    using assms unfolding svm_segment_access_rights_def amd_layout_def sel_layout.simps
    by (simp only: if_False bit_or_iff bit_field_type bit_field_1 bit_field_3 bit_ucast_u8
        simp_thms disj_assoc)
  then show ?thesis by auto
qed

lemma word_bits_eqI: "(\<And>n. bit x n = bit y n) \<Longrightarrow> x = y" for x y :: "'a::len word"
  by (simp add: bit_eq_iff)

lemma access_rights_attr:
  assumes "seg_unusable var = 0" and "seg_present var \<noteq> 0"
  shows "attr_decode (svm_segment_access_rights amd_layout var) =
    \<lparr>at_type = ucast (seg_type var) AND 0xf, at_s = bit (seg_s var) 0,
     at_dpl = ucast (seg_s var) AND 3, at_p = bit (seg_present var) 0, at_avl = bit (seg_avl var) 0,
     at_l = bit (seg_l var) 0, at_db = bit (seg_db var) 0, at_g = bit (seg_g var) 0, at_rest = 0\<rparr>"
proof -
  note bits = access_rights_bits [OF assms]
  have "svm_segment_access_rights amd_layout var AND 0xf = ucast (seg_type var) AND 0xf"
    by (rule word_bits_eqI) (simp add: bit_field_type bits bit_ucast_u8)
  moreover have "drop_bit 5 (svm_segment_access_rights amd_layout var) AND 3 = ucast (seg_s var) AND 3"
    by (rule word_bits_eqI)
      (simp only: bit_field_3 [of 0, simplified] bits bit_ucast_u8 bit_drop_bit_eq comp_def, auto)
  moreover have "drop_bit 12 (svm_segment_access_rights amd_layout var) = 0"
    by (rule word_bits_eqI) (simp add: bit_drop_bit_eq bits)
  ultimately show ?thesis by (simp add: attr_decode_def bits)
qed

section \<open>Properties\<close>

text \<open>
  Every 64-bit descriptor built by the macro has base 0, the largest limit in pages, the type
  bits asked for with the accessed bit, the privilege level asked for modulo 4, and is a present
  long-mode code or data segment.
\<close>

theorem SEG64_decode:
  assumes "t < 16"
  shows "desc_decode (SEG64 (push_bit 40 t) dpl) =
     \<lparr>df_base = 0, df_limit = 0xfffff, df_type = t OR 1, df_s = True, df_dpl = dpl AND 3, df_p = True,
      df_avl = False, df_l = True, df_db = False, df_g = True\<rparr>"
  using assms by (rule SEG64_decode_lemma)

theorem SEG64_decode_witness:
  "desc_decode (gdt_template ! 6) =
     \<lparr>df_base = 0, df_limit = 0xfffff, df_type = 0xb, df_s = True, df_dpl = 3, df_p = True,
      df_avl = False, df_l = True, df_db = False, df_g = True\<rparr>"
proof -
  have "gdt_template ! 6 = SEG64 (push_bit 40 10) 3"
    by (simp add: gdt_template_def seg_macros)
  then show ?thesis using SEG64_decode [of 10 3] by simp
qed

text \<open>
  The attribute word of a usable, present segment decodes to the segment's type, S, P, AVL, L,
  D/B and G fields, and nothing is set outside them; its privilege-level field holds the low bits of
  S, not the segment's DPL. A segment that is unusable or not present gives the single bit 16.
\<close>

theorem access_rights_decode:
  assumes "h = amd_layout"
  shows "if seg_unusable var \<noteq> 0 \<or> seg_present var = 0
     then svm_segment_access_rights h var = 0x10000
     else attr_decode (svm_segment_access_rights h var) =
      \<lparr>at_type = ucast (seg_type var) AND 0xf, at_s = bit (seg_s var) 0,
       at_dpl = ucast (seg_s var) AND 3, at_p = bit (seg_present var) 0, at_avl = bit (seg_avl var) 0,
       at_l = bit (seg_l var) 0, at_db = bit (seg_db var) 0, at_g = bit (seg_g var) 0, at_rest = 0\<rparr>"
  unfolding assms using access_rights_attr [of var]
  by (simp add: svm_segment_access_rights_def)

theorem access_rights_decode_witness:
  "at_type (attr_decode (svm_segment_access_rights amd_layout
     \<lparr>seg_base = 0, seg_limit = 0, seg_selector = 16, seg_type = 0xb, seg_present = 1, seg_dpl = 0,
      seg_db = 0, seg_s = 1, seg_l = 1, seg_g = 1, seg_avl = 0, seg_unusable = 0, seg_padding = 0\<rparr>)) = 0xb"
  using access_rights_decode [OF refl, of "\<lparr>seg_base = 0, seg_limit = 0, seg_selector = 16,
      seg_type = 0xb, seg_present = 1, seg_dpl = 0, seg_db = 0, seg_s = 1, seg_l = 1, seg_g = 1,
      seg_avl = 0, seg_unusable = 0, seg_padding = 0\<rparr>"]
  by simp

text \<open>
  The privilege level of a segment is lost: the attribute word is the same for every DPL, and
  for every code or data segment it says privilege level 1.
\<close>

theorem access_rights_lose_dpl:
  assumes "h = amd_layout" and "seg_unusable var = 0" "seg_present var \<noteq> 0" "seg_s var = 1"
  shows "svm_segment_access_rights h (var\<lparr>seg_dpl := d\<rparr>) = svm_segment_access_rights h var \<and>
     at_dpl (attr_decode (svm_segment_access_rights h (var\<lparr>seg_dpl := d\<rparr>))) = 1"
  unfolding assms(1) using access_rights_attr [of "var\<lparr>seg_dpl := d\<rparr>"] assms(2-4)
  by (simp add: svm_segment_access_rights_def)

theorem access_rights_lose_dpl_witness:
  "at_dpl (attr_decode (svm_segment_access_rights amd_layout
     \<lparr>seg_base = 0, seg_limit = 0, seg_selector = 0x2b, seg_type = 3, seg_present = 1, seg_dpl = 3,
      seg_db = 0, seg_s = 1, seg_l = 0, seg_g = 1, seg_avl = 0, seg_unusable = 0, seg_padding = 0\<rparr>)) = 1"
  using conjunct2 [OF access_rights_lose_dpl [OF refl, of "\<lparr>seg_base = 0, seg_limit = 0,
      seg_selector = 0x2b, seg_type = 3, seg_present = 1, seg_dpl = 0, seg_db = 0, seg_s = 1, seg_l = 0,
      seg_g = 1, seg_avl = 0, seg_unusable = 0, seg_padding = 0\<rparr>" 3]]
  by simp

end
