(* ===== verification/Guest_Descriptors.thy ===== *)
theory Guest_Descriptors
  imports Cell_Store Svm_Descriptors
begin

unbundle bit_operations_syntax

text \<open>
  The descriptor tables of the guest: the image of GDT, LDT, IDT and TSS (\<^verbatim>\<open>src/asm/table_desc.S\<close>), the
  selectors and vectors of \<^verbatim>\<open>src/asm/system_data.h\<close>, the routines that write a system descriptor and an
  interrupt gate (\<^verbatim>\<open>src/asm/libs64.S\<close>), and the steps of \<^verbatim>\<open>entry64\<close> (\<^verbatim>\<open>src/asm/learn.S\<close>) that put the tables in
  place. Memory is a function from virtual addresses to bytes, written little-endian; the readings of
  a gate and of a system descriptor follow the architecture manual. The link address of the image,
  the addresses of the handlers and what the assembler leaves in alignment gaps are parameters.
\<close>

section \<open>Byte memory\<close>

type_synonym byte_mem = "u64 \<Rightarrow> u8"

fun store_bytes :: "u64 \<Rightarrow> u8 list \<Rightarrow> byte_mem \<Rightarrow> byte_mem" where
  "store_bytes a [] m = m"
| "store_bytes a (b # bs) m = store_bytes (a + 1) bs (m(a := b))"

primrec le_bytes :: "nat \<Rightarrow> u64 \<Rightarrow> u8 list" where
  "le_bytes 0 w = []"
| "le_bytes (Suc n) w = ucast w # le_bytes n (drop_bit 8 w)"

primrec le_word :: "u8 list \<Rightarrow> u64" where
  "le_word [] = 0"
| "le_word (b # bs) = ucast b OR push_bit 8 (le_word bs)"

definition load_bytes :: "u64 \<Rightarrow> nat \<Rightarrow> byte_mem \<Rightarrow> u8 list" where
  "load_bytes a n m = map (\<lambda>k. m (a + of_nat k)) [0..<n]"

definition store_q :: "u64 \<Rightarrow> u64 \<Rightarrow> byte_mem \<Rightarrow> byte_mem" where
  "store_q a w = store_bytes a (le_bytes 8 w)"

definition store_d :: "u64 \<Rightarrow> u64 \<Rightarrow> byte_mem \<Rightarrow> byte_mem" where
  "store_d a w = store_bytes a (le_bytes 4 w)"

definition store_w :: "u64 \<Rightarrow> u64 \<Rightarrow> byte_mem \<Rightarrow> byte_mem" where
  "store_w a w = store_bytes a (le_bytes 2 w)"

definition store_b :: "u64 \<Rightarrow> u64 \<Rightarrow> byte_mem \<Rightarrow> byte_mem" where
  "store_b a w = store_bytes a (le_bytes 1 w)"

lemma length_le_bytes [simp]: "length (le_bytes n w) = n"
  by (induction n arbitrary: w) simp_all

lemma le_word_bytes: "le_word (le_bytes n w) = take_bit (8 * n) w"
proof (induction n arbitrary: w)
  case (Suc n)
  show ?case
  proof (rule bit_word_eqI)
    fix k assume "k < LENGTH(64)"
    then show "bit (le_word (le_bytes (Suc n) w)) k = bit (take_bit (8 * Suc n) w) k"
      by (auto simp: Suc bit_or_iff bit_push_bit_iff bit_take_bit_iff bit_drop_bit_eq bit_unsigned_iff)
  qed
qed simp

lemma take_bit_64: "take_bit 64 w = w" for w :: u64
  by (rule bit_word_eqI) (simp add: bit_take_bit_iff)

lemma le_word_8: "le_word (le_bytes 8 w) = w"
  using le_word_bytes [of 8 w] by (simp add: take_bit_64 del: le_bytes.simps)

lemma le_bytes_nth: "k < n \<Longrightarrow> le_bytes n w ! k = ucast (drop_bit (8 * k) w)"
proof (induction n arbitrary: k w)
  case (Suc n)
  then show ?case by (cases k) (simp_all add: add.commute)
qed simp

lemma offset_inject:
  assumes "p < 2 ^ 32" "q < 2 ^ 32"
  shows "a + of_nat p = a + (of_nat q :: u64) \<longleftrightarrow> p = q"
proof -
  have "unat (of_nat p :: u64) = p" "unat (of_nat q :: u64) = q" using assms by (simp_all add: unat_of_nat_small)
  then have "of_nat p = (of_nat q :: u64) \<longleftrightarrow> p = q" by metis
  then show ?thesis unfolding add_left_cancel .
qed

text \<open>What a sequence of stored bytes leaves at an offset of the same region.\<close>

lemma store_bytes_offset:
  assumes "p + length bs \<le> 2 ^ 32" "q < 2 ^ 32"
  shows "store_bytes (a + of_nat p) bs m (a + of_nat q) =
    (if p \<le> q \<and> q < p + length bs then bs ! (q - p) else m (a + of_nat q))"
  using assms
proof (induction bs arbitrary: p m)
  case (Cons b bs)
  have p: "a + of_nat p + 1 = a + of_nat (Suc p)" by simp
  have q: "(a + of_nat q = a + of_nat p) = (q = p)" using Cons.prems by (intro offset_inject) simp_all
  have "store_bytes (a + of_nat (Suc p)) bs (m(a + of_nat p := b)) (a + of_nat q) =
      (if Suc p \<le> q \<and> q < Suc p + length bs then bs ! (q - Suc p) else (m(a + of_nat p := b)) (a + of_nat q))"
    using Cons.prems by (intro Cons.IH) simp_all
  then show ?case unfolding store_bytes.simps p fun_upd_apply q by (auto simp: nth_Cons' simp del: of_nat_Suc)
qed auto

lemmas store_offsets = store_q_def store_d_def store_w_def store_b_def

lemma load_bytes_offset: "load_bytes (a + of_nat q) n m = map (\<lambda>k. m (a + of_nat k)) [q..<q + n]"
  by (rule nth_equalityI) (simp_all add: load_bytes_def add.assoc)

lemma load_bytes_store:
  assumes "p + length bs \<le> 2 ^ 32" "q + n \<le> 2 ^ 32" and "q + n \<le> p \<or> p + length bs \<le> q"
  shows "load_bytes (a + of_nat q) n (store_bytes (a + of_nat p) bs m) = load_bytes (a + of_nat q) n m"
  unfolding load_bytes_offset using assms(2,3) by (auto simp: store_bytes_offset [OF assms(1)])

lemma load_bytes_stored:
  assumes "p + length bs \<le> 2 ^ 32" "q + n \<le> p + length bs" "p \<le> q"
  shows "load_bytes (a + of_nat q) n (store_bytes (a + of_nat p) bs m) = take n (drop (q - p) bs)"
  unfolding load_bytes_offset using assms
  by (intro nth_equalityI) (auto simp: store_bytes_offset [OF assms(1)] simp del: of_nat_add)

text \<open>A region as the list of its bytes: a store inside replaces a part, a store outside leaves it.\<close>

definition overlay :: "nat \<Rightarrow> 'a list \<Rightarrow> 'a list \<Rightarrow> 'a list" where
  "overlay p bs xs = take p xs @ bs @ drop (p + length bs) xs"

lemma load_bytes_overlay:
  assumes "p + length bs \<le> n" "n \<le> 2 ^ 32"
  shows "load_bytes a n (store_bytes (a + of_nat p) bs m) = overlay p bs (load_bytes a n m)"
proof -
  have "p + length bs \<le> 2 ^ 32" using assms by simp
  then show ?thesis using assms
    by (intro nth_equalityI) (auto simp: load_bytes_def overlay_def store_bytes_offset nth_append)
qed

lemma length_load_bytes [simp]: "length (load_bytes a n m) = n"
  by (simp add: load_bytes_def)

lemma le_bytes_8:
  "le_bytes 8 w = [ucast w, ucast (drop_bit 8 w), ucast (drop_bit 16 w), ucast (drop_bit 24 w),
     ucast (drop_bit 32 w), ucast (drop_bit 40 w), ucast (drop_bit 48 w), ucast (drop_bit 56 w)]"
  by (simp add: eval_nat_numeral)

lemma le_bytes_4:
  "le_bytes 4 w = [ucast w, ucast (drop_bit 8 w), ucast (drop_bit 16 w), ucast (drop_bit 24 w)]"
  by (simp add: eval_nat_numeral)

lemma le_bytes_2: "le_bytes 2 w = [ucast w, ucast (drop_bit 8 w)]"
  by (simp add: eval_nat_numeral)

lemma le_bytes_1: "le_bytes 1 w = [ucast w]"
  by simp

lemma slot_stores:
  "load_bytes a 16 (store_q a w m) = overlay 0 (le_bytes 8 w) (load_bytes a 16 m)"
  "load_bytes a 16 (store_q (a + 4) w m) = overlay 4 (le_bytes 8 w) (load_bytes a 16 m)"
  "load_bytes a 16 (store_d (a + 2) w m) = overlay 2 (le_bytes 4 w) (load_bytes a 16 m)"
  "load_bytes a 16 (store_w a w m) = overlay 0 (le_bytes 2 w) (load_bytes a 16 m)"
  "load_bytes a 16 (store_w (a + 2) w m) = overlay 2 (le_bytes 2 w) (load_bytes a 16 m)"
  "load_bytes a 16 (store_w (a + 4) w m) = overlay 4 (le_bytes 2 w) (load_bytes a 16 m)"
  "load_bytes a 16 (store_b (a + 5) w m) = overlay 5 (le_bytes 1 w) (load_bytes a 16 m)"
  "load_bytes a 16 (store_b (a + 6) w m) = overlay 6 (le_bytes 1 w) (load_bytes a 16 m)"
  using load_bytes_overlay [of 0 _ 16 a m] load_bytes_overlay [of 2 _ 16 a m] load_bytes_overlay [of 4 _ 16 a m]
    load_bytes_overlay [of 5 _ 16 a m] load_bytes_overlay [of 6 _ 16 a m]
  by (simp_all add: store_offsets del: One_nat_def store_bytes.simps)

lemmas byte_lists = le_bytes_8 le_bytes_4 le_bytes_2 le_bytes_1

lemma list_16:
  assumes "length xs = 16"
  obtains x0 x1 x2 x3 x4 x5 x6 x7 x8 x9 x10 x11 x12 x13 x14 x15
  where "xs = [x0, x1, x2, x3, x4, x5, x6, x7, x8, x9, x10, x11, x12, x13, x14, x15]"
  using assms by (auto simp: eval_nat_numeral length_Suc_conv)

section \<open>Selectors, vectors and types\<close>

definition code16_sel :: u64 where "code16_sel = 0x08"
definition data16_sel :: u64 where "data16_sel = 0x10"
definition code32_sel :: u64 where "code32_sel = 0x18"
definition data32_sel :: u64 where "data32_sel = 0x20"
definition kernel_code64_sel :: u64 where "kernel_code64_sel = 0x28"
definition kernel_data64_sel :: u64 where "kernel_data64_sel = 0x30"
definition user_code32_sel :: u64 where "user_code32_sel = 0x38"
definition user_data32_sel :: u64 where "user_data32_sel = 0x40"
definition user_code64_sel :: u64 where "user_code64_sel = 0x48"
definition user_data64_sel :: u64 where "user_data64_sel = 0x50"
definition tss64_sel :: u64 where "tss64_sel = 0x58"
definition call_gate_sel :: u64 where "call_gate_sel = 0x68"
definition conforming_code_sel :: u64 where "conforming_code_sel = 0x78"
definition sysret_cs_sel :: u64 where "sysret_cs_sel = 0x80"
definition data64_sel :: u64 where "data64_sel = 0x98"
definition test_tss_sel :: u64 where "test_tss_sel = 0xa0"
definition ldt_sel :: u64 where "ldt_sel = 0xb0"
definition conforming_callgate_sel :: u64 where "conforming_callgate_sel = 0xc0"
definition processor_tss_sel :: u64 where "processor_tss_sel = 0xd0"
definition reserved_sel :: u64 where "reserved_sel = 0x150"

definition TSS64 :: u64 where "TSS64 = 0x9"
definition INTERRUPT_GATE64 :: u64 where "INTERRUPT_GATE64 = 0xe"

definition KERNEL_CS :: u64 where "KERNEL_CS = kernel_code64_sel"
definition KERNEL_SS :: u64 where "KERNEL_SS = kernel_data64_sel"
definition USER_CS :: u64 where "USER_CS = user_code64_sel"
definition USER_SS :: u64 where "USER_SS = user_data64_sel"
definition USER_DS :: u64 where "USER_DS = data64_sel"

definition LDT_KERNEL_CS :: u64 where "LDT_KERNEL_CS = 0x08 OR 4"
definition LDT_KERNEL_SS :: u64 where "LDT_KERNEL_SS = 0x10 OR 4"
definition LDT_USER32_CS :: u64 where "LDT_USER32_CS = 0x18 OR 4"
definition LDT_USER32_SS :: u64 where "LDT_USER32_SS = 0x20 OR 4"
definition LDT_USER_CS :: u64 where "LDT_USER_CS = 0x28 OR 4"
definition LDT_USER_SS :: u64 where "LDT_USER_SS = 0x30 OR 4"

lemmas selector_defs = code16_sel_def data16_sel_def code32_sel_def data32_sel_def kernel_code64_sel_def
  kernel_data64_sel_def user_code32_sel_def user_data32_sel_def user_code64_sel_def user_data64_sel_def
  tss64_sel_def call_gate_sel_def test_tss_sel_def ldt_sel_def conforming_callgate_sel_def conforming_code_sel_def sysret_cs_sel_def data64_sel_def processor_tss_sel_def reserved_sel_def
  KERNEL_CS_def KERNEL_SS_def USER_CS_def USER_SS_def USER_DS_def
  LDT_KERNEL_CS_def LDT_KERNEL_SS_def LDT_USER32_CS_def LDT_USER32_SS_def LDT_USER_CS_def LDT_USER_SS_def

definition DE_HANDLER_VECTOR :: u64 where "DE_HANDLER_VECTOR = 0x0"
definition DB_HANDLER_VECTOR :: u64 where "DB_HANDLER_VECTOR = 0x1"
definition NMI_HANDLER_VECTOR :: u64 where "NMI_HANDLER_VECTOR = 0x2"
definition OF_HANDLER_VECTOR :: u64 where "OF_HANDLER_VECTOR = 0x4"
definition UD_HANDLER_VECTOR :: u64 where "UD_HANDLER_VECTOR = 0x6"
definition NM_HANDLER_VECTOR :: u64 where "NM_HANDLER_VECTOR = 0x7"
definition DF_HANDLER_VECTOR :: u64 where "DF_HANDLER_VECTOR = 0x8"
definition TS_HANDLER_VECTOR :: u64 where "TS_HANDLER_VECTOR = 0xa"
definition NP_HANDLER_VECTOR :: u64 where "NP_HANDLER_VECTOR = 0xb"
definition GP_HANDLER_VECTOR :: u64 where "GP_HANDLER_VECTOR = 0xd"
definition PF_HANDLER_VECTOR :: u64 where "PF_HANDLER_VECTOR = 0xe"
definition MC_HANDLER_VECTOR :: u64 where "MC_HANDLER_VECTOR = 0x12"
definition BP_HANDLER_VECTOR :: u64 where "BP_HANDLER_VECTOR = 0x3"
definition BR_HANDLER_VECTOR :: u64 where "BR_HANDLER_VECTOR = 0x5"
definition SS_HANDLER_VECTOR :: u64 where "SS_HANDLER_VECTOR = 0xc"
definition MF_HANDLER_VECTOR :: u64 where "MF_HANDLER_VECTOR = 0x10"
definition AC_HANDLER_VECTOR :: u64 where "AC_HANDLER_VECTOR = 0x11"
definition XF_HANDLER_VECTOR :: u64 where "XF_HANDLER_VECTOR = 0x13"
definition SYSTEM_SERVICE_VECTOR :: u64 where "SYSTEM_SERVICE_VECTOR = 0x40"
definition APIC_LINT0_VECTOR :: u64 where "APIC_LINT0_VECTOR = 0x31"
definition APIC_LINT1_VECTOR :: u64 where "APIC_LINT1_VECTOR = 0x32"
definition APIC_PERFMON_VECTOR :: u64 where "APIC_PERFMON_VECTOR = 0x33"
definition APIC_ERROR_VECTOR :: u64 where "APIC_ERROR_VECTOR = 0x34"
definition APIC_TIMER_VECTOR :: u64 where "APIC_TIMER_VECTOR = 0x30"

lemmas vector_defs = DE_HANDLER_VECTOR_def DB_HANDLER_VECTOR_def NMI_HANDLER_VECTOR_def OF_HANDLER_VECTOR_def
  UD_HANDLER_VECTOR_def NM_HANDLER_VECTOR_def DF_HANDLER_VECTOR_def TS_HANDLER_VECTOR_def NP_HANDLER_VECTOR_def
  GP_HANDLER_VECTOR_def PF_HANDLER_VECTOR_def MC_HANDLER_VECTOR_def APIC_TIMER_VECTOR_def
  BP_HANDLER_VECTOR_def BR_HANDLER_VECTOR_def SS_HANDLER_VECTOR_def MF_HANDLER_VECTOR_def AC_HANDLER_VECTOR_def
  XF_HANDLER_VECTOR_def SYSTEM_SERVICE_VECTOR_def APIC_LINT0_VECTOR_def APIC_LINT1_VECTOR_def
  APIC_PERFMON_VECTOR_def APIC_ERROR_VECTOR_def

section \<open>Interrupt gates\<close>

text \<open>
  The two routines differ in the type byte only: the gate of a user interrupt has privilege level 3.
  The address of the table is what \<^verbatim>\<open>sidt\<close> reads.
\<close>

definition write_gate :: "u64 \<Rightarrow> u64 \<Rightarrow> u64 \<Rightarrow> u64 \<Rightarrow> byte_mem \<Rightarrow> byte_mem" where
  "write_gate type idt vector handler m =
     (let a = idt + push_bit 4 vector;
          m = store_q a handler m;
          m = store_q (a + 4) handler m;
          m = store_w (a + 2) kernel_code64_sel m;
          m = store_w (a + 4) 0 m
      in store_b (a + 5) type m)"

definition set_interrupt_handler :: "u64 \<Rightarrow> u64 \<Rightarrow> u64 \<Rightarrow> byte_mem \<Rightarrow> byte_mem" where
  "set_interrupt_handler = write_gate (0x80 OR INTERRUPT_GATE64)"

definition set_user_interrupt_handler :: "u64 \<Rightarrow> u64 \<Rightarrow> u64 \<Rightarrow> byte_mem \<Rightarrow> byte_mem" where
  "set_user_interrupt_handler = write_gate (0xE0 OR INTERRUPT_GATE64)"

text \<open>A gate of 16 bytes, as the processor reads it.\<close>

record gate =
  gt_offset :: u64
  gt_selector :: u64
  gt_ist :: u8
  gt_type :: u8
  gt_s :: bool
  gt_dpl :: u8
  gt_present :: bool

definition gate_decode :: "u8 list \<Rightarrow> gate" where
  "gate_decode d = \<lparr>gt_offset = le_word (take 2 d @ take 6 (drop 6 d)), gt_selector = le_word (take 2 (drop 2 d)),
     gt_ist = d ! 4 AND 7, gt_type = d ! 5 AND 0xf, gt_s = bit (d ! 5) 4, gt_dpl = drop_bit 5 (d ! 5) AND 3,
     gt_present = bit (d ! 5) 7\<rparr>"

definition gate_at :: "byte_mem \<Rightarrow> u64 \<Rightarrow> u64 \<Rightarrow> gate" where
  "gate_at m idt vector = gate_decode (load_bytes (idt + push_bit 4 vector) 16 m)"

definition interrupt_gate :: "u8 \<Rightarrow> u64 \<Rightarrow> gate" where
  "interrupt_gate dpl h = \<lparr>gt_offset = h, gt_selector = kernel_code64_sel, gt_ist = 0, gt_type = 0xe, gt_s = False,
     gt_dpl = dpl, gt_present = True\<rparr>"

text \<open>The table has 0x50 gates.\<close>

definition IDT_VECTORS :: u64 where "IDT_VECTORS = 0x50"

lemma gate_offset: "unat v < 2 ^ 24 \<Longrightarrow> idt + push_bit 4 v = idt + of_nat (16 * unat v)" for v :: u64
  by (simp add: push_bit_eq_mult mult.commute)

lemma write_gate_bytes:
  assumes "load_bytes (idt + push_bit 4 v) 16 m = [x0, x1, x2, x3, x4, x5, x6, x7, x8, x9, x10, x11, x12, x13, x14, x15]"
  shows "load_bytes (idt + push_bit 4 v) 16 (write_gate type idt v h m) =
    [ucast h, ucast (drop_bit 8 h), ucast kernel_code64_sel, ucast (drop_bit 8 kernel_code64_sel), 0, ucast type,
     ucast (drop_bit 16 h), ucast (drop_bit 24 h), ucast (drop_bit 32 h), ucast (drop_bit 40 h), ucast (drop_bit 48 h),
     ucast (drop_bit 56 h), x12, x13, x14, x15]"
  unfolding write_gate_def Let_def slot_stores assms overlay_def byte_lists by simp

lemma write_gate_decoded:
  assumes "ucast type = (0x8e :: u8) \<or> ucast type = (0xee :: u8)"
  shows "gate_at (write_gate type idt v h m) idt v = interrupt_gate (if ucast type = (0x8e :: u8) then 0 else 3) h"
proof -
  have l: "length (load_bytes (idt + push_bit 4 v) 16 m) = 16" by simp
  show ?thesis
  proof (rule list_16 [OF l], goal_cases)
    case 1
    have h: "le_word [ucast h, ucast (drop_bit 8 h), ucast (drop_bit 16 h), ucast (drop_bit 24 h), ucast (drop_bit 32 h),
        ucast (drop_bit 40 h), ucast (drop_bit 48 h), ucast (drop_bit 56 h)] = h"
      unfolding le_bytes_8 [symmetric] by (rule le_word_8)
    have sel: "le_word [ucast kernel_code64_sel, ucast (drop_bit 8 kernel_code64_sel)] = kernel_code64_sel"
      by (simp add: kernel_code64_sel_def)
    show ?case unfolding gate_at_def write_gate_bytes [OF 1] gate_decode_def interrupt_gate_def using assms
      by (auto simp: h sel simp del: le_word.simps)
  qed
qed

text \<open>A write to one region of the table, a multiple of 16 away from another, leaves the other.\<close>

lemma store_other_slot:
  assumes "i < 2 ^ 24" "j < 2 ^ 24" "i \<noteq> j" "k + length bs \<le> 16"
  shows "load_bytes (a + of_nat (16 * j)) 16 (store_bytes (a + of_nat (16 * i) + of_nat k) bs m) =
    load_bytes (a + of_nat (16 * j)) 16 m"
proof -
  have "load_bytes (a + of_nat (16 * j)) 16 (store_bytes (a + of_nat (16 * i + k)) bs m) =
      load_bytes (a + of_nat (16 * j)) 16 m"
    using assms by (intro load_bytes_store) auto
  then show ?thesis by (simp add: add.assoc)
qed

lemma write_gate_other:
  assumes "unat v < 2 ^ 24" "unat w < 2 ^ 24" "v \<noteq> w"
  shows "gate_at (write_gate type idt v h m) idt w = gate_at m idt w"
proof -
  have ne: "unat v \<noteq> unat w" using assms(3) unsigned_word_eqI by blast
  note other = store_other_slot [OF assms(1,2) ne, of _ _ idt]
  have "load_bytes (idt + push_bit 4 w) 16 (write_gate type idt v h m) = load_bytes (idt + push_bit 4 w) 16 m"
    unfolding write_gate_def Let_def store_offsets gate_offset [OF assms(1)] gate_offset [OF assms(2)]
    using other [of 0 "le_bytes 8 h"] other [of 4 "le_bytes 8 h"] other [of 2 "le_bytes 2 kernel_code64_sel"]
      other [of 4 "le_bytes 2 0"] other [of 5 "le_bytes 1 type"]
    by (simp del: One_nat_def le_bytes.simps store_bytes.simps of_nat_mult)
  then show ?thesis by (simp add: gate_at_def)
qed

text \<open>Handlers put into a table of gates: the store of decoded gates.\<close>

interpretation gates: cell_view "\<lambda>_. True" "\<lambda>v. v < IDT_VECTORS" "\<lambda>m v. gate_at m idt v" "interrupt_gate 0"
    "set_interrupt_handler idt" for idt
proof unfold_locales
  fix m k j h assume "k < IDT_VECTORS" "j < IDT_VECTORS"
  then have "unat k < 2 ^ 24" "unat j < 2 ^ 24" by (simp_all add: IDT_VECTORS_def word_less_nat_alt)
  then show "gate_at (set_interrupt_handler idt k h m) idt j = (if j = k then interrupt_gate 0 h else gate_at m idt j)"
    using write_gate_other [of k j] write_gate_decoded [of "0x80 OR INTERRUPT_GATE64" idt j h m]
    by (auto simp: set_interrupt_handler_def INTERRUPT_GATE64_def)
qed simp

section \<open>System descriptors\<close>

text \<open>
  \<^verbatim>\<open>shrd $17\<close> on a 16-bit operand shifts by more than the width of the operand, of which the
  architecture leaves the result open: it is the parameter \<open>shrd\<close>. What it yields is byte 6 of
  the descriptor, the upper limit bits and the granularity.
\<close>

definition set_system_descriptor ::
    "(u16 \<Rightarrow> u16 \<Rightarrow> u16) \<Rightarrow> u64 \<Rightarrow> u64 \<Rightarrow> u64 \<Rightarrow> u64 \<Rightarrow> u64 \<Rightarrow> byte_mem \<Rightarrow> byte_mem" where
  "set_system_descriptor shrd gdt selector limit base type m =
     (let a = gdt + (selector AND 0xfff8);
          m = store_q (a + 4) base m;
          m = store_d (a + 2) base m;
          m = store_b (a + 5) (type OR 0x80) m;
          high = drop_bit 12 limit;
          r8 = (if high = 0 then limit else high);
          dil = (if high = 0 then 0 else 1);
          di = (ucast limit AND 0xff00) OR dil;
          m = store_w a r8 m;
          r8w = shrd di (push_bit 5 (ucast r8))
      in store_b (a + 6) (ucast r8w) m)"

text \<open>A 16-byte system descriptor, as the processor reads it; the upper limit bits are left out.\<close>

record system_descriptor =
  sd_base :: u64
  sd_limit_low :: u64
  sd_type :: u8
  sd_s :: bool
  sd_dpl :: u8
  sd_present :: bool

definition system_decode :: "u8 list \<Rightarrow> system_descriptor" where
  "system_decode d = \<lparr>sd_base = le_word (take 3 (drop 2 d) @ take 5 (drop 7 d)), sd_limit_low = le_word (take 2 d),
     sd_type = d ! 5 AND 0xf, sd_s = bit (d ! 5) 4, sd_dpl = drop_bit 5 (d ! 5) AND 3, sd_present = bit (d ! 5) 7\<rparr>"

lemma system_descriptor_decoded:
  assumes "limit < 0x1000"
  shows "system_decode (load_bytes (gdt + (sel AND 0xfff8)) 16 (set_system_descriptor shrd gdt sel limit base TSS64 m)) =
    \<lparr>sd_base = base, sd_limit_low = limit, sd_type = 9, sd_s = False, sd_dpl = 0, sd_present = True\<rparr>"
proof -
  let ?a = "gdt + (sel AND 0xfff8)"
  have high: "drop_bit 12 limit = 0"
    using assms by (simp add: drop_bit_eq_div word_less_nat_alt unat_div word_arith_nat_div)
  have l: "length (load_bytes ?a 16 m) = 16" by simp
  have b: "le_word [ucast base, ucast (drop_bit 8 base), ucast (drop_bit 16 base), ucast (drop_bit 24 base),
      ucast (drop_bit 32 base), ucast (drop_bit 40 base), ucast (drop_bit 48 base), ucast (drop_bit 56 base)] = base"
    unfolding le_bytes_8 [symmetric] by (rule le_word_8)
  have "take_bit 16 limit = limit" using assms by (intro take_bit_small) (simp add: word_less_nat_alt)
  then have lim: "le_word [ucast limit, ucast (drop_bit 8 limit)] = limit"
    using le_word_bytes [of 2 limit] unfolding le_bytes_2 by simp
  show ?thesis
  proof (rule list_16 [OF l], goal_cases)
    case 1
    show ?case
      unfolding set_system_descriptor_def Let_def slot_stores 1 overlay_def byte_lists system_decode_def high
      using b lim by (simp add: TSS64_def del: le_word.simps)
  qed
qed

section \<open>The tables of the image\<close>

definition SYSTEM_DATA64_BASE :: u64 where "SYSTEM_DATA64_BASE = 0xFFFFFFF800000000"

definition PROCESSOR0_IDT_RSP :: u64 where "PROCESSOR0_IDT_RSP = 0xFFFFFFFFFFE04800"
definition PROCESSOR0_IST1_RSP :: u64 where "PROCESSOR0_IST1_RSP = 0xFFFFFFFFFFE10800"

definition global_descriptor_table :: "u64 list" where
  "global_descriptor_table =
     [0, 0x00009a000000ffff, 0x000092000000ffff, 0x00cf9a000000ffff, 0x00cf92000000ffff,
      0x0020980000000000, 0x0000920000000001, 0x00cffa000000ffff, 0x00cff2000000ffff,
      0x0020f80000000000, 0x0000f20000000000, 0x67, 0, 0, 0, 0, 0,
      0x0000f20000000000, 0x0020f80000000000, 0x0000f00000000000, 0, 0, 0, 0, 0]"

definition local_descriptor_table :: "u64 list" where
  "local_descriptor_table =
     [0, 0x0020980000000000, 0x0000920000000000, 0x00cffa000000ffff, 0x00cff2000000ffff,
      0x0020f80000000000, 0x0000f20000000000]"

definition quads :: "u64 list \<Rightarrow> u8 list" where
  "quads ws = concat (map (le_bytes 8) ws)"

definition interrupt_descriptor_table :: "u8 list" where
  "interrupt_descriptor_table = concat (replicate 0x50 (quads [0, 0]))"

definition task_status_segment :: "u8 list" where
  "task_status_segment = le_bytes 4 0 @ quads [PROCESSOR0_IDT_RSP, 0, 0, 0, PROCESSOR0_IST1_RSP] @ replicate 0x3c 0"

definition processor_task_status_segment :: "u8 list" where
  "processor_task_status_segment = replicate (104 * 8) 0"

definition test_tss :: "u8 list" where
  "test_tss = le_bytes 4 0 @ quads [PROCESSOR0_IDT_RSP, 0, 0, 0, PROCESSOR0_IST1_RSP]"

text \<open>
  The image from \<^verbatim>\<open>system_data64_entry\<close> to \<^verbatim>\<open>system_data64_end\<close>, linked at an address; the two gaps before
  the aligned pointers hold what the assembler fills them with.
\<close>

definition system_data64 :: "(nat \<Rightarrow> u8) \<Rightarrow> u64 \<Rightarrow> u8 list" where
  "system_data64 fill link =
     quads global_descriptor_table @ quads local_descriptor_table @ interrupt_descriptor_table
     @ task_status_segment @ processor_task_status_segment @ test_tss
     @ map fill [0..<12]
     @ (le_bytes 2 (25 * 8 - 1) @ le_bytes 4 link) @ (le_bytes 2 (0x50 * 16 - 1) @ le_bytes 4 (link + 0x100))
     @ map fill [12..<16]
     @ (le_bytes 2 (25 * 8 - 1) @ le_bytes 8 link) @ (le_bytes 2 (0x50 * 16 - 1) @ le_bytes 8 (link + 0x100))"

text \<open>The offsets of the labels in it.\<close>

definition idt_offset :: nat where "idt_offset = 0x100"
definition tss_offset :: nat where "tss_offset = 0x600"
definition gdt_pointer64_offset :: nat where "gdt_pointer64_offset = 0x9f0"
definition idt_pointer64_offset :: nat where "idt_pointer64_offset = 0x9fa"

lemma quads_simps [simp]: "quads [] = []" "quads (w # ws) = le_bytes 8 w @ quads ws"
  by (simp_all add: quads_def)

lemma length_quads: "length (quads ws) = 8 * length ws"
  by (induction ws) simp_all

lemma quads_slice: "i < length ws \<Longrightarrow> take 8 (drop (8 * i) (quads ws @ xs)) = le_bytes 8 (ws ! i)"
proof (induction ws arbitrary: i)
  case (Cons w ws)
  then show ?case by (cases i) (simp_all del: le_bytes.simps)
qed simp

lemma interrupt_descriptor_table_zeros: "interrupt_descriptor_table = replicate 0x500 0"
proof -
  have "concat (replicate n (replicate k (0 :: u8))) = replicate (n * k) 0" for n k
    by (induction n) (simp_all add: replicate_add)
  moreover have "quads [0, 0] = replicate 16 0" by (simp add: le_bytes_8 eval_nat_numeral)
  ultimately show ?thesis by (simp add: interrupt_descriptor_table_def)
qed

lemma table_lengths:
  "length (quads global_descriptor_table) = 200" "length (quads local_descriptor_table) = 56"
  "length interrupt_descriptor_table = 0x500" "length task_status_segment = 104"
  "length processor_task_status_segment = 832" "length test_tss = 44"
  by (simp_all add: length_quads global_descriptor_table_def local_descriptor_table_def interrupt_descriptor_table_zeros
      task_status_segment_def processor_task_status_segment_def test_tss_def del: le_bytes.simps)

lemma length_system_data64: "length (system_data64 fill link) = 2564"
  by (simp add: system_data64_def table_lengths del: le_bytes.simps)

section \<open>Putting the tables in place\<close>

definition rep_movsb :: "nat \<Rightarrow> u64 \<Rightarrow> u64 \<Rightarrow> byte_mem \<Rightarrow> byte_mem" where
  "rep_movsb rcx rsi rdi m = fold (\<lambda>k m. m(rdi + of_nat k := m (rsi + of_nat k))) [0..<rcx] m"

text \<open>The base that \<^verbatim>\<open>lgdt\<close> and \<^verbatim>\<open>lidt\<close> load from a pointer, after its limit.\<close>

definition table_base :: "byte_mem \<Rightarrow> u64 \<Rightarrow> u64" where
  "table_base m p = le_word (load_bytes (p + 2) 8 m)"

datatype handler = DE_handler | NMI_handler | OF_handler | UD_handler | NM_handler | DF_handler | TS_handler
  | NP_handler | GP_handler | MC_handler | PF_handler | DB_handler | apic_timer_handler

definition installed_handlers :: "(u64 \<times> handler) list" where
  "installed_handlers =
     [(DE_HANDLER_VECTOR, DE_handler), (NMI_HANDLER_VECTOR, NMI_handler), (OF_HANDLER_VECTOR, OF_handler),
      (UD_HANDLER_VECTOR, UD_handler), (NM_HANDLER_VECTOR, NM_handler), (DF_HANDLER_VECTOR, DF_handler),
      (TS_HANDLER_VECTOR, TS_handler), (NP_HANDLER_VECTOR, NP_handler), (GP_HANDLER_VECTOR, GP_handler),
      (MC_HANDLER_VECTOR, MC_handler), (PF_HANDLER_VECTOR, PF_handler), (DB_HANDLER_VECTOR, DB_handler),
      (APIC_TIMER_VECTOR, apic_timer_handler)]"

text \<open>
  \<^verbatim>\<open>entry64\<close> from the copy of the image to the last handler: the results are the bases of GDT and IDT
  that the processor has loaded, and the memory. The image is at \<open>src\<close>, the handlers at their addresses.
\<close>

definition entry64_tables ::
    "(u16 \<Rightarrow> u16 \<Rightarrow> u16) \<Rightarrow> (handler \<Rightarrow> u64) \<Rightarrow> u64 \<Rightarrow> byte_mem \<Rightarrow> u64 \<times> u64 \<times> byte_mem" where
  "entry64_tables shrd addr src m =
     (let m = rep_movsb 2564 src SYSTEM_DATA64_BASE m;
          gdtp = SYSTEM_DATA64_BASE + of_nat gdt_pointer64_offset;
          m = store_q (gdtp + 2) SYSTEM_DATA64_BASE m;
          gdt = table_base m gdtp;
          idtp = SYSTEM_DATA64_BASE + of_nat idt_pointer64_offset;
          m = store_q (idtp + 2) (SYSTEM_DATA64_BASE + of_nat idt_offset) m;
          idt = table_base m idtp;
          m = set_system_descriptor shrd gdt tss64_sel 0x67 (SYSTEM_DATA64_BASE + of_nat tss_offset) TSS64 m;
          m = write_all (set_interrupt_handler idt) (map (\<lambda>(v, h). (v, addr h)) installed_handlers) m
      in (gdt, idt, m))"

lemma store_bytes_append:
  "store_bytes a (xs @ ys) m = store_bytes (a + of_nat (length xs)) ys (store_bytes a xs m)"
  by (induction xs arbitrary: a m) (simp_all add: add.assoc)

lemma store_bytes_outside: "\<forall>k < length bs. x \<noteq> a + of_nat k \<Longrightarrow> store_bytes a bs m x = m x"
proof (induction bs arbitrary: a m)
  case (Cons b bs)
  have "x \<noteq> a + 1 + of_nat k" if "k < length bs" for k
    using spec [OF Cons.prems, of "Suc k"] that by (simp add: add.assoc)
  then have "store_bytes (a + 1) bs (m(a := b)) x = (m(a := b)) x" by (intro Cons.IH) blast
  then show ?case using spec [OF Cons.prems, of 0] by simp
qed simp

text \<open>Copying to a place apart stores the bytes of the source there.\<close>

lemma rep_movsb_stores:
  assumes "\<forall>j < n. \<forall>k < n. rsi + of_nat j \<noteq> rdi + of_nat k"
  shows "rep_movsb n rsi rdi m = store_bytes rdi (load_bytes rsi n m) m"
  using assms
proof (induction n)
  case 0
  then show ?case by (simp add: rep_movsb_def load_bytes_def)
next
  case (Suc n)
  let ?m = "store_bytes rdi (load_bytes rsi n m) m"
  have "?m (rsi + of_nat n) = m (rsi + of_nat n)"
    using Suc.prems by (intro store_bytes_outside) auto
  moreover have "load_bytes rsi (Suc n) m = load_bytes rsi n m @ [m (rsi + of_nat n)]"
    by (simp add: load_bytes_def)
  moreover have "rep_movsb n rsi rdi m = ?m" using Suc.prems by (intro Suc.IH) auto
  ultimately show ?case by (simp add: rep_movsb_def store_bytes_append)
qed

text \<open>What lies outside the part that a routine writes stays.\<close>

lemma write_gate_region:
  assumes "unat v < 0x50" "p + 0x500 \<le> 2 ^ 32" "q + n \<le> 2 ^ 32" and "q + n \<le> p \<or> p + 0x500 \<le> q"
  shows "load_bytes (a + of_nat q) n (write_gate type (a + of_nat p) v h m) = load_bytes (a + of_nat q) n m"
proof -
  have small: "unat v < 2 ^ 24" using assms(1) by simp
  have slot: "a + of_nat p + of_nat (16 * unat v) = a + of_nat (p + 16 * unat v)" by (simp add: add.assoc)
  have "load_bytes (a + of_nat q) n (store_bytes (a + of_nat (p + 16 * unat v + k)) bs m') = load_bytes (a + of_nat q) n m'"
    if "k + length bs \<le> 16" for k bs m'
    using assms that by (intro load_bytes_store) auto
  note r = this [unfolded of_nat_add [of "p + 16 * unat v"] add.assoc [symmetric]]
  show ?thesis
    unfolding write_gate_def Let_def store_offsets gate_offset [OF small] slot
    using r [of 0 "le_bytes 8 h"] r [of 4 "le_bytes 8 h"] r [of 2 "le_bytes 2 kernel_code64_sel"]
      r [of 4 "le_bytes 2 0"] r [of 5 "le_bytes 1 type"]
    by (simp add: add.assoc del: One_nat_def le_bytes.simps store_bytes.simps of_nat_mult)
qed

lemma write_gates_region:
  assumes "\<forall>v \<in> fst ` set kvs. unat v < 0x50" "p + 0x500 \<le> 2 ^ 32" "q + n \<le> 2 ^ 32"
    and "q + n \<le> p \<or> p + 0x500 \<le> q"
  shows "load_bytes (a + of_nat q) n (write_all (set_interrupt_handler (a + of_nat p)) kvs m) = load_bytes (a + of_nat q) n m"
  using assms(1)
proof (induction kvs arbitrary: m)
  case (Cons kv kvs)
  then show ?case using write_gate_region [OF _ assms(2-4), of "fst kv"]
    by (cases kv) (simp add: set_interrupt_handler_def)
qed simp

lemma set_system_descriptor_region:
  assumes "unat (sel AND 0xfff8) = p" and "q + n \<le> 2 ^ 32" and "q + n \<le> p \<or> p + 12 \<le> q"
  shows "load_bytes (a + of_nat q) n (set_system_descriptor shrd a sel limit base type m) = load_bytes (a + of_nat q) n m"
proof -
  have p: "p < 0x10000"
  proof -
    have "sel AND 0xfff8 \<le> 0xfff8" by (rule word_and_le1)
    then show ?thesis using assms(1) by (simp add: word_le_nat_alt)
  qed
  have sel: "sel AND 0xfff8 = of_nat p" unfolding assms(1) [symmetric] by simp
  have "load_bytes (a + of_nat q) n (store_bytes (a + of_nat (p + k)) bs m') = load_bytes (a + of_nat q) n m'"
    if "k + length bs \<le> 12" for k bs m'
    using assms p that by (intro load_bytes_store) auto
  note r = this [unfolded of_nat_add add.assoc [symmetric]]
  show ?thesis
    unfolding set_system_descriptor_def Let_def store_offsets sel
    using r [of 0 "le_bytes 2 _"] r [of 4 "le_bytes 8 base"] r [of 2 "le_bytes 4 base"]
      r [of 5 "le_bytes 1 _"] r [of 6 "le_bytes 1 _"]
    by (simp del: One_nat_def le_bytes.simps store_bytes.simps)
qed

lemma high_half:
  assumes "unat src < 2 ^ 32" "j < 2564" "k < 2564"
  shows "src + of_nat j \<noteq> SYSTEM_DATA64_BASE + of_nat k"
proof -
  have "unat (of_nat (unat src + j) :: u64) = unat src + j" using assms by (intro unat_of_nat_small) simp
  then have "unat (src + of_nat j) < 2 ^ 33" using assms by simp
  moreover have "unat (of_nat (0xFFFFFFF800000000 + k) :: u64) = 0xFFFFFFF800000000 + k"
    using assms by (intro unat_of_nat_small) simp
  then have "2 ^ 33 \<le> unat (SYSTEM_DATA64_BASE + of_nat k)" by (simp add: SYSTEM_DATA64_BASE_def)
  ultimately show ?thesis by auto
qed

text \<open>The memory before the TSS descriptor and the gates: up to the pointers it is the image.\<close>

lemma entry64_memory:
  assumes "load_bytes src 2564 m = system_data64 fill src" and "unat src < 2 ^ 32"
  obtains m3 where "entry64_tables shrd addr src m = (SYSTEM_DATA64_BASE, SYSTEM_DATA64_BASE + of_nat 0x100,
       write_all (set_interrupt_handler (SYSTEM_DATA64_BASE + of_nat 0x100)) (map (\<lambda>(v, h). (v, addr h)) installed_handlers)
         (set_system_descriptor shrd SYSTEM_DATA64_BASE tss64_sel 0x67 (SYSTEM_DATA64_BASE + of_nat 0x600) TSS64 m3))"
    and "\<And>q n. q + n \<le> 0x9f0 \<Longrightarrow> load_bytes (SYSTEM_DATA64_BASE + of_nat q) n m3 = take n (drop q (system_data64 fill src))"
proof -
  let ?B = SYSTEM_DATA64_BASE
  define m1 where "m1 = store_bytes (?B + of_nat 0) (system_data64 fill src) m"
  define m2 where "m2 = store_bytes (?B + of_nat 0x9f2) (le_bytes 8 ?B) m1"
  define m3 where "m3 = store_bytes (?B + of_nat 0x9fc) (le_bytes 8 (?B + of_nat 0x100)) m2"
  have 1: "rep_movsb 2564 src ?B m = m1"
    unfolding m1_def assms(1) [symmetric] using high_half [OF assms(2)] by (subst rep_movsb_stores) auto
  have p: "?B + of_nat gdt_pointer64_offset + 2 = ?B + of_nat 0x9f2" "?B + of_nat idt_pointer64_offset + 2 = ?B + of_nat 0x9fc"
    "of_nat idt_offset = (of_nat 0x100 :: u64)" "of_nat tss_offset = (of_nat 0x600 :: u64)"
    by (simp_all add: gdt_pointer64_offset_def idt_pointer64_offset_def idt_offset_def tss_offset_def)
  have "load_bytes (?B + of_nat 0x9f2) 8 m2 = le_bytes 8 ?B"
    unfolding m2_def by (subst load_bytes_stored) (simp_all del: le_bytes.simps)
  then have gdt: "table_base m2 (?B + of_nat gdt_pointer64_offset) = ?B"
    unfolding table_base_def p by (simp only: le_word_8)
  have "load_bytes (?B + of_nat 0x9fc) 8 m3 = le_bytes 8 (?B + of_nat 0x100)"
    unfolding m3_def by (subst load_bytes_stored) (simp_all del: le_bytes.simps)
  then have idt: "table_base m3 (?B + of_nat idt_pointer64_offset) = ?B + of_nat 0x100"
    unfolding table_base_def p by (simp only: le_word_8)
  show thesis
  proof (rule that)
    show "entry64_tables shrd addr src m = (?B, ?B + of_nat 0x100,
       write_all (set_interrupt_handler (?B + of_nat 0x100)) (map (\<lambda>(v, h). (v, addr h)) installed_handlers)
         (set_system_descriptor shrd ?B tss64_sel 0x67 (?B + of_nat 0x600) TSS64 m3))"
      unfolding entry64_tables_def Let_def 1 p store_q_def m2_def [symmetric] gdt m3_def [symmetric] idt ..
    fix q n :: nat assume q: "q + n \<le> 0x9f0"
    then have "load_bytes (?B + of_nat q) n m3 = load_bytes (?B + of_nat q) n m1"
      unfolding m3_def m2_def by (subst load_bytes_store, simp, simp, simp)+ (rule refl)
    also have "\<dots> = take n (drop q (system_data64 fill src))"
      using q load_bytes_stored [of 0 "system_data64 fill src" q n ?B m] unfolding m1_def length_system_data64 by simp
    finally show "load_bytes (?B + of_nat q) n m3 = take n (drop q (system_data64 fill src))" .
  qed
qed

lemma gdt_slice: "i < 25 \<Longrightarrow> take 8 (drop (8 * i) (system_data64 fill link)) = le_bytes 8 (global_descriptor_table ! i)"
  unfolding system_data64_def by (intro quads_slice) (simp add: global_descriptor_table_def)

lemma after_tables:
  assumes "256 \<le> q"
  shows "drop q (system_data64 fill link) = drop (q - 256) (interrupt_descriptor_table @ task_status_segment
    @ processor_task_status_segment @ test_tss @ map fill [0..<12] @ (le_bytes 2 (25 * 8 - 1) @ le_bytes 4 link)
    @ (le_bytes 2 (0x50 * 16 - 1) @ le_bytes 4 (link + 0x100)) @ map fill [12..<16]
    @ (le_bytes 2 (25 * 8 - 1) @ le_bytes 8 link) @ (le_bytes 2 (0x50 * 16 - 1) @ le_bytes 8 (link + 0x100)))"
  unfolding system_data64_def drop_append table_lengths using assms
  by (simp add: table_lengths del: le_bytes.simps drop_append)

lemma idt_slice: "v < 0x50 \<Longrightarrow> take 16 (drop (0x100 + 16 * v) (system_data64 fill link)) = replicate 16 0"
  by (simp add: after_tables interrupt_descriptor_table_zeros del: le_bytes.simps)

lemma tss_slice:
  "take 8 (drop 0x604 (system_data64 fill link)) = le_bytes 8 PROCESSOR0_IDT_RSP"
  "take 8 (drop 0x624 (system_data64 fill link)) = le_bytes 8 PROCESSOR0_IST1_RSP"
  by (simp_all add: after_tables table_lengths task_status_segment_def del: le_bytes.simps)

section \<open>Properties\<close>

abbreviation handler_addresses :: "(handler \<Rightarrow> u64) \<Rightarrow> (u64 \<times> u64) list" where
  "handler_addresses addr \<equiv> map (\<lambda>(v, h). (v, addr h)) installed_handlers"

lemma handler_keys:
  "\<forall>v \<in> fst ` set (handler_addresses addr). v < IDT_VECTORS"
  "\<forall>v \<in> fst ` set (handler_addresses addr). unat v < 0x50"
  by (simp_all add: installed_handlers_def vector_defs IDT_VECTORS_def)

lemma last_handler:
  "last_write (handler_addresses addr) v = map_option addr (map_of installed_handlers v)"
  by (simp add: last_write_def installed_handlers_def vector_defs)

text \<open>Vectors that the header names and the program gives no gate.\<close>

lemma vectors_without_handler:
  "list_all (\<lambda>v. v < IDT_VECTORS \<and> map_of installed_handlers v = None)
     [BP_HANDLER_VECTOR, BR_HANDLER_VECTOR, SS_HANDLER_VECTOR, MF_HANDLER_VECTOR, AC_HANDLER_VECTOR, XF_HANDLER_VECTOR,
      SYSTEM_SERVICE_VECTOR, APIC_LINT0_VECTOR, APIC_LINT1_VECTOR, APIC_PERFMON_VECTOR, APIC_ERROR_VECTOR]"
  by (simp add: installed_handlers_def vector_defs IDT_VECTORS_def)

text \<open>The memory before and after the gates, by region.\<close>

lemma entry64_regions:
  assumes "load_bytes src 2564 m = system_data64 fill src" and "unat src < 2 ^ 32"
  obtains m4 m5 where "entry64_tables shrd addr src m = (SYSTEM_DATA64_BASE, SYSTEM_DATA64_BASE + of_nat 0x100, m5)"
    and "m5 = write_all (set_interrupt_handler (SYSTEM_DATA64_BASE + of_nat 0x100)) (handler_addresses addr) m4"
    and "\<And>q n. q + n \<le> 0x100 \<or> 0x600 \<le> q \<Longrightarrow> q + n \<le> 0x9f0 \<Longrightarrow>
      load_bytes (SYSTEM_DATA64_BASE + of_nat q) n m5 = load_bytes (SYSTEM_DATA64_BASE + of_nat q) n m4"
    and "\<And>q n. q + n \<le> 0x58 \<or> 0x64 \<le> q \<Longrightarrow> q + n \<le> 0x9f0 \<Longrightarrow>
      load_bytes (SYSTEM_DATA64_BASE + of_nat q) n m4 = take n (drop q (system_data64 fill src))"
    and "system_decode (load_bytes (SYSTEM_DATA64_BASE + of_nat 0x58) 16 m4) =
      \<lparr>sd_base = SYSTEM_DATA64_BASE + 0x600, sd_limit_low = 0x67, sd_type = 9, sd_s = False, sd_dpl = 0, sd_present = True\<rparr>"
proof -
  let ?B = SYSTEM_DATA64_BASE and ?kvs = "handler_addresses addr"
  obtain m3 where run: "entry64_tables shrd addr src m = (?B, ?B + of_nat 0x100,
       write_all (set_interrupt_handler (?B + of_nat 0x100)) ?kvs
         (set_system_descriptor shrd ?B tss64_sel 0x67 (?B + of_nat 0x600) TSS64 m3))"
    and img: "\<And>q n. q + n \<le> 0x9f0 \<Longrightarrow> load_bytes (?B + of_nat q) n m3 = take n (drop q (system_data64 fill src))"
    using entry64_memory [OF assms] by metis
  define m4 where "m4 = set_system_descriptor shrd ?B tss64_sel 0x67 (?B + of_nat 0x600) TSS64 m3"
  define m5 where "m5 = write_all (set_interrupt_handler (?B + of_nat 0x100)) ?kvs m4"
  show thesis
  proof (rule that [of m5 m4])
    show "entry64_tables shrd addr src m = (?B, ?B + of_nat 0x100, m5)"
      unfolding m5_def m4_def by (rule run)
    show "system_decode (load_bytes (?B + of_nat 0x58) 16 m4) =
      \<lparr>sd_base = ?B + 0x600, sd_limit_low = 0x67, sd_type = 9, sd_s = False, sd_dpl = 0, sd_present = True\<rparr>"
      using system_descriptor_decoded [of "0x67" ?B tss64_sel shrd "?B + 0x600" m3] by (simp add: m4_def tss64_sel_def)
    fix q n :: nat assume le: "q + n \<le> 0x9f0"
    show "load_bytes (?B + of_nat q) n m5 = load_bytes (?B + of_nat q) n m4" if "q + n \<le> 0x100 \<or> 0x600 \<le> q"
      unfolding m5_def using that le by (intro write_gates_region [OF handler_keys(2)]) auto
    show "load_bytes (?B + of_nat q) n m4 = take n (drop q (system_data64 fill src))" if "q + n \<le> 0x58 \<or> 0x64 \<le> q"
      using that le img [OF le] set_system_descriptor_region [of tss64_sel "0x58" q n] by (simp add: m4_def tss64_sel_def)
  qed (rule m5_def)
qed

lemma system_tables:
  assumes "load_bytes src 2564 m = system_data64 fill src" and "unat src < 2 ^ 32"
  shows "\<exists>m'. entry64_tables shrd addr src m = (SYSTEM_DATA64_BASE, SYSTEM_DATA64_BASE + 0x100, m') \<and>
    (\<forall>i < 25. i \<notin> {11, 12} \<longrightarrow>
       le_word (load_bytes (SYSTEM_DATA64_BASE + of_nat (8 * i)) 8 m') = global_descriptor_table ! i) \<and>
    system_decode (load_bytes (SYSTEM_DATA64_BASE + tss64_sel) 16 m') =
      \<lparr>sd_base = SYSTEM_DATA64_BASE + 0x600, sd_limit_low = 0x67, sd_type = 9, sd_s = False, sd_dpl = 0, sd_present = True\<rparr> \<and>
    le_word (load_bytes (SYSTEM_DATA64_BASE + 0x604) 8 m') = PROCESSOR0_IDT_RSP \<and>
    le_word (load_bytes (SYSTEM_DATA64_BASE + 0x624) 8 m') = PROCESSOR0_IST1_RSP \<and>
    (\<forall>v < IDT_VECTORS. case map_of installed_handlers v of
        None \<Rightarrow> \<not> gt_present (gate_at m' (SYSTEM_DATA64_BASE + 0x100) v)
      | Some h \<Rightarrow> gate_at m' (SYSTEM_DATA64_BASE + 0x100) v = interrupt_gate 0 (addr h))"
proof -
  let ?B = SYSTEM_DATA64_BASE
  obtain m4 m5 where run: "entry64_tables shrd addr src m = (?B, ?B + of_nat 0x100, m5)"
    and m5: "m5 = write_all (set_interrupt_handler (?B + of_nat 0x100)) (handler_addresses addr) m4"
    and kept5: "\<And>q n. q + n \<le> 0x100 \<or> 0x600 \<le> q \<Longrightarrow> q + n \<le> 0x9f0 \<Longrightarrow>
      load_bytes (?B + of_nat q) n m5 = load_bytes (?B + of_nat q) n m4"
    and kept4: "\<And>q n. q + n \<le> 0x58 \<or> 0x64 \<le> q \<Longrightarrow> q + n \<le> 0x9f0 \<Longrightarrow>
      load_bytes (?B + of_nat q) n m4 = take n (drop q (system_data64 fill src))"
    and tss: "system_decode (load_bytes (?B + of_nat 0x58) 16 m4) =
      \<lparr>sd_base = ?B + 0x600, sd_limit_low = 0x67, sd_type = 9, sd_s = False, sd_dpl = 0, sd_present = True\<rparr>"
    by (rule entry64_regions [OF assms, of shrd addr], rule that)
  have gdt: "le_word (load_bytes (?B + of_nat (8 * i)) 8 m5) = global_descriptor_table ! i" if "i < 25" "i \<noteq> 11" "i \<noteq> 12" for i
  proof -
    have "8 * i + 8 \<le> 0x58 \<or> 0x64 \<le> 8 * i" using that by linarith
    then show ?thesis
      using kept5 [of "8 * i" 8] kept4 [of "8 * i" 8] gdt_slice [of i fill src] that by (simp add: le_word_8 del: le_bytes.simps le_word.simps)
  qed
  have stacks: "le_word (load_bytes (?B + of_nat 0x604) 8 m5) = PROCESSOR0_IDT_RSP"
      "le_word (load_bytes (?B + of_nat 0x624) 8 m5) = PROCESSOR0_IST1_RSP"
    using kept5 [of "0x604" 8] kept4 [of "0x604" 8] kept5 [of "0x624" 8] kept4 [of "0x624" 8] tss_slice [of fill src]
    by (simp_all add: le_word_8 del: le_bytes.simps le_word.simps of_nat_numeral)
  have gates: "case map_of installed_handlers v of
        None \<Rightarrow> \<not> gt_present (gate_at m5 (?B + of_nat 0x100) v)
      | Some h \<Rightarrow> gate_at m5 (?B + of_nat 0x100) v = interrupt_gate 0 (addr h)" if v: "v < IDT_VECTORS" for v
  proof -
    have u: "unat v < 0x50" using v by (simp add: IDT_VECTORS_def word_less_nat_alt)
    then have "?B + of_nat 0x100 + push_bit 4 v = ?B + of_nat (0x100 + 16 * unat v)"
      using gate_offset [of v "?B + of_nat 0x100"] by (simp add: add.assoc)
    moreover have "load_bytes (?B + of_nat (0x100 + 16 * unat v)) 16 m4 = replicate 16 0"
      using kept4 [of "0x100 + 16 * unat v" 16] idt_slice [OF u, of fill src] u by simp
    ultimately have "\<not> gt_present (gate_at m4 (?B + of_nat 0x100) v)"
      unfolding gate_at_def by (simp only:) (simp add: gate_decode_def)
    then show ?thesis
      using gates.get_writes [where s = m4 and kvs = "handler_addresses addr" and j = v and idt = "?B + of_nat 0x100"] handler_keys(1) v
      unfolding last_handler m5 by (auto split: option.splits)
  qed
  show ?thesis
    using run gdt kept5 [of "0x58" 16] tss stacks gates [unfolded of_nat_numeral] by (intro exI [of _ m5]) (simp add: tss64_sel_def)
qed

text \<open>
  C9: after \<^verbatim>\<open>entry64\<close> the processor's tables are where it was told and hold what they should: every
  segment descriptor of the image, a TSS descriptor that names the TSS, with the two stacks in it,
  and for each of the 0x50 vectors the interrupt gate of its handler, or no gate where the program
  installs none. What the undefined shift yields does not matter for that.
\<close>

theorem system_tables_ready:
  assumes "load_bytes src 2564 m = system_data64 fill src" and "unat src < 2 ^ 32"
  shows "\<exists>m'. entry64_tables shrd addr src m = (SYSTEM_DATA64_BASE, SYSTEM_DATA64_BASE + 0x100, m') \<and>
    (\<forall>i < 25. i \<notin> {11, 12} \<longrightarrow>
       le_word (load_bytes (SYSTEM_DATA64_BASE + of_nat (8 * i)) 8 m') = global_descriptor_table ! i) \<and>
    system_decode (load_bytes (SYSTEM_DATA64_BASE + tss64_sel) 16 m') =
      \<lparr>sd_base = SYSTEM_DATA64_BASE + 0x600, sd_limit_low = 0x67, sd_type = 9, sd_s = False, sd_dpl = 0, sd_present = True\<rparr> \<and>
    le_word (load_bytes (SYSTEM_DATA64_BASE + 0x604) 8 m') = PROCESSOR0_IDT_RSP \<and>
    le_word (load_bytes (SYSTEM_DATA64_BASE + 0x624) 8 m') = PROCESSOR0_IST1_RSP \<and>
    (\<forall>v < IDT_VECTORS. case map_of installed_handlers v of
        None \<Rightarrow> \<not> gt_present (gate_at m' (SYSTEM_DATA64_BASE + 0x100) v)
      | Some h \<Rightarrow> gate_at m' (SYSTEM_DATA64_BASE + 0x100) v = interrupt_gate 0 (addr h))"
  by (rule system_tables [OF assms])

theorem system_tables_ready_witness:
  "\<exists>m m'. entry64_tables (\<lambda>_ _. 0xbeef) (\<lambda>_. 0x10123) 0xa000 m = (SYSTEM_DATA64_BASE, SYSTEM_DATA64_BASE + 0x100, m') \<and>
     gate_at m' (SYSTEM_DATA64_BASE + 0x100) 0xe = interrupt_gate 0 0x10123"
proof -
  let ?m = "store_bytes 0xa000 (system_data64 (\<lambda>_. 0x90) 0xa000) (\<lambda>_. 0)"
  have "load_bytes 0xa000 2564 ?m = system_data64 (\<lambda>_. 0x90) 0xa000"
    using load_bytes_stored [of 0 "system_data64 (\<lambda>_. 0x90) 0xa000" 0 2564 "0xa000"] by (simp add: length_system_data64)
  from system_tables_ready [OF this, of "\<lambda>_ _. 0xbeef" "\<lambda>_. 0x10123"] obtain m' where
    "entry64_tables (\<lambda>_ _. 0xbeef) (\<lambda>_. 0x10123) 0xa000 ?m = (SYSTEM_DATA64_BASE, SYSTEM_DATA64_BASE + 0x100, m')"
    and "\<forall>v < IDT_VECTORS. case map_of installed_handlers v of
        None \<Rightarrow> \<not> gt_present (gate_at m' (SYSTEM_DATA64_BASE + 0x100) v)
      | Some h \<Rightarrow> gate_at m' (SYSTEM_DATA64_BASE + 0x100) v = interrupt_gate 0 0x10123" by auto
  then show ?thesis
    by (intro exI [of _ ?m] exI [of _ m']) (auto simp: IDT_VECTORS_def installed_handlers_def vector_defs dest!: spec [of _ "0xe"])
qed

text \<open>The kind of segment that a descriptor gives: its code size and privilege level.\<close>

datatype segment_kind = No_segment | Code nat u64 | Data u64

definition segment_kind :: "u64 \<Rightarrow> segment_kind" where
  "segment_kind d =
     (let f = desc_decode d in
      if \<not> df_p f \<or> \<not> df_s f then No_segment
      else if bit (df_type f) 3 then Code (if df_l f then 64 else if df_db f then 32 else 16) (df_dpl f)
      else Data (df_dpl f))"

text \<open>The descriptor that a selector names, in the table of its table bit, within the table's limit.\<close>

definition named_segment :: "u64 \<Rightarrow> segment_kind" where
  "named_segment sel =
     (let t = (if bit sel 2 then local_descriptor_table else global_descriptor_table); i = unat (drop_bit 3 sel)
      in if i < length t then segment_kind (t ! i) else No_segment)"

text \<open>
  Every segment selector of the guest's header names a present descriptor of its kind and privilege
  level, in both tables, and \<^verbatim>\<open>sysret\<close> finds the user segments 8 and 16 behind its base; the
  selectors of a conforming segment, of gates, of the LDT, of further TSSs and of the reserved area name
  no segment: their entries are empty or beyond the end of the table.
\<close>

theorem selectors_name_descriptors:
  "named_segment code16_sel = Code 16 0 \<and> named_segment data16_sel = Data 0 \<and>
   named_segment code32_sel = Code 32 0 \<and> named_segment data32_sel = Data 0 \<and>
   named_segment KERNEL_CS = Code 64 0 \<and> named_segment KERNEL_SS = Data 0 \<and>
   named_segment user_code32_sel = Code 32 3 \<and> named_segment user_data32_sel = Data 3 \<and>
   named_segment USER_CS = Code 64 3 \<and> named_segment USER_SS = Data 3 \<and>
   named_segment USER_DS = Data 3 \<and> named_segment (sysret_cs_sel + 16) = Code 64 3 \<and>
   named_segment (sysret_cs_sel + 8) = Data 3 \<and> named_segment LDT_KERNEL_CS = Code 64 0 \<and>
   named_segment LDT_KERNEL_SS = Data 0 \<and> named_segment LDT_USER32_CS = Code 32 3 \<and>
   named_segment LDT_USER32_SS = Data 3 \<and> named_segment LDT_USER_CS = Code 64 3 \<and>
   named_segment LDT_USER_SS = Data 3 \<and> named_segment conforming_code_sel = No_segment \<and>
   named_segment processor_tss_sel = No_segment \<and> named_segment reserved_sel = No_segment \<and>
   named_segment call_gate_sel = No_segment \<and> named_segment test_tss_sel = No_segment \<and>
   named_segment ldt_sel = No_segment \<and> named_segment conforming_callgate_sel = No_segment"
  by (simp add: named_segment_def segment_kind_def desc_decode_def selector_defs global_descriptor_table_def
      local_descriptor_table_def)

end
