(* ===== verification/Guest_Boot.thy ===== *)
theory Guest_Boot
  imports Guest_Paging Guest_Descriptors
begin

unbundle bit_operations_syntax

text \<open>
  How the guest starts: the way of the processor from real mode to 64-bit user code
  (\<^verbatim>\<open>src/asm/learn.S\<close>, with the bit numbers of \<^verbatim>\<open>src/asm/CPU.h\<close>).
\<close>

section \<open>Changing modes\<close>

text \<open>The bits of CR0 and CR4 that matter here, and the register with the long mode bits.\<close>

definition PE_BIT :: nat where "PE_BIT = 0"
definition PG_BIT :: nat where "PG_BIT = 31"
definition OSFXSR_BIT :: nat where "OSFXSR_BIT = 9"
definition OSXMMEXCPT_BIT :: nat where "OSXMMEXCPT_BIT = 10"
definition VMXE_BIT :: nat where "VMXE_BIT = 13"

lemmas control_bits = PE_BIT_def PG_BIT_def OSFXSR_BIT_def OSXMMEXCPT_BIT_def VMXE_BIT_def PAE_BIT_def

definition PROCESSOR0_KERNEL_RSP :: u64 where "PROCESSOR0_KERNEL_RSP = 0xFFFFFFFFFFE00800"
definition USER_RSP :: u64 where "USER_RSP = PROCESSOR_USER_RSP"

record processor =
  pr_cr0 :: u32
  pr_cr3 :: u64
  pr_cr4 :: u32
  pr_efer :: u64
  pr_cs :: u64
  pr_ss :: u64
  pr_rsp :: u64

text \<open>
  The instructions that change the mode, in order; \<open>edx\<close> is what CPUID leaf 1 reports to
  \<^verbatim>\<open>pae_enable\<close>. The page tables are built between it and the load of CR3.
\<close>

definition start16 :: "processor \<Rightarrow> processor" where
  "start16 c = c\<lparr>pr_cr0 := set_bit 0 (pr_cr0 c)\<rparr>"

definition jump32 :: "processor \<Rightarrow> processor" where
  "jump32 c = c\<lparr>pr_cs := code32_sel\<rparr>"

definition set_cr4 :: "processor \<Rightarrow> processor" where
  "set_cr4 c = c\<lparr>pr_ss := data32_sel, pr_cr4 := set_bit 13 (set_bit 9 (pr_cr4 c))\<rparr>"

definition call_pae_enable :: "u32 \<Rightarrow> processor \<Rightarrow> processor" where
  "call_pae_enable edx c = c\<lparr>pr_cr4 := pae_enable edx (pr_cr4 c)\<rparr>"

definition load_cr3 :: "processor \<Rightarrow> processor" where
  "load_cr3 c = c\<lparr>pr_cr3 := of_nat PML4T_BASE\<rparr>"

definition set_efer :: "processor \<Rightarrow> processor" where
  "set_efer c = c\<lparr>pr_efer := set_bit 8 (pr_efer c)\<rparr>"

definition open_paging :: "processor \<Rightarrow> processor" where
  "open_paging c = c\<lparr>pr_cr0 := set_bit 31 (pr_cr0 c)\<rparr>"

definition jump64 :: "processor \<Rightarrow> processor" where
  "jump64 c = c\<lparr>pr_cs := kernel_code64_sel\<rparr>"

definition load_kernel_stack :: "processor \<Rightarrow> processor" where
  "load_kernel_stack c = c\<lparr>pr_ss := KERNEL_SS, pr_rsp := PROCESSOR0_KERNEL_RSP\<rparr>"

definition return_to_user :: "processor \<Rightarrow> processor" where
  "return_to_user c = c\<lparr>pr_cs := USER_CS OR 3, pr_ss := USER_SS OR 3, pr_rsp := USER_RSP\<rparr>"

definition boot_steps :: "u32 \<Rightarrow> (processor \<Rightarrow> processor) list" where
  "boot_steps edx = [start16, jump32, set_cr4, call_pae_enable edx, load_cr3, set_efer, open_paging, jump64,
     load_kernel_stack, return_to_user]"

fun states :: "('c \<Rightarrow> 'c) list \<Rightarrow> 'c \<Rightarrow> 'c list" where
  "states [] c = [c]"
| "states (f # fs) c = c # states fs (f c)"

text \<open>The architecture's modes; the code segment decides between 64-bit and compatibility mode.\<close>

datatype mode = Real_mode | Protected_mode | Compatibility_mode | Mode64 | No_mode

definition long_active :: "processor \<Rightarrow> bool" where
  "long_active c \<longleftrightarrow> bit (pr_cr0 c) PG_BIT \<and> bit (pr_efer c) 8"

definition mode_of :: "processor \<Rightarrow> mode" where
  "mode_of c =
     (if \<not> bit (pr_cr0 c) PE_BIT then Real_mode
      else if \<not> long_active c then Protected_mode
      else case named_segment (pr_cs c) of
             Code n _ \<Rightarrow> if n = 64 then Mode64 else Compatibility_mode
           | _ \<Rightarrow> No_mode)"

text \<open>
  What the processor demands: paging needs protected mode, and long mode needs PAE and a page
  table; the long mode enable bit may only change while paging is off.
\<close>

definition legal :: "processor \<Rightarrow> bool" where
  "legal c \<longleftrightarrow> (bit (pr_cr0 c) PG_BIT \<longrightarrow> bit (pr_cr0 c) PE_BIT) \<and>
     (long_active c \<longrightarrow> bit (pr_cr4 c) PAE_BIT \<and> pr_cr3 c = of_nat PML4T_BASE)"

definition efer_change_legal :: "processor \<Rightarrow> processor \<Rightarrow> bool" where
  "efer_change_legal c d \<longleftrightarrow> (bit (pr_efer c) 8 \<noteq> bit (pr_efer d) 8 \<longrightarrow> \<not> bit (pr_cr0 c) PG_BIT)"

lemmas boot_defs = boot_steps_def start16_def jump32_def set_cr4_def call_pae_enable_def load_cr3_def set_efer_def
  open_paging_def jump64_def load_kernel_stack_def return_to_user_def

lemma boot_segments:
  "named_segment kernel_code64_sel = Code 64 0" "named_segment code32_sel = Code 32 0"
  "named_segment (USER_CS OR 3) = Code 64 3" "named_segment (USER_SS OR 3) = Data 3"
  by (simp_all add: named_segment_def segment_kind_def desc_decode_def selector_defs global_descriptor_table_def)

text \<open>
  C17: the guest's way to user code: from real mode with paging off, each state on it is one that the
  processor accepts, long mode is enabled while paging is off, the modes come in their order, and
  the last state runs 64-bit user code at privilege level 3 on the user stack, with the page tables
  of the guest. CR4 has the FXSAVE bit and, where the comment speaks of SSE, the VMX bit; the bit for SSE
  exceptions is as it was.
\<close>

theorem boot_reaches_user_mode:
  assumes "\<not> bit (pr_cr0 c) PE_BIT" "\<not> bit (pr_cr0 c) PG_BIT" "bit edx 6"
  shows "list_all legal (states (boot_steps edx) c) \<and>
    successively efer_change_legal (states (boot_steps edx) c) \<and>
    map mode_of (states (boot_steps edx) c) =
      [Real_mode, Protected_mode, Protected_mode, Protected_mode, Protected_mode, Protected_mode, Protected_mode,
       Compatibility_mode, Mode64, Mode64, Mode64] \<and>
    (let d = last (states (boot_steps edx) c) in
       named_segment (pr_cs d) = Code 64 3 \<and> named_segment (pr_ss d) = Data 3 \<and> pr_rsp d = PROCESSOR_USER_RSP \<and>
       bit (pr_cr4 d) OSFXSR_BIT \<and> bit (pr_cr4 d) VMXE_BIT \<and>
       bit (pr_cr4 d) OSXMMEXCPT_BIT = bit (pr_cr4 c) OSXMMEXCPT_BIT)"
  using assms
  by (simp add: boot_defs legal_def long_active_def mode_of_def efer_change_legal_def control_bits bit_set_bit_iff
      pae_enable_def boot_segments USER_RSP_def)

theorem boot_reaches_user_mode_witness:
  "list_all legal (states (boot_steps 0x40)
     \<lparr>pr_cr0 = 0x10, pr_cr3 = 0, pr_cr4 = 0, pr_efer = 0, pr_cs = 0, pr_ss = 0, pr_rsp = 0x7c00\<rparr>)"
  using boot_reaches_user_mode [of "\<lparr>pr_cr0 = 0x10, pr_cr3 = 0, pr_cr4 = 0, pr_efer = 0, pr_cs = 0, pr_ss = 0,
    pr_rsp = 0x7c00\<rparr>" "0x40"]
  by (simp add: control_bits)

end
