(* ===== verification/Guest_Disk.thy ===== *)
theory Guest_Disk
  imports VL_Prelude
begin

unbundle bit_operations_syntax

text \<open>
  The disk routines of the guest's real mode (\<^verbatim>\<open>src/asm/pre_run.S\<close>), whose calls are commented out in
  \<^verbatim>\<open>learn.S\<close> because the monitor loads the image: the geometry of the drive, the translation of a sector
  number for the BIOS, the read of some sectors and the loader of the image. The BIOS is a parameter: a
  request is the registers it is given, a reply the registers it gives back.
\<close>

section \<open>Sectors\<close>

text \<open>
  The product of 16-bit registers is in DX and AX; \<^verbatim>\<open>mov %eax,%ecx\<close> also takes the upper half of
  EAX, which is what it was before. A division by zero is \<^term>\<open>None\<close>. The results are the registers CH,
  CL and DH for the BIOS, and the upper half of EAX that the last division leaves.
\<close>

definition do_lba_to_chs :: "u16 \<Rightarrow> u16 \<Rightarrow> u16 \<Rightarrow> u32 \<Rightarrow> (u8 \<times> u8 \<times> u8 \<times> u16) option" where
  "do_lba_to_chs eax_high sector_maximum header_maximum start_sector =
     (let ecx = push_bit 16 (ucast eax_high) OR ucast (header_maximum * sector_maximum) :: u32 in
      if ecx = 0 then None
      else
        let ebx = start_sector div ecx;
            edx = start_sector mod ecx;
            ecx = ucast sector_maximum
        in if ecx = 0 then None
           else
             let eax = edx div ecx;
                 edx = edx mod ecx + 1;
                 bx = drop_bit 2 (ucast ebx) AND 0xc0 :: u16
             in Some (ucast ebx, ucast edx OR ucast bx, ucast eax, ucast (drop_bit 16 eax)))"

text \<open>What the BIOS takes from them: cylinder, head and sector, counted from one.\<close>

definition chs_cylinder :: "u8 \<Rightarrow> u8 \<Rightarrow> nat" where
  "chs_cylinder ch cl = unat ch + 256 * unat (drop_bit 6 cl)"

definition chs_sector :: "u8 \<Rightarrow> nat" where
  "chs_sector cl = unat (cl AND 0x3f)"

lemma unat_ucast_byte: "unat (ucast (b :: u8) :: u16) = unat b"
  using unsigned_less [of b, where 'a = nat] by (simp add: unsigned_ucast_eq take_bit_nat_eq_self)

lemma drop_bit_small: "unat w < 2 ^ n \<Longrightarrow> drop_bit n w = 0" for w :: "'a::len word"
proof -
  assume "unat w < 2 ^ n"
  then have "unat (drop_bit n w) = 0" unfolding unat_drop_bit_eq by (simp add: drop_bit_eq_div)
  then show ?thesis by (rule unsigned_word_eqI [of _ 0, simplified])
qed

lemma cl_fields:
  assumes "unat s < 64" "unat c < 1024"
  shows "chs_sector (ucast (s :: u32) OR ucast (drop_bit 2 (ucast (c :: u32)) AND 0xc0 :: u16)) = unat s"
    and "chs_cylinder (ucast c) (ucast s OR ucast (drop_bit 2 (ucast c) AND 0xc0 :: u16)) = unat c"
proof -
  let ?cl = "ucast s OR ucast (drop_bit 2 (ucast c) AND 0xc0 :: u16) :: u8"
  have s: "take_bit 6 s = s" using assms(1) by (intro take_bit_small) simp
  have c: "take_bit 10 c = c" using assms(2) by (intro take_bit_small) simp
  have bs: "bit s n \<Longrightarrow> n < 6" for n using s by (metis bit_take_bit_iff)
  have bc: "bit c n \<Longrightarrow> n < 10" for n using c by (metis bit_take_bit_iff)
  have e: "(0xc0 :: u16) = push_bit 6 (mask 2)" "(0x3f :: u8) = mask 6" by (simp_all add: mask_eq_exp_minus_1)
  have "?cl AND 0x3f = ucast s"
    unfolding e by (rule bit_word_eqI) (auto simp: bit_and_iff bit_or_iff bit_unsigned_iff bit_mask_iff bit_push_bit_iff
        bit_drop_bit_eq dest: bs)
  then show "chs_sector ?cl = unat s"
    using assms(1) by (simp add: chs_sector_def unsigned_ucast_eq take_bit_nat_eq_self)
  have "drop_bit 6 ?cl = ucast (drop_bit 8 c)"
  proof (rule bit_word_eqI)
    fix n assume n: "n < LENGTH(8)"
    then show "bit (drop_bit 6 ?cl) n = bit (ucast (drop_bit 8 c) :: u8) n"
      unfolding e using bs [of "6 + n"] bc [of "8 + n"]
      by (auto simp: bit_and_iff bit_or_iff bit_unsigned_iff bit_mask_iff bit_push_bit_iff bit_drop_bit_eq)
  qed
  moreover have "unat (ucast (drop_bit 8 c) :: u8) = unat c div 256"
  proof -
    have "unat (drop_bit 8 c) = unat c div 256" unfolding unat_drop_bit_eq by (simp add: drop_bit_eq_div)
    moreover have "unat c div 256 < 256" using assms(2) by (simp add: div_less_iff_less_mult)
    ultimately show ?thesis by (simp add: unsigned_ucast_eq take_bit_nat_eq_self)
  qed
  moreover have "unat (ucast c :: u8) = unat c mod 256" by (simp add: unsigned_ucast_eq take_bit_eq_mod)
  ultimately show "chs_cylinder (ucast c) ?cl = unat c" by (simp add: chs_cylinder_def)
qed

text \<open>
  The translation gives the registers of the sector: decoding them the way the BIOS does gives back
  the sector's number, within the geometry.
\<close>

lemma lba_round_trip:
  assumes "0 < unat spt" "unat spt < 64" "0 < unat heads" "unat heads \<le> 256"
    and "unat lba < 1024 * (unat heads * unat spt)"
  shows "\<exists>ch cl dh. do_lba_to_chs 0 spt heads lba = Some (ch, cl, dh, 0) \<and>
    (chs_cylinder ch cl * unat heads + unat dh) * unat spt + (chs_sector cl - 1) = unat lba \<and>
    1 \<le> chs_sector cl \<and> chs_sector cl \<le> unat spt \<and> unat dh < unat heads"
proof -
  define n where "n = unat heads * unat spt"
  have n: "0 < n" "n < 65536"
    using assms mult_le_mono [of "unat heads" 256 "unat spt" 63] by (simp_all add: n_def)
  have m: "unat (heads * spt) = n" using n(2) by (simp add: unat_word_ariths n_def)
  define ecx where "ecx = (ucast (heads * spt) :: u32)"
  have ecx: "unat ecx = n" using n(2) m by (simp add: ecx_def unsigned_ucast_eq take_bit_nat_eq_self)
  have s: "unat (ucast spt :: u32) = unat spt" using assms(2) by (simp add: unsigned_ucast_eq take_bit_nat_eq_self)
  define c where "c = lba div ecx"
  define r where "r = lba mod ecx"
  have c: "unat c = unat lba div n" by (simp add: c_def unat_div ecx)
  have r: "unat r = unat lba mod n" by (simp add: r_def unat_mod ecx)
  have c1024: "unat c < 1024" using assms(5) n(1) by (simp add: c div_less_iff_less_mult n_def)
  have h: "unat (r div ucast spt) = unat r div unat spt" by (simp add: unat_div s)
  have hl: "unat r div unat spt < unat heads"
    using n(1) by (simp add: r n_def mult.commute div_less_iff_less_mult assms(1))
  have sec: "unat (r mod ucast spt + 1) = unat r mod unat spt + 1"
  proof -
    have "unat r mod unat spt < 64" using assms(1,2) mod_less_divisor [OF assms(1), of "unat r"] by linarith
    then show ?thesis by (simp add: unat_word_ariths unat_mod s)
  qed
  have sl: "unat (r mod ucast spt + 1) < 64" "unat r mod unat spt < unat spt"
    using sec assms(1,2) mod_less_divisor [OF assms(1), of "unat r"] by linarith+
  have dh: "unat (ucast (r div ucast spt) :: u8) = unat r div unat spt"
    using hl assms(4) h by (simp add: unsigned_ucast_eq take_bit_nat_eq_self)
  have hi: "(ucast (drop_bit 16 (r div ucast spt)) :: u16) = 0"
    using hl assms(4) h by (simp add: drop_bit_small)
  have "ecx \<noteq> 0" "(ucast spt :: u32) \<noteq> 0" using ecx n(1) s assms(1) by auto
  then have run: "do_lba_to_chs 0 spt heads lba = Some (ucast c,
      ucast (r mod ucast spt + 1) OR ucast (drop_bit 2 (ucast c) AND 0xc0 :: u16), ucast (r div ucast spt), 0)"
    by (simp add: do_lba_to_chs_def Let_def ecx_def [symmetric] c_def r_def hi [unfolded r_def])
  have "(unat c * unat heads + unat r div unat spt) * unat spt + unat r mod unat spt = unat lba"
    using div_mult_mod_eq [of "unat lba" n] div_mult_mod_eq [of "unat r" "unat spt"]
    by (simp add: c r n_def algebra_simps)
  then show ?thesis
    using run cl_fields [OF sl(1) c1024] sl(2) hl dh sec by simp
qed

section \<open>Variables and the geometry of the drive\<close>

text \<open>
  The packet and the table of drive parameters, with the upper half of EAX, which the translation
  takes over, and the requests made of the BIOS so far. The reads of the loader and the table share the
  variables.
\<close>

record read_request =
  rq_drive :: u8
  rq_count :: u8
  rq_ch :: u8
  rq_cl :: u8
  rq_dh :: u8
  rq_es :: u16
  rq_bx :: u16

record disk_vars =
  read_sectors :: u16
  buffer_offset :: u16
  buffer_selector :: u16
  start_sector :: u32
  total_sectors :: u32
  driver_type :: u8
  driver_number :: u8
  cylinder_maximum :: u16
  header_maximum :: u16
  sector_maximum :: u16
  eax_high :: u16
  requests :: "read_request list"

text \<open>
  An instruction that writes the low \<open>n\<close> bits of a variable. Where the source gives no operand size, \<open>n\<close> is
  a parameter.
\<close>

definition low_op :: "nat \<Rightarrow> ('a::len word \<Rightarrow> 'a word) \<Rightarrow> 'a word \<Rightarrow> 'a word" where
  "low_op n f x = (x AND NOT (mask n)) OR take_bit n (f x)"

text \<open>The registers that the BIOS returns for service 8.\<close>

record drive_reply =
  rp_carry :: bool
  rp_ah :: u8
  rp_bl :: u8
  rp_ch :: u8
  rp_cl :: u8
  rp_dh :: u8

text \<open>The bytes DH and CL go to the low bytes of their words; AX is the status.\<close>

definition get_driver_parameters :: "nat \<Rightarrow> (u8 \<Rightarrow> drive_reply) \<Rightarrow> disk_vars \<Rightarrow> disk_vars \<times> u16" where
  "get_driver_parameters sz bios s =
     (let r = bios (driver_number s) in
      if rp_carry r then (s, ucast (rp_ah r))
      else
        let cx = push_bit 8 (ucast (rp_ch r)) OR ucast (drop_bit 6 (rp_cl r)) :: u16
        in (s\<lparr>driver_type := rp_bl r,
              header_maximum := low_op 8 (\<lambda>_. ucast (rp_dh r + 1)) (header_maximum s),
              sector_maximum := low_op sz (\<lambda>x. x AND 0x3f) (low_op 8 (\<lambda>_. ucast (rp_cl r)) (sector_maximum s)),
              cylinder_maximum := (word_rotl 8 cx AND 0x3ff) + 1\<rparr>,
            ucast (rp_ah r)))"

section \<open>The loader\<close>

datatype disk_fault = Divide_error

type_synonym bios_read = "read_request list \<Rightarrow> read_request \<Rightarrow> u8"

text \<open>A read of \<^verbatim>\<open>read_sectors\<close> sectors; the result is AX, the status that the BIOS returns in AH.\<close>

definition read_sector_with_chs :: "bios_read \<Rightarrow> disk_vars \<Rightarrow> disk_fault + disk_vars \<times> u16" where
  "read_sector_with_chs bios s =
     (case do_lba_to_chs (eax_high s) (sector_maximum s) (header_maximum s) (start_sector s) of
        None \<Rightarrow> Inl Divide_error
      | Some (ch, cl, dh, hi) \<Rightarrow>
          let rq = \<lparr>rq_drive = driver_number s, rq_count = ucast (read_sectors s), rq_ch = ch, rq_cl = cl, rq_dh = dh,
                    rq_es = buffer_selector s, rq_bx = buffer_offset s\<rparr>
          in Inr (s\<lparr>eax_high := hi, requests := requests s @ [rq]\<rparr>, ucast (bios (requests s) rq)))"

text \<open>After 32 sectors; the additions and the subtraction are on 16 bits.\<close>

definition next_part :: "disk_vars \<Rightarrow> disk_vars" where
  "next_part s = s\<lparr>start_sector := low_op 16 (\<lambda>x. x + 0x20) (start_sector s),
     buffer_selector := buffer_selector s + 0x400,
     total_sectors := low_op 16 (\<lambda>x. x - 0x20) (total_sectors s)\<rparr>"

text \<open>The loop may go on as long as the BIOS serves it, so that not returning is \<^term>\<open>None\<close>.\<close>

partial_function (option) loop_read ::
  "bios_read \<Rightarrow> disk_vars \<Rightarrow> (disk_fault + disk_vars \<times> u16) option"
where
  "loop_read bios s =
     (case read_sector_with_chs bios (s\<lparr>read_sectors := 0x20\<rparr>) of
        Inl f \<Rightarrow> Some (Inl f)
      | Inr (s1, ax) \<Rightarrow>
          if ax \<noteq> 0 then Some (Inr (s1, ax))
          else let s2 = next_part s1 in
            if take_bit 16 (total_sectors s2) = 0 then Some (Inr (s2, ax))
            else if 0x20 \<le> total_sectors s2 then loop_read bios s2
            else Some (read_sector_with_chs bios (s2\<lparr>read_sectors := ucast (total_sectors s2)\<rparr>)))"

definition load_module :: "nat \<Rightarrow> bios_read \<Rightarrow> disk_vars \<Rightarrow> (disk_fault + disk_vars \<times> u16) option" where
  "load_module sz bios s =
     (case read_sector_with_chs bios (s\<lparr>buffer_offset := 0x7e00, buffer_selector := 0, read_sectors := 1,
                                       start_sector := low_op 16 (\<lambda>_. 1) (start_sector s)\<rparr>) of
        Inl f \<Rightarrow> Some (Inl f)
      | Inr (s1, ax) \<Rightarrow>
          if ax \<noteq> 0 then Some (Inr (s1, ax))
          else loop_read bios (s1\<lparr>start_sector := low_op sz (\<lambda>x. x + 1) (start_sector s1),
                                 total_sectors := low_op sz (\<lambda>x. x - 1) (total_sectors s1),
                                 buffer_selector := 0x800, buffer_offset := 0\<rparr>))"

section \<open>What the requests load\<close>

text \<open>
  The sector that a request names, the linear address of its buffer, and the byte of the disk that
  the requests leave at each address, the last one winning.
\<close>

definition rq_sector :: "nat \<Rightarrow> nat \<Rightarrow> read_request \<Rightarrow> nat" where
  "rq_sector spt heads r =
     (chs_cylinder (rq_ch r) (rq_cl r) * heads + unat (rq_dh r)) * spt + (chs_sector (rq_cl r) - 1)"

definition rq_addr :: "read_request \<Rightarrow> nat" where
  "rq_addr r = 16 * unat (rq_es r) + unat (rq_bx r)"

definition place :: "nat \<Rightarrow> nat \<Rightarrow> read_request \<Rightarrow> (nat \<rightharpoonup> nat) \<Rightarrow> (nat \<rightharpoonup> nat)" where
  "place spt heads r m a =
     (if rq_addr r \<le> a \<and> a < rq_addr r + 512 * unat (rq_count r)
      then Some (512 * rq_sector spt heads r + (a - rq_addr r)) else m a)"

definition loaded :: "nat \<Rightarrow> nat \<Rightarrow> read_request list \<Rightarrow> (nat \<rightharpoonup> nat)" where
  "loaded spt heads rs = fold (place spt heads) rs Map.empty"

text \<open>The image as it should lie in memory: byte \<open>k\<close> of the disk at \<open>0x7c00 + k\<close>, from its second sector up to \<open>n\<close>.\<close>

definition image_below :: "nat \<Rightarrow> (nat \<rightharpoonup> nat)" where
  "image_below n a = (if 0x7e00 \<le> a \<and> a < 0x7c00 + 512 * n then Some (a - 0x7c00) else None)"

lemma loaded_append: "loaded spt heads (rs @ rs') = fold (place spt heads) rs' (loaded spt heads rs)"
  by (simp add: loaded_def)

lemma place_next:
  assumes "rq_addr r = 0x7c00 + 512 * n" "rq_sector spt heads r = n" "1 \<le> n"
  shows "place spt heads r (image_below n) = image_below (n + unat (rq_count r))"
  using assms by (auto simp: place_def image_below_def fun_eq_iff)

lemma place_first:
  assumes "rq_addr r = 0x7e00" "rq_sector spt heads r = 1"
  shows "place spt heads r Map.empty = image_below (1 + unat (rq_count r))"
  using assms by (auto simp: place_def image_below_def fun_eq_iff)

lemma low_op_low:
  assumes "unat x < 2 ^ n"
  shows "low_op n f x = take_bit n (f x)"
proof -
  have "take_bit n x = x" using assms by (rule take_bit_small)
  moreover have "take_bit n x AND NOT (mask n) = 0"
    by (rule bit_word_eqI) (auto simp: bit_and_iff bit_not_iff bit_take_bit_iff bit_mask_iff)
  ultimately show ?thesis by (simp add: low_op_def)
qed

lemma low_op_small: "unat x < 2 ^ n \<Longrightarrow> unat (f x) < 2 ^ n \<Longrightarrow> low_op n f x = f x"
  by (simp add: low_op_low take_bit_small)

section \<open>Loading the image\<close>

text \<open>A drive with a geometry that the BIOS can address, and a request that the BIOS serves.\<close>

definition addressable :: "disk_vars \<Rightarrow> bool" where
  "addressable s \<longleftrightarrow> 0 < unat (sector_maximum s) \<and> unat (sector_maximum s) < 64 \<and>
     0 < unat (header_maximum s) \<and> unat (header_maximum s) \<le> 256"

definition disk_size :: "disk_vars \<Rightarrow> nat" where
  "disk_size s = 1024 * (unat (header_maximum s) * unat (sector_maximum s))"

lemma disk_size_pos:
  assumes "addressable s"
  shows "2 < disk_size s"
proof -
  have "0 < unat (header_maximum s) * unat (sector_maximum s)" using assms by (simp add: addressable_def)
  then show ?thesis unfolding disk_size_def by linarith
qed

abbreviation disk_loaded :: "disk_vars \<Rightarrow> (nat \<rightharpoonup> nat)" where
  "disk_loaded s \<equiv> loaded (unat (sector_maximum s)) (unat (header_maximum s)) (requests s)"

lemma read_request_made:
  assumes "addressable s" "eax_high s = 0" "unat (start_sector s) < disk_size s"
  obtains r where
    "read_sector_with_chs bios s = Inr (s\<lparr>requests := requests s @ [r]\<rparr>, ucast (bios (requests s) r))"
    "rq_sector (unat (sector_maximum s)) (unat (header_maximum s)) r = unat (start_sector s)"
    "rq_count r = ucast (read_sectors s)"
    "rq_addr r = 16 * unat (buffer_selector s) + unat (buffer_offset s)"
proof -
  obtain ch cl dh where t: "do_lba_to_chs 0 (sector_maximum s) (header_maximum s) (start_sector s) = Some (ch, cl, dh, 0)"
    "(chs_cylinder ch cl * unat (header_maximum s) + unat dh) * unat (sector_maximum s) + (chs_sector cl - 1)
       = unat (start_sector s)"
    using lba_round_trip [of "sector_maximum s" "header_maximum s" "start_sector s"] assms
    by (auto simp: addressable_def disk_size_def)
  let ?r = "\<lparr>rq_drive = driver_number s, rq_count = ucast (read_sectors s), rq_ch = ch, rq_cl = cl, rq_dh = dh,
    rq_es = buffer_selector s, rq_bx = buffer_offset s\<rparr>"
  have "s\<lparr>eax_high := 0, requests := requests s @ [?r]\<rparr> = s\<lparr>requests := requests s @ [?r]\<rparr>"
    using assms(2) by (cases s) simp
  then show thesis
    using t assms(2) by (intro that [of ?r]) (simp_all add: read_sector_with_chs_def rq_sector_def rq_addr_def Let_def)
qed

lemma next_part_simps:
  assumes "unat (start_sector s) + 0x20 < 65536" "0x20 \<le> unat (total_sectors s)" "unat (total_sectors s) < 65536"
    "unat (buffer_selector s) + 0x400 < 65536"
  shows "unat (start_sector (next_part s)) = unat (start_sector s) + 0x20"
    "unat (total_sectors (next_part s)) = unat (total_sectors s) - 0x20"
    "unat (buffer_selector (next_part s)) = unat (buffer_selector s) + 0x400"
proof -
  have "unat (start_sector s + 0x20) = unat (start_sector s) + 0x20"
    using assms(1) by (simp add: unat_word_ariths)
  then show "unat (start_sector (next_part s)) = unat (start_sector s) + 0x20"
    using assms(1) by (simp add: next_part_def low_op_small)
  have "unat (total_sectors s - 0x20) = unat (total_sectors s) - 0x20"
    using assms(2) by (simp add: unat_sub word_le_nat_alt)
  then show "unat (total_sectors (next_part s)) = unat (total_sectors s) - 0x20"
    using assms(3) by (simp add: next_part_def low_op_small)
  show "unat (buffer_selector (next_part s)) = unat (buffer_selector s) + 0x400"
    using assms(4) by (simp add: next_part_def unat_word_ariths)
qed

lemma loop_read_served:
  assumes "read_sector_with_chs bios (s\<lparr>read_sectors := 0x20\<rparr>) = Inr (s1, 0)"
  shows "loop_read bios s =
    (if take_bit 16 (total_sectors (next_part s1)) = 0 then Some (Inr (next_part s1, 0))
     else if 0x20 \<le> total_sectors (next_part s1) then loop_read bios (next_part s1)
     else Some (read_sector_with_chs bios
            ((next_part s1)\<lparr>read_sectors := ucast (total_sectors (next_part s1))\<rparr>)))"
  by (subst loop_read.simps) (simp add: assms Let_def)

text \<open>The loop, with \<open>n\<close> the sector it reads next and \<open>t\<close> sectors left.\<close>

lemma loop_read_loads:
  assumes "\<forall>rs r. bios rs r = 0" "addressable s" "eax_high s = 0" "buffer_offset s = 0"
    "unat (start_sector s) = n" "unat (total_sectors s) = t" "unat (buffer_selector s) = 0x7c0 + 0x20 * n"
    "disk_loaded s = image_below n" "1 \<le> n" "0x20 \<le> t" "n + t \<le> 1985" "n + t \<le> disk_size s"
  shows "\<exists>s'. loop_read bios s = Some (Inr (s', 0)) \<and> disk_loaded s' = image_below (n + t) \<and>
    sector_maximum s' = sector_maximum s \<and> header_maximum s' = header_maximum s"
  using assms
proof (induction t arbitrary: n s rule: less_induct)
  case (less t)
  define s0 where "s0 = s\<lparr>read_sectors := 0x20\<rparr>"
  obtain r where r: "read_sector_with_chs bios s0 = Inr (s0\<lparr>requests := requests s0 @ [r]\<rparr>, 0)"
    "rq_sector (unat (sector_maximum s)) (unat (header_maximum s)) r = n" "rq_count r = 0x20"
    "rq_addr r = 0x7c00 + 512 * n"
    by (rule read_request_made [of s0 bios]) (use less.prems in \<open>auto simp: s0_def addressable_def disk_size_def\<close>)
  define s1 where "s1 = s0\<lparr>requests := requests s0 @ [r]\<rparr>"
  define s2 where "s2 = next_part s1"
  have n2: "unat (start_sector s2) = n + 0x20" "unat (total_sectors s2) = t - 0x20"
    "unat (buffer_selector s2) = 0x7c0 + 0x20 * (n + 0x20)"
    using next_part_simps [of s1] less.prems by (simp_all add: s2_def s1_def s0_def)
  have same: "sector_maximum s2 = sector_maximum s" "header_maximum s2 = header_maximum s" "eax_high s2 = 0"
    "buffer_offset s2 = 0" "requests s2 = requests s @ [r]"
    using less.prems by (simp_all add: s2_def s1_def s0_def next_part_def)
  have mem: "disk_loaded s2 = image_below (n + 0x20)"
    using less.prems place_next [OF r(4,2)] r(3) by (simp add: same loaded_append)
  have "take_bit 16 (total_sectors s2) = total_sectors s2"
    using n2(2) less.prems by (intro take_bit_small) simp
  then have zero: "take_bit 16 (total_sectors s2) = 0 \<longleftrightarrow> t = 0x20"
    using n2(2) less.prems by (metis diff_is_0_eq le_antisym le_refl unat_0 unat_eq_zero)
  have more: "0x20 \<le> total_sectors s2 \<longleftrightarrow> 0x40 \<le> t" using n2(2) less.prems(10) by (auto simp: word_le_nat_alt)
  have step: "loop_read bios s = (if t = 0x20 then Some (Inr (s2, 0))
      else if 0x40 \<le> t then loop_read bios s2
      else Some (read_sector_with_chs bios (s2\<lparr>read_sectors := ucast (total_sectors s2)\<rparr>)))"
    unfolding s2_def zero [unfolded s2_def, symmetric] more [unfolded s2_def, symmetric]
    by (rule loop_read_served) (simp only: r(1) s1_def flip: s0_def)
  consider "t = 0x20" | "0x20 < t" "t < 0x40" | "0x40 \<le> t" using less.prems(10) by linarith
  then show ?case
  proof cases
    case 1
    then show ?thesis using step mem same by simp
  next
    case 2
    let ?s = "s2\<lparr>read_sectors := ucast (total_sectors s2)\<rparr>"
    obtain r' where r': "read_sector_with_chs bios ?s = Inr (?s\<lparr>requests := requests ?s @ [r']\<rparr>, 0)"
      "rq_sector (unat (sector_maximum s)) (unat (header_maximum s)) r' = n + 0x20"
      "rq_count r' = ucast (read_sectors ?s)" "rq_addr r' = 0x7c00 + 512 * (n + 0x20)"
    proof (rule read_request_made [of ?s bios])
      show "addressable ?s" "eax_high ?s = 0" using less.prems(2) same by (simp_all add: addressable_def)
      show "unat (start_sector ?s) < disk_size ?s"
        using less.prems(12) 2 n2(1) same by (simp add: disk_size_def)
    qed (use less.prems(1) n2 same in simp)
    have "unat (rq_count r') = t - 0x20" using r'(3) n2(2) 2
      by (simp add: unsigned_ucast_eq unsigned_take_bit_eq take_bit_nat_eq_self)
    then have "place (unat (sector_maximum s)) (unat (header_maximum s)) r' (image_below (n + 0x20)) = image_below (n + t)"
      using place_next [OF r'(4,2)] 2 by simp
    then show ?thesis using step r'(1) 2 mem same by (simp add: loaded_append)
  next
    case 3
    have "\<exists>s'. loop_read bios s2 = Some (Inr (s', 0)) \<and> disk_loaded s' = image_below (n + 0x20 + (t - 0x20)) \<and>
        sector_maximum s' = sector_maximum s2 \<and> header_maximum s' = header_maximum s2"
      by (rule less.IH [OF _ less.prems(1) _ _ _ n2(1,2,3) mem])
        (use less.prems 3 same in \<open>auto simp: addressable_def disk_size_def\<close>)
    then show ?thesis using step same 3 by simp
  qed
qed

text \<open>The first sector, which both sizes of the instructions without suffix leave to the loop in the same way.\<close>

lemma load_module_first:
  assumes "\<forall>rs r. bios rs r = 0" "addressable s" "eax_high s = 0" "requests s = []" "sz = 16 \<or> sz = 32"
    and "start_sector s = 0" "1 \<le> unat (total_sectors s)" "unat (total_sectors s) \<le> 1984"
  obtains r where "load_module sz bios s = loop_read bios (s\<lparr>read_sectors := 1, requests := [r], start_sector := 2,
      total_sectors := total_sectors s - 1, buffer_selector := 0x800, buffer_offset := 0\<rparr>)"
    and "rq_sector (unat (sector_maximum s)) (unat (header_maximum s)) r = 1" "rq_count r = 1" "rq_addr r = 0x7e00"
proof -
  let ?s = "s\<lparr>buffer_offset := 0x7e00, buffer_selector := 0, read_sectors := 1, start_sector := 1\<rparr>"
  have one: "low_op 16 (\<lambda>_. 1) (start_sector s) = 1" using assms(6) by (simp add: low_op_small)
  obtain r where r: "read_sector_with_chs bios ?s = Inr (?s\<lparr>requests := [r]\<rparr>, 0)"
    "rq_sector (unat (sector_maximum s)) (unat (header_maximum s)) r = 1" "rq_count r = 1" "rq_addr r = 0x7e00"
    by (rule read_request_made [of ?s bios])
      (use assms disk_size_pos [OF assms(2)] in \<open>auto simp: addressable_def disk_size_def\<close>)
  have t: "unat (total_sectors s - 1) = unat (total_sectors s) - 1" using assms(7) by (intro unat_pred_pos) simp
  have ops: "low_op sz (\<lambda>x. x + 1) (1 :: u32) = 2" "low_op sz (\<lambda>x. x - 1) (total_sectors s) = total_sectors s - 1"
    using assms(5,8) t by (auto intro!: low_op_small simp: low_op_small)
  show thesis
    by (rule that [of r]) (use r in \<open>simp_all add: load_module_def one ops\<close>)
qed


definition floppy :: disk_vars where
  "floppy = \<lparr>read_sectors = 0, buffer_offset = 0, buffer_selector = 0, start_sector = 0, total_sectors = 75,
     driver_type = 4, driver_number = 0, cylinder_maximum = 80, header_maximum = 2, sector_maximum = 18,
     eax_high = 0, requests = []\<rparr>"


text \<open>
  The loop subtracts 32 sectors before it looks at what is left: for an image of at most 32 sectors the
  16-bit subtraction wraps, and the loop goes on, with sector 34 and more than 65000 sectors to read.
\<close>

theorem short_image_overruns:
  assumes "\<forall>rs r. bios rs r = 0" "addressable s" "eax_high s = 0" "requests s = []" "sz = 16 \<or> sz = 32"
    and "start_sector s = 0" "1 \<le> unat (total_sectors s)" "unat (total_sectors s) \<le> 32"
  shows "\<exists>s'. load_module sz bios s = loop_read bios s' \<and> length (requests s') = 2 \<and>
    unat (start_sector s') = 34 \<and> unat (total_sectors s') = unat (total_sectors s) + 65503"
proof -
  have "unat (total_sectors s) \<le> 1984" using assms(8) by simp
  then obtain r where r: "load_module sz bios s = loop_read bios (s\<lparr>read_sectors := 1, requests := [r], start_sector := 2,
      total_sectors := total_sectors s - 1, buffer_selector := 0x800, buffer_offset := 0\<rparr>)"
    using load_module_first [OF assms(1-7)] by metis
  define s0 where "s0 = s\<lparr>read_sectors := 1, requests := [r], start_sector := 2,
      total_sectors := total_sectors s - 1, buffer_selector := 0x800, buffer_offset := 0\<rparr>"
  define s1 where "s1 = s0\<lparr>read_sectors := 0x20\<rparr>"
  have s1: "addressable s1" "eax_high s1 = 0" "unat (start_sector s1) < disk_size s1"
    using assms(2,3) disk_size_pos [OF assms(2)] by (simp_all add: s1_def s0_def addressable_def disk_size_def)
  obtain r' where r': "read_sector_with_chs bios s1 = Inr (s1\<lparr>requests := [r, r']\<rparr>, 0)"
    by (rule read_request_made [OF s1, of bios]) (use assms(1) in \<open>simp add: s1_def s0_def\<close>)
  define s2 where "s2 = next_part (s1\<lparr>requests := [r, r']\<rparr>)"
  have t: "unat (total_sectors s - 1) = unat (total_sectors s) - 1" using assms(7) by (intro unat_pred_pos) simp
  have "unat (total_sectors s - 1 - 0x20) = unat (total_sectors s) + 65503 + 65535 * 65536"
    using t assms(7,8) by (simp add: unat_sub_if' del: diff_diff_eq)
  moreover have "unat (total_sectors s2) = take_bit 16 (unat (total_sectors s - 1 - 0x20))"
    using t assms(8) by (simp add: s2_def s1_def s0_def next_part_def low_op_low unsigned_take_bit_eq del: diff_diff_eq)
  ultimately have "unat (total_sectors s2) = (unat (total_sectors s) + 65503 + 65535 * 65536) mod 65536"
    by (simp only: take_bit_eq_mod) simp
  then have left: "unat (total_sectors s2) = unat (total_sectors s) + 65503"
    using assms(8) unfolding mod_mult_self1 by simp
  have "take_bit 16 (total_sectors s2) = total_sectors s2" using left assms(8) by (intro take_bit_small) simp
  moreover have "total_sectors s2 \<noteq> 0" "0x20 \<le> total_sectors s2" using left by (auto simp: word_le_nat_alt)
  ultimately have "loop_read bios s0 = loop_read bios s2"
    using loop_read_served [of bios s0, folded s1_def, OF r', folded s2_def] by simp
  moreover have "unat (start_sector s2) = 34" "length (requests s2) = 2"
    by (simp_all add: s2_def s1_def s0_def next_part_def low_op_small)
  ultimately show ?thesis using left r by (auto simp: s0_def [symmetric])
qed

definition one_track :: disk_vars where
  "one_track = floppy\<lparr>total_sectors := 10\<rparr>"

theorem short_image_overruns_witness:
  "\<exists>s'. load_module 32 (\<lambda>rs r. 0) one_track = loop_read (\<lambda>rs r. 0) s' \<and> unat (total_sectors s') = 65513"
  using short_image_overruns [of "\<lambda>rs r. 0" one_track 32] by (auto simp: addressable_def floppy_def one_track_def)

section \<open>Failing reads\<close>

text \<open>The statuses of a sequence of requests.\<close>

fun statuses :: "bios_read \<Rightarrow> read_request list \<Rightarrow> read_request list \<Rightarrow> u8 list" where
  "statuses bios past [] = []"
| "statuses bios past (r # rs) = bios past r # statuses bios (past @ [r]) rs"

text \<open>A run that ended: some requests were made, none but the last failed, and AX is the last one's status.\<close>

definition ended_at_last :: "bios_read \<Rightarrow> disk_vars \<Rightarrow> disk_vars \<Rightarrow> u16 \<Rightarrow> bool" where
  "ended_at_last bios s s' ax \<longleftrightarrow> (\<exists>rs st. requests s' = requests s @ rs \<and>
     statuses bios (requests s) rs = map (\<lambda>_. 0) (tl rs) @ [st] \<and> ax = ucast st)"

lemma read_ended:
  assumes "read_sector_with_chs bios s = Inr (s', ax)"
  obtains r st where "requests s' = requests s @ [r]" "bios (requests s) r = st" "ax = ucast st"
  using assms by (auto simp: read_sector_with_chs_def Let_def split: option.splits)

lemma ended_at_last_read:
  "read_sector_with_chs bios s = Inr (s', ax) \<Longrightarrow> requests s = requests s0 \<Longrightarrow> ended_at_last bios s0 s' ax"
  by (erule read_ended) (auto simp: ended_at_last_def intro!: exI [of _ "[_]"])

lemma ended_at_last_step:
  assumes "read_sector_with_chs bios s = Inr (s1, 0)" "requests s = requests s0" "requests s2 = requests s1"
    and "ended_at_last bios s2 s' ax"
  shows "ended_at_last bios s0 s' ax"
proof -
  obtain r st where r: "requests s1 = requests s @ [r]" "bios (requests s) r = st" "(0 :: u16) = ucast st"
    by (rule read_ended [OF assms(1)])
  have "st = 0" using unat_ucast_byte [of st] by (simp flip: r(3) add: unat_eq_zero)
  obtain rs st' where rs: "requests s' = requests s2 @ rs" "statuses bios (requests s2) rs = map (\<lambda>_. 0) (tl rs) @ [st']"
    "ax = ucast st'"
    using assms(4) by (auto simp: ended_at_last_def)
  then have "rs \<noteq> []" by auto
  then have "map (\<lambda>_. 0 :: u8) rs = 0 # map (\<lambda>_. 0) (tl rs)" by (cases rs) auto
  then show ?thesis
    using r rs assms(2,3) \<open>st = 0\<close> unfolding ended_at_last_def by (intro exI [of _ "r # rs"]) auto
qed

lemma loop_read_ended:
  assumes "loop_read bios s = Some (Inr (s', ax))"
  shows "ended_at_last bios s s' ax"
proof -
  have "x = Inr (s', ax) \<longrightarrow> ended_at_last bios s s' ax" if "loop_read bios s = Some x" for x
  proof (rule loop_read.raw_induct [where P = "\<lambda>bios s x. x = Inr (s', ax) \<longrightarrow> ended_at_last bios s s' ax", OF _ that])
    fix f bios s x
    assume IH: "\<And>bios s x. f bios s = Some x \<Longrightarrow> x = Inr (s', ax) \<longrightarrow> ended_at_last bios s s' ax"
      and eq: "(case read_sector_with_chs bios (s\<lparr>read_sectors := 0x20\<rparr>) of
        Inl f \<Rightarrow> Some (Inl f)
      | Inr (s1, ax) \<Rightarrow>
          if ax \<noteq> 0 then Some (Inr (s1, ax))
          else let s2 = next_part s1 in
            if take_bit 16 (total_sectors s2) = 0 then Some (Inr (s2, ax))
            else if 0x20 \<le> total_sectors s2 then f bios s2
            else Some (read_sector_with_chs bios (s2\<lparr>read_sectors := ucast (total_sectors s2)\<rparr>))) = Some x"
    show "x = Inr (s', ax) \<longrightarrow> ended_at_last bios s s' ax"
    proof (cases "read_sector_with_chs bios (s\<lparr>read_sectors := 0x20\<rparr>)")
      case (Inr a)
      obtain s1 st where a: "a = (s1, st)" by (cases a)
      note read = Inr [unfolded a]
      show ?thesis
      proof (cases "st = 0")
        case False
        moreover have "ended_at_last bios s s1 st" by (rule ended_at_last_read [OF read]) simp
        ultimately show ?thesis using eq read by auto
      next
        case True
        let ?t = "total_sectors (next_part s1)"
        have step: "ended_at_last bios (next_part s1) s' ax \<Longrightarrow> ended_at_last bios s s' ax"
          by (rule ended_at_last_step [OF read [unfolded True]]) (simp_all add: next_part_def)
        have eq': "(if take_bit 16 ?t = 0 then Some (Inr (next_part s1, 0))
            else if 0x20 \<le> ?t then f bios (next_part s1)
            else Some (read_sector_with_chs bios ((next_part s1)\<lparr>read_sectors := ucast ?t\<rparr>))) = Some x"
          using eq unfolding read True sum.case prod.case Let_def by (simp only: simp_thms if_False)
        show ?thesis
        proof (cases "take_bit 16 ?t = 0")
          case True
          have "ended_at_last bios s s1 0" by (rule ended_at_last_read [OF read [unfolded \<open>st = 0\<close>]]) simp
          then show ?thesis using eq' True by (auto simp: ended_at_last_def next_part_def)
        next
          case more: False
          show ?thesis
          proof (cases "0x20 \<le> ?t")
            case True
            then have "f bios (next_part s1) = Some x" using eq' more by (simp only: if_True if_False)
            from IH [OF this] step show ?thesis by blast
          next
            case False
            then have rest: "read_sector_with_chs bios ((next_part s1)\<lparr>read_sectors := ucast ?t\<rparr>) = x"
              using eq' more by (simp only: if_False option.inject)
            show ?thesis
            proof
              assume "x = Inr (s', ax)"
              with rest have "read_sector_with_chs bios ((next_part s1)\<lparr>read_sectors := ucast ?t\<rparr>) = Inr (s', ax)"
                by simp
              then have "ended_at_last bios (next_part s1) s' ax" by (rule ended_at_last_read) simp
              then show "ended_at_last bios s s' ax" by (rule step)
            qed
          qed
        qed
      qed
    qed (use eq in auto)
  qed
  with assms show ?thesis by blast
qed

text \<open>
  Whenever the loader returns, every request but the last has succeeded, and it returns the status of
  the last: a failing read ends it at once.
\<close>

theorem load_module_stops_at_failure:
  assumes "load_module sz bios s = Some (Inr (s', ax))"
  shows "ended_at_last bios s s' ax"
proof -
  let ?s = "s\<lparr>buffer_offset := 0x7e00, buffer_selector := 0, read_sectors := 1,
    start_sector := low_op 16 (\<lambda>_. 1) (start_sector s)\<rparr>"
  obtain s1 st where read: "read_sector_with_chs bios ?s = Inr (s1, st)"
    using assms by (auto simp: load_module_def split: sum.splits)
  show ?thesis
  proof (cases "st = 0")
    case False
    moreover have "ended_at_last bios s s1 st" by (rule ended_at_last_read [OF read]) simp
    ultimately show ?thesis using assms read by (auto simp: load_module_def)
  next
    case True
    let ?s2 = "s1\<lparr>start_sector := low_op sz (\<lambda>x. x + 1) (start_sector s1),
      total_sectors := low_op sz (\<lambda>x. x - 1) (total_sectors s1), buffer_selector := 0x800, buffer_offset := 0\<rparr>"
    have "loop_read bios ?s2 = Some (Inr (s', ax))" using assms read True by (simp add: load_module_def)
    then have "ended_at_last bios ?s2 s' ax" by (rule loop_read_ended)
    then show ?thesis by (rule ended_at_last_step [OF read [unfolded True], rotated 2]) simp_all
  qed
qed

section \<open>The geometry\<close>

lemma cylinder_register:
  "unat (word_rotl 8 (push_bit 8 (ucast ch) OR ucast (drop_bit 6 cl) :: u16) AND 0x3ff) = chs_cylinder ch cl"
proof -
  have m: "(0x3ff :: u16) = mask 10" by (simp add: mask_eq_exp_minus_1)
  have r: "(n + 8) mod 16 = (if n < 8 then n + 8 else n - 8)" if "n < 16" for n :: nat
    using that by (auto simp: mod_if)
  have "word_rotl 8 (push_bit 8 (ucast ch) OR ucast (drop_bit 6 cl) :: u16) AND 0x3ff
      = ucast ch OR push_bit 8 (ucast (drop_bit 6 cl))"
    unfolding m by (rule bit_word_eqI)
      (auto simp: bit_word_rotl_iff bit_and_iff bit_or_iff bit_unsigned_iff bit_mask_iff bit_push_bit_iff
        bit_drop_bit_eq r dest: bit_imp_le_length split: if_splits)
  moreover have "unat (ucast ch OR push_bit 8 (ucast (drop_bit 6 cl)) :: u16) = unat ch + 256 * unat (drop_bit 6 cl)"
  proof -
    have "(ucast ch :: u16) AND push_bit 8 (ucast (drop_bit 6 cl)) = 0"
      by (rule bit_word_eqI)
        (auto simp: bit_and_iff bit_unsigned_iff bit_push_bit_iff dest: bit_imp_le_length)
    then have "ucast ch OR push_bit 8 (ucast (drop_bit 6 cl)) = (ucast ch + push_bit 8 (ucast (drop_bit 6 cl)) :: u16)"
      by (simp add: disjunctive_add_eq_or)
    moreover have d: "unat (drop_bit 6 cl) < 4"
      unfolding unat_drop_bit_eq using unsigned_less [of cl, where 'a = nat]
      by (simp add: drop_bit_eq_div div_less_iff_less_mult)
    moreover have c: "unat ch < 256" using unsigned_less [of ch] by simp
    moreover have "unat (push_bit 8 (ucast (drop_bit 6 cl)) :: u16) = 256 * unat (drop_bit 6 cl)"
      using d by (simp add: push_bit_eq_mult unat_word_ariths unsigned_ucast_eq take_bit_nat_eq_self)
    ultimately show ?thesis by (simp add: unat_word_ariths unsigned_ucast_eq take_bit_nat_eq_self)
  qed
  ultimately show ?thesis by (simp add: chs_cylinder_def)
qed

lemma chs_cylinder_less: "chs_cylinder ch cl < 1024"
proof -
  have "(0x3ff :: u16) = mask 10" by (simp add: mask_eq_exp_minus_1)
  then show ?thesis
    using unat_mask_less [of "word_rotl 8 (push_bit 8 (ucast ch) OR ucast (drop_bit 6 cl) :: u16)" 10]
    unfolding cylinder_register [symmetric] by simp
qed

text \<open>
  The geometry after a successful call is the one that the BIOS reports, with the numbers of cylinders
  and heads one higher than the largest ones; the number of heads is kept in a byte, so that 256 heads
  become none, and every read then divides by zero.
\<close>

lemma low_byte: "unat x < 256 \<Longrightarrow> low_op 8 (\<lambda>_. ucast (b :: u8)) (x :: u16) = ucast b"
  using unsigned_less [of b, where 'a = nat] by (simp add: low_op_small unat_ucast_byte)

theorem get_driver_parameters_geometry:
  assumes "\<not> rp_carry r" "unat (header_maximum s) < 256" "unat (sector_maximum s) < 256" "sz = 8 \<or> sz = 16"
    and "get_driver_parameters sz (\<lambda>_. r) s = (s', ax)"
  shows "ax = ucast (rp_ah r)" "unat (cylinder_maximum s') = chs_cylinder (rp_ch r) (rp_cl r) + 1"
    and "unat (sector_maximum s') = chs_sector (rp_cl r)" "unat (header_maximum s') = (unat (rp_dh r) + 1) mod 256"
    and "rp_dh r = 255 \<Longrightarrow> eax_high s = 0 \<Longrightarrow> read_sector_with_chs bios s' = Inl Divide_error"
proof -
  have b: "unat (ucast (rp_cl r) :: u16) < 256"
    using unsigned_less [of "rp_cl r", where 'a = nat] by (simp add: unat_ucast_byte)
  have m: "(0x3f :: u16) = mask 6" "(0x3f :: u8) = mask 6" by (simp_all add: mask_eq_exp_minus_1)
  have and_small: "unat (x AND 0x3f) < 64" for x :: u16 unfolding m using unat_mask_less [of x 6] by simp
  have "low_op sz (\<lambda>x. x AND 0x3f) (ucast (rp_cl r) :: u16) = ucast (rp_cl r) AND 0x3f"
    using assms(4) b and_small [of "ucast (rp_cl r)"] by (auto intro!: low_op_small)
  moreover have "(ucast (rp_cl r) AND 0x3f :: u16) = ucast (rp_cl r AND 0x3f)"
    unfolding m by (rule bit_word_eqI) (auto simp: bit_and_iff bit_unsigned_iff bit_mask_iff)
  ultimately have sec: "low_op sz (\<lambda>x. x AND 0x3f) (ucast (rp_cl r) :: u16) = ucast (rp_cl r AND 0x3f)" by simp
  have s': "s' = s\<lparr>driver_type := rp_bl r, header_maximum := ucast (rp_dh r + 1), sector_maximum := ucast (rp_cl r AND 0x3f),
      cylinder_maximum := (word_rotl 8 (push_bit 8 (ucast (rp_ch r)) OR ucast (drop_bit 6 (rp_cl r))) AND 0x3ff) + 1\<rparr>"
    and "ax = ucast (rp_ah r)"
    using assms by (simp_all add: get_driver_parameters_def low_byte sec)
  then show "ax = ucast (rp_ah r)" by simp
  have "chs_cylinder (rp_ch r) (rp_cl r) < 1024" by (rule chs_cylinder_less)
  then show "unat (cylinder_maximum s') = chs_cylinder (rp_ch r) (rp_cl r) + 1"
    by (simp add: s' unat_word_ariths cylinder_register)
  show "unat (sector_maximum s') = chs_sector (rp_cl r)"
    by (simp add: s' chs_sector_def unat_ucast_byte)
  show "unat (header_maximum s') = (unat (rp_dh r) + 1) mod 256"
    by (simp add: s' unsigned_ucast_eq unat_word_ariths take_bit_nat_eq_self)
  show "read_sector_with_chs bios s' = Inl Divide_error" if "rp_dh r = 255" "eax_high s = 0"
    using that by (simp add: s' read_sector_with_chs_def do_lba_to_chs_def)
qed

section \<open>The packet of the extended read\<close>

text \<open>
  The bytes from the label \<^verbatim>\<open>disk_address_packet\<close> on, and the call that is meant to hand them to the BIOS: the
  instruction loads SI with the first word of the packet, not with its address.
\<close>

definition word_bytes :: "nat \<Rightarrow> 'a::len word \<Rightarrow> u8 list" where
  "word_bytes n w = map (\<lambda>i. ucast (drop_bit (8 * i) w)) [0..<n]"

definition disk_address_packet :: "disk_vars \<Rightarrow> u8 list" where
  "disk_address_packet s = [0x10] @ word_bytes 2 (read_sectors s) @ word_bytes 2 (buffer_offset s) @
     word_bytes 2 (buffer_selector s) @ word_bytes 4 (start_sector s) @ [0, 0, 0, 0] @ word_bytes 4 (total_sectors s)"

record extended_call =
  ec_ah :: u8
  ec_dl :: u8
  ec_si :: u16

definition read_sector_with_extension :: "disk_vars \<Rightarrow> extended_call" where
  "read_sector_with_extension s = \<lparr>ec_ah = 0x42, ec_dl = 0,
     ec_si = ucast (disk_address_packet s ! 0) OR push_bit 8 (ucast (disk_address_packet s ! 1))\<rparr>"

text \<open>
  The specification's packet has a reserved byte after its size, so that what the BIOS would take as the
  number of sectors (bytes 2 and 3) is made of the upper byte of that number and the lower byte
  of the offset; and SI depends on the number of sectors.
\<close>

lemma extended_read_misdirected:
  "take 2 (drop 2 (disk_address_packet s)) = [ucast (drop_bit 8 (read_sectors s)), ucast (buffer_offset s)]"
  "ec_si (read_sector_with_extension s) = 0x10 OR push_bit 8 (ucast (ucast (read_sectors s) :: u8))"
  by (simp_all add: disk_address_packet_def read_sector_with_extension_def word_bytes_def upt_rec)

end
