(* ===== verification/Guest_Ports.thy ===== *)
theory Guest_Ports
  imports VL_Prelude
begin

unbundle bit_operations_syntax

text \<open>
  Port input and output of the guest: the timer mask of \<^verbatim>\<open>src/asm/pre_run.S\<close> and the macros of
  \<^verbatim>\<open>src/asm/CPU.h\<close>, none of which the guest expands. Each reads a port, changes bits and writes
  the byte back. The symbols of the macros' ports are not defined in the sources, so that the port numbers are
  parameters; a port is a register that reads back what was written.
\<close>

section \<open>Ports\<close>

type_synonym ports = "u16 \<Rightarrow> u8"

definition update_port :: "u16 \<Rightarrow> (u8 \<Rightarrow> u8) \<Rightarrow> ports \<Rightarrow> ports" where
  "update_port port f p = p(port := f (p port))"

definition disable_timer :: "ports \<Rightarrow> ports" where
  "disable_timer = update_port 0x21 (\<lambda>al. al OR 0x1)"

definition enable_timer :: "ports \<Rightarrow> ports" where
  "enable_timer = update_port 0x21 (\<lambda>al. al AND 0xfe)"

definition FAST_A20_ENABLE :: "u8 \<Rightarrow> ports \<Rightarrow> ports" where
  "FAST_A20_ENABLE system_control_porta = update_port (ucast system_control_porta) (\<lambda>al. al OR 0x02)"

definition NMI_DISABLE :: "u8 \<Rightarrow> ports \<Rightarrow> ports" where
  "NMI_DISABLE nmi_en_port = update_port (ucast nmi_en_port) (\<lambda>al. al OR 0x80)"

definition NMI_ENABLE :: "u8 \<Rightarrow> ports \<Rightarrow> ports" where
  "NMI_ENABLE nmi_en_port = update_port (ucast nmi_en_port) (\<lambda>al. al AND 0x7f)"

definition RESET_CPU :: "u16 \<Rightarrow> ports \<Rightarrow> ports" where
  "RESET_CPU reset_control_register = update_port reset_control_register (\<lambda>al. al OR 0x3)"

text \<open>Here the operand of \<^verbatim>\<open>mov\<close> has no dollar sign: the port is the word in memory at the symbol's value.\<close>

definition INIT_CPU :: "(u16 \<Rightarrow> u16) \<Rightarrow> u16 \<Rightarrow> ports \<Rightarrow> ports" where
  "INIT_CPU word_at fast_a20_init_register =
     update_port (word_at fast_a20_init_register) (\<lambda>al. al OR 0x1)"

section \<open>Delays\<close>

text \<open>\<^verbatim>\<open>dec %ecx\<close> and \<^verbatim>\<open>jnz\<close>: the number of passes of the loop from a value of ECX.\<close>

function delay_passes :: "u32 \<Rightarrow> nat" where
  "delay_passes ecx = (if ecx - 1 = 0 then 1 else Suc (delay_passes (ecx - 1)))"
  by pat_completeness auto
termination
proof (relation "measure (\<lambda>ecx. unat (ecx - 1))")
  fix ecx :: u32
  assume "ecx - 1 \<noteq> 0"
  then show "(ecx - 1, ecx) \<in> measure (\<lambda>ecx. unat (ecx - 1))"
    using unat_pred_pos [of "ecx - 1"] by (simp add: unat_gt_0)
qed simp

declare delay_passes.simps [simp del]

definition DELAY :: nat where
  "DELAY = delay_passes 0xffff"

definition DELAY1 :: nat where
  "DELAY1 = delay_passes 0xffffffff"

text \<open>The loop is passed as often as its counter says, and \<open>2 ^ 32\<close> times for zero.\<close>

lemma delay_passes_count: "delay_passes ecx = Suc (unat (ecx - 1))"
proof (induction ecx rule: delay_passes.induct)
  case (1 ecx)
  show ?case
  proof (cases "ecx - 1 = 0")
    case False
    then have "Suc (unat (ecx - 1 - 1)) = unat (ecx - 1)"
      using unat_pred_pos [of "ecx - 1"] by (simp add: unat_gt_0)
    with "1.IH" [OF False] False show ?thesis by (subst delay_passes.simps) simp
  qed (subst delay_passes.simps, simp)
qed

lemma delays: "DELAY = 65535" "DELAY1 = 4294967295" "delay_passes 0 = 4294967296"
  by (simp_all add: DELAY_def DELAY1_def delay_passes_count unsigned_minus_1_eq_mask mask_eq_exp_minus_1)

section \<open>Effect on the ports\<close>

text \<open>
  Each operation sets or clears one bit (a reset two) of one port, and the operations on the timer
  and on the interrupt undo each other on every port but for that bit.
\<close>

lemma port_bits:
  "bit (update_port port f p q) n = (if q = port then bit (f (p q)) n else bit (p q) n)"
  by (simp add: update_port_def)

lemma timer_bits:
  "bit (disable_timer p q) n \<longleftrightarrow> bit (p q) n \<or> q = 0x21 \<and> n = 0"
  "n < 8 \<Longrightarrow> bit (enable_timer p q) n \<longleftrightarrow> bit (p q) n \<and> \<not> (q = 0x21 \<and> n = 0)"
proof -
  have m: "(0x1 :: u8) = mask 1" "(0xfe :: u8) = NOT (mask 1)" by simp_all
  show "bit (disable_timer p q) n \<longleftrightarrow> bit (p q) n \<or> q = 0x21 \<and> n = 0"
    unfolding disable_timer_def m by (auto simp: port_bits bit_or_iff bit_mask_iff bit_1_iff)
  show "bit (enable_timer p q) n \<longleftrightarrow> bit (p q) n \<and> \<not> (q = 0x21 \<and> n = 0)" if "n < 8"
    unfolding enable_timer_def m using that by (auto simp: port_bits bit_and_iff bit_not_iff bit_mask_iff)
qed

lemma enable_timer_disable: "enable_timer (disable_timer p) = enable_timer p"
  by (rule ext, rule bit_word_eqI) (auto simp: timer_bits)

lemma NMI_DISABLE_enable: "NMI_DISABLE port (NMI_ENABLE port p) = NMI_DISABLE port p"
proof -
  have m: "(0x7f :: u8) = mask 7" "(0x80 :: u8) = NOT (mask 7)" by (simp_all add: mask_eq_exp_minus_1)
  have "(al AND 0x7f) OR 0x80 = al OR (0x80 :: u8)" for al
    unfolding m by (rule bit_word_eqI) (auto simp: bit_and_iff bit_or_iff bit_not_iff bit_mask_iff)
  then show ?thesis by (simp add: NMI_DISABLE_def NMI_ENABLE_def update_port_def)
qed

end
