(* ===== verification/Guest_Text.thy ===== *)
theory Guest_Text
  imports VL_Prelude
begin

unbundle bit_operations_syntax

text \<open>
  The text output of the guest (\<^verbatim>\<open>src/asm/libs64.S\<close>): the cursor \<^verbatim>\<open>video_current\<close>, characters, strings
  and hexadecimal numbers. A routine changes the cursor and stores words to the screen; the stores are
  kept in order, since on the monitor each of them is an exit. The zero-terminated strings of the
  image are lists of bytes, of which the routines take what is before the first zero; a null
  pointer is \<^term>\<open>None\<close>.
\<close>

section \<open>State\<close>

record text_state =
  video_current :: u64
  stores :: "(u64 \<times> u16) list"

definition initial_text :: text_state where
  "initial_text = \<lparr>video_current = 0xb8000, stores = []\<rparr>"

section \<open>Strings and the cursor\<close>

definition zero_terminated :: "u8 list \<Rightarrow> u8 list" where
  "zero_terminated bs = takeWhile (\<lambda>b. b \<noteq> 0) bs"

definition guest_strlen :: "u8 list option \<Rightarrow> u64" where
  "guest_strlen p = (case p of None \<Rightarrow> -1 | Some bs \<Rightarrow> of_nat (length (zero_terminated bs)))"

definition get_current_row :: "text_state \<Rightarrow> u64" where
  "get_current_row t = (video_current t - 0xb8000) div (80 * 2)"

text \<open>The offset in bytes within the row.\<close>

definition get_current_column :: "text_state \<Rightarrow> u64" where
  "get_current_column t = (video_current t - 0xb8000) mod (80 * 2)"

section \<open>Characters\<close>

text \<open>
  A line feed moves the cursor to the start of the next row; another character is stored with the
  attribute 0x0f when the cursor is not past the end of the screen, and ignored otherwise.
\<close>

definition write_char :: "u16 \<Rightarrow> text_state \<Rightarrow> text_state" where
  "write_char si t =
     (let si = si OR 0x0f00 in
      if si = 0xf0a then t\<lparr>video_current := - get_current_column t + 80 * 2 + video_current t\<rparr>
      else if 0xb9ff0 < video_current t then t
      else t\<lparr>video_current := video_current t + 2, stores := stores t @ [(video_current t, si)]\<rparr>)"

definition guest_putc :: "u64 \<Rightarrow> text_state \<Rightarrow> text_state" where
  "guest_putc rsi t = write_char (ucast (rsi AND 0x00ff)) t"

definition guest_println :: "text_state \<Rightarrow> text_state" where
  "guest_println t = guest_putc 10 t"

definition guest_puts :: "u8 list option \<Rightarrow> text_state \<Rightarrow> text_state" where
  "guest_puts p t =
     (case p of None \<Rightarrow> t | Some bs \<Rightarrow> fold (\<lambda>b. guest_putc (ucast b)) (zero_terminated bs) t)"

section \<open>Hexadecimal numbers\<close>

definition number_character :: "u8 list" where
  "number_character = [0x30, 0x31, 0x32, 0x33, 0x34, 0x35, 0x36, 0x37, 0x38, 0x39,
                       0x41, 0x42, 0x43, 0x44, 0x45, 0x46]"

definition hex_to_char :: "u64 \<Rightarrow> u8" where
  "hex_to_char rsi = number_character ! unat (rsi AND 0x0f)"

lemma unat_count_down: "rdx \<noteq> 1 \<Longrightarrow> unat (rdx - 2) < unat (rdx - 1)" for rdx :: u64
  using unat_minus_one [of "rdx - 1"] unat_gt_0 [of "rdx - 1"] by simp

text \<open>
  The loop over the digits, the most significant first. The count of the shift is the low byte of RDX
  times four, of which the processor takes six bits; a call with RDX 0 would wrap around.
\<close>

function hex_loop :: "u64 \<Rightarrow> u64 \<Rightarrow> text_state \<Rightarrow> text_state" where
  "hex_loop rdx rsi t =
     (let rdx1 = rdx - 1;
          cl = push_bit 2 (ucast rdx1 :: u8);
          t1 = guest_putc (ucast (hex_to_char (drop_bit (unat cl mod 64) rsi))) t
      in if rdx1 = 0 then t1 else hex_loop rdx1 rsi t1)"
  by pat_completeness auto
termination
  by (relation "measure (\<lambda>(rdx, rsi, t). unat (rdx - 1))") (simp_all add: Let_def unat_count_down del: diff_diff_eq)

declare hex_loop.simps [simp del]

definition print_byte_value :: "u64 \<Rightarrow> text_state \<Rightarrow> text_state" where
  "print_byte_value rsi t = hex_loop 2 rsi t"

definition print_word_value :: "u64 \<Rightarrow> text_state \<Rightarrow> text_state" where
  "print_word_value rsi t = hex_loop 4 rsi t"

definition print_dword_value :: "u64 \<Rightarrow> text_state \<Rightarrow> text_state" where
  "print_dword_value rsi t = hex_loop 8 rsi t"

definition print_qword_value :: "u64 \<Rightarrow> text_state \<Rightarrow> text_state" where
  "print_qword_value rsi t = hex_loop 16 rsi t"

text \<open>The three bytes that \<^verbatim>\<open>get_byte_hex_string\<close> leaves in its buffer.\<close>

definition get_byte_hex_string :: "u64 \<Rightarrow> u8 list" where
  "get_byte_hex_string rsi = [hex_to_char (drop_bit 4 rsi), hex_to_char rsi, 0]"

section \<open>The screen\<close>

text \<open>The states whose cursor is at a cell.\<close>

definition at_cell :: "nat \<Rightarrow> text_state \<Rightarrow> bool" where
  "at_cell i t \<longleftrightarrow> video_current t = cell_addr i"

lemma write_char_plain:
  assumes "at_cell i t" and "i \<le> 0xff8" and "si OR 0x0f00 \<noteq> 0xf0a"
  shows "write_char si t = t\<lparr>video_current := cell_addr (Suc i), stores := stores t @ [(cell_addr i, si OR 0x0f00)]\<rparr>"
proof -
  have "\<not> 0xb9ff0 < cell_addr i" using assms(2) by (simp add: word_less_nat_alt unat_cell_addr)
  then show ?thesis using assms(1,3) by (simp add: write_char_def at_cell_def cell_addr_Suc Let_def)
qed

lemma column_at_cell:
  assumes "i < 2 ^ 60"
  shows "(cell_addr i - 0xb8000) mod 160 = of_nat (2 * (i mod 80))"
proof -
  have "unat (of_nat (2 * i) :: u64) = 2 * i" using assms by (intro unat_of_nat_small) simp
  then have "unat ((of_nat (2 * i) :: u64) mod 160) = 2 * i mod 160" by (simp add: unat_mod)
  also have "2 * i mod 160 = 2 * (i mod 80)" using mult_mod_right [of 2 i 80] by simp
  finally have "unat ((of_nat (2 * i) :: u64) mod 160) = 2 * (i mod 80)" .
  then have "(of_nat (2 * i) :: u64) mod 160 = of_nat (2 * (i mod 80))" by (metis of_nat_unat ucast_id)
  then show ?thesis by (simp add: cell_addr_def)
qed

lemma write_char_newline:
  assumes "at_cell i t" and "i < 2 ^ 60"
  shows "write_char 10 t = t\<lparr>video_current := cell_addr ((i div 80 + 1) * 80)\<rparr>"
proof -
  have "of_nat (2 * i) = (of_nat (2 * (i mod 80)) + of_nat (2 * (i div 80 * 80)) :: u64)"
    by (simp only: of_nat_add [symmetric] distrib_left [symmetric] mod_div_mult_eq)
  then have "- of_nat (2 * (i mod 80)) + 160 + cell_addr i = cell_addr ((i div 80 + 1) * 80)"
    by (simp add: cell_addr_def algebra_simps)
  then show ?thesis using assms(1) column_at_cell [OF assms(2)]
    by (simp add: write_char_def get_current_column_def at_cell_def)
qed

text \<open>Characters of a line: no zero, which ends the string, and no line feed.\<close>

definition printable :: "u8 \<Rightarrow> bool" where
  "printable b \<longleftrightarrow> b \<noteq> 0 \<and> b \<noteq> 10"

definition screen_word :: "u8 \<Rightarrow> u16" where
  "screen_word b = ucast b OR 0x0f00"

definition line_stores :: "nat \<Rightarrow> u8 list \<Rightarrow> (u64 \<times> u16) list" where
  "line_stores i cs = map (\<lambda>(k, c). (cell_addr k, screen_word c)) (enumerate i cs)"

lemma bit_attribute: "bit (0x0f00 :: u16) n \<longleftrightarrow> 8 \<le> n \<and> n < 12"
proof -
  have e: "(0x0f00 :: u16) = push_bit 8 (mask 4)" by (simp add: mask_eq_exp_minus_1)
  show ?thesis unfolding e bit_push_bit_iff bit_mask_iff by auto
qed

lemma screen_word_low: "ucast (screen_word b) = b"
  by (rule bit_word_eqI) (unfold screen_word_def bit_unsigned_iff bit_or_iff bit_attribute, auto)

lemma screen_word_high: "ucast (drop_bit 8 (screen_word b)) = (0x0f :: u8)"
proof -
  have e: "(0x0f :: u8) = mask 4" by (simp add: mask_eq_exp_minus_1)
  show ?thesis unfolding e
    by (rule bit_word_eqI) (unfold screen_word_def bit_unsigned_iff bit_drop_bit_eq comp_apply bit_or_iff bit_attribute
        bit_mask_iff, auto dest: bit_imp_le_length)
qed

lemma screen_word_newline: "screen_word b = 0xf0a \<longleftrightarrow> b = 10"
proof
  assume "screen_word b = 0xf0a"
  then have "b = ucast (0xf0a :: u16)" using screen_word_low [of b] by simp
  then show "b = 10" by simp
qed (simp add: screen_word_def)

lemma putc_byte: "guest_putc (ucast (b :: u8)) t = write_char (ucast b) t"
proof -
  have "ucast ((ucast b :: u64) AND 0xff) = (ucast b :: u16)"
  proof (rule bit_word_eqI)
    fix n assume "n < LENGTH(16)"
    have e: "(0xff :: u64) = mask 8" by (simp add: mask_eq_exp_minus_1)
    show "bit (ucast ((ucast b :: u64) AND 0xff) :: u16) n = bit (ucast b :: u16) n"
      unfolding e bit_unsigned_iff bit_and_iff bit_mask_iff by (auto dest: bit_imp_le_length)
  qed
  then show ?thesis by (simp add: guest_putc_def)
qed

lemma putc_printable:
  assumes "at_cell i t" "i \<le> 0xff8" "printable b"
  shows "guest_putc (ucast b) t = t\<lparr>video_current := cell_addr (Suc i), stores := stores t @ [(cell_addr i, screen_word b)]\<rparr>"
  using write_char_plain [OF assms(1,2), of "ucast b"] assms(3) screen_word_newline [of b]
  by (simp add: putc_byte printable_def screen_word_def)

lemma putc_newline:
  assumes "at_cell i t" "i < 2 ^ 60"
  shows "guest_putc 10 t = t\<lparr>video_current := cell_addr ((i div 80 + 1) * 80)\<rparr>"
  using write_char_newline [OF assms] putc_byte [of 10 t] by simp

lemma puts_line:
  assumes "at_cell i t" and "\<forall>b \<in> set cs. printable b" and "i + length cs \<le> 0xff9"
  shows "fold (\<lambda>b. guest_putc (ucast b)) cs t =
    t\<lparr>video_current := cell_addr (i + length cs), stores := stores t @ line_stores i cs\<rparr>"
  using assms
proof (induction cs arbitrary: i t)
  case Nil
  then show ?case by (cases t) (simp add: at_cell_def line_stores_def)
next
  case (Cons c cs)
  let ?t = "t\<lparr>video_current := cell_addr (Suc i), stores := stores t @ [(cell_addr i, screen_word c)]\<rparr>"
  have "guest_putc (ucast c) t = ?t" using Cons.prems by (intro putc_printable) auto
  moreover have "fold (\<lambda>b. guest_putc (ucast b)) cs ?t =
      ?t\<lparr>video_current := cell_addr (Suc i + length cs), stores := stores ?t @ line_stores (Suc i) cs\<rparr>"
    using Cons.prems by (intro Cons.IH) (auto simp: at_cell_def)
  ultimately show ?case by (simp add: line_stores_def)
qed

text \<open>A text of several lines, each ended by a line feed, and the rows that it takes.\<close>

definition text_of_lines :: "u8 list list \<Rightarrow> u8 list" where
  "text_of_lines ls = concat (map (\<lambda>l. l @ [10]) ls)"

definition rows :: "u8 list \<Rightarrow> nat" where
  "rows l = length l div 80 + 1"

fun lines_stores :: "nat \<Rightarrow> u8 list list \<Rightarrow> (u64 \<times> u16) list" where
  "lines_stores r [] = []"
| "lines_stores r (l # ls) = line_stores (r * 80) l @ lines_stores (r + rows l) ls"

lemma puts_lines:
  assumes "at_cell (r * 80) t" and "\<forall>l \<in> set ls. \<forall>b \<in> set l. printable b" and "r + sum_list (map rows ls) \<le> 51"
  shows "fold (\<lambda>b. guest_putc (ucast b)) (text_of_lines ls) t =
    t\<lparr>video_current := cell_addr ((r + sum_list (map rows ls)) * 80), stores := stores t @ lines_stores r ls\<rparr>"
  using assms
proof (induction ls arbitrary: r t)
  case Nil
  then show ?case by (cases t) (simp add: at_cell_def text_of_lines_def)
next
  case (Cons l ls)
  let ?n = "r * 80 + length l"
  let ?t1 = "t\<lparr>video_current := cell_addr ?n, stores := stores t @ line_stores (r * 80) l\<rparr>"
  let ?t2 = "?t1\<lparr>video_current := cell_addr ((r + rows l) * 80)\<rparr>"
  have le: "r + rows l \<le> 51" using Cons.prems(3) by simp
  have n: "?n < (r + rows l) * 80" using mod_less_divisor [of 80 "length l"] div_mult_mod_eq [of "length l" 80]
    by (simp add: rows_def add_mult_distrib)
  then have small: "?n \<le> 0xff9" using le by simp
  have "fold (\<lambda>b. guest_putc (ucast b)) l t = ?t1" using Cons.prems small by (intro puts_line) auto
  moreover have "guest_putc 10 ?t1 = ?t2"
  proof -
    have "(?n div 80 + 1) * 80 = (r + rows l) * 80" by (simp add: rows_def)
    then show ?thesis using small putc_newline [of ?n ?t1] by (simp only:) (simp add: at_cell_def)
  qed
  moreover have "fold (\<lambda>b. guest_putc (ucast b)) (text_of_lines ls) ?t2 =
      ?t2\<lparr>video_current := cell_addr ((r + rows l + sum_list (map rows ls)) * 80),
          stores := stores ?t2 @ lines_stores (r + rows l) ls\<rparr>"
    using Cons.prems by (intro Cons.IH) (auto simp: at_cell_def)
  ultimately show ?case by (simp add: text_of_lines_def add.assoc)
qed

lemma text_zero_terminated:
  "\<forall>l \<in> set ls. \<forall>b \<in> set l. printable b \<Longrightarrow> zero_terminated (text_of_lines ls) = text_of_lines ls"
  by (auto simp: zero_terminated_def takeWhile_eq_all_conv text_of_lines_def printable_def)

section \<open>Numbers\<close>

definition hex_digits :: "nat \<Rightarrow> u64 \<Rightarrow> u8 list" where
  "hex_digits n v = map (\<lambda>k. hex_to_char (drop_bit (4 * k) v)) (rev [0..<n])"

definition digit_value :: "u8 \<Rightarrow> nat" where
  "digit_value c = (if c < 0x3a then unat c - 0x30 else unat c - 0x37)"

definition hex_value :: "u8 list \<Rightarrow> nat" where
  "hex_value cs = foldl (\<lambda>a c. a * 16 + digit_value c) 0 cs"

lemma hex_digits_simps [simp]:
  "hex_digits 0 v = []" "hex_digits (Suc n) v = hex_to_char (drop_bit (4 * n) v) # hex_digits n v"
  by (simp_all add: hex_digits_def)

lemma length_hex_digits [simp]: "length (hex_digits n v) = n"
  by (simp add: hex_digits_def)

lemma digit_characters:
  "list_all (\<lambda>x. printable (number_character ! x) \<and> digit_value (number_character ! x) = x)
     [0, 1, 2, 3, 4, 5, 6, 7, 8, 9, 10, 11, 12, 13, 14, 15]"
  by (simp add: number_character_def printable_def digit_value_def)

lemma hex_to_char_digit: "printable (hex_to_char v)" "digit_value (hex_to_char v) = unat v mod 16"
proof -
  have e: "v AND 0xf = take_bit 4 v" by (simp add: take_bit_eq_mask mask_eq_exp_minus_1)
  have x: "unat (v AND 0xf) = unat v mod 16" unfolding e unsigned_take_bit_eq by (simp add: take_bit_eq_mod)
  have "unat v mod 16 \<in> set [0..<16]" by simp
  also have "[0..<16] = [0, 1, 2, 3, 4, 5, 6, 7, 8, 9, 10, 11, 12, 13, 14, 15]" by (simp add: upt_rec)
  finally have "printable (number_character ! (unat v mod 16)) \<and>
      digit_value (number_character ! (unat v mod 16)) = unat v mod 16"
    using digit_characters unfolding list_all_iff by blast
  then show "printable (hex_to_char v)" "digit_value (hex_to_char v) = unat v mod 16"
    by (simp_all only: hex_to_char_def x)
qed

lemma hex_digits_printable: "\<forall>b \<in> set (hex_digits n v). printable b"
  by (simp add: hex_digits_def hex_to_char_digit)

lemma hex_digits_value:
  "foldl (\<lambda>a c. a * 16 + digit_value c) a (hex_digits n v) = a * 16 ^ n + unat v mod 16 ^ n"
proof (induction n arbitrary: a)
  case (Suc n)
  have "unat (drop_bit (4 * n) v) = unat v div 16 ^ n"
    unfolding unat_drop_bit_eq by (simp add: drop_bit_eq_div power_mult)
  then have "digit_value (hex_to_char (drop_bit (4 * n) v)) = unat v div 16 ^ n mod 16"
    by (simp add: hex_to_char_digit)
  moreover have "unat v mod 16 ^ Suc n = 16 ^ n * (unat v div 16 ^ n mod 16) + unat v mod 16 ^ n"
    using mod_mult2_eq [of "unat v" "16 ^ n" 16] by (simp add: mult.commute)
  ultimately show ?case using Suc by (simp add: algebra_simps)
qed simp

lemma hex_loop_digits:
  "n < 16 \<Longrightarrow> hex_loop (of_nat (Suc n)) v t = fold (\<lambda>b. guest_putc (ucast b)) (hex_digits (Suc n) v) t"
proof (induction n arbitrary: t)
  case 0
  then show ?case by (simp add: hex_loop.simps [of 1] Let_def)
next
  case (Suc n)
  have n: "unat (of_nat (Suc n) :: u64) = Suc n" using Suc.prems by (intro unat_of_nat_small) simp
  then have ne: "(of_nat (Suc n) :: u64) \<noteq> 0" by (metis nat.simps(3) unat_0)
  have dec: "of_nat (Suc (Suc n)) - 1 = (of_nat (Suc n) :: u64)" by simp
  have "unat (push_bit 2 (ucast (of_nat (Suc n) :: u64) :: u8)) = 4 * Suc n"
  proof -
    have x: "unat (ucast (of_nat (Suc n) :: u64) :: u8) = Suc n"
      using n Suc.prems by (simp add: unsigned_ucast_eq take_bit_eq_mod del: of_nat_Suc)
    have "unat (push_bit 2 (ucast (of_nat (Suc n) :: u64) :: u8)) = Suc n * 4 mod 256"
      unfolding unsigned_push_bit_eq x by (simp add: push_bit_eq_mult take_bit_eq_mod)
    then show ?thesis using Suc.prems by simp
  qed
  then have cl: "unat (push_bit 2 (ucast (of_nat (Suc n) :: u64) :: u8)) mod 64 = 4 * Suc n" using Suc.prems by simp
  show ?case
    unfolding hex_loop.simps [of "of_nat (Suc (Suc n))"] dec Let_def cl hex_digits_simps(2) [of "Suc n"] fold_simps
    using ne Suc.IH [OF Suc_lessD [OF Suc.prems]] by (simp only: if_False)
qed

section \<open>Any text\<close>

lemma newline_forward:
  fixes a :: u64
  assumes "0xb8000 \<le> a" and "unat a + 160 < 2 ^ 64"
  shows "unat a \<le> unat (- ((a - 0xb8000) mod 160) + 160 + a) \<and> unat (- ((a - 0xb8000) mod 160) + 160 + a) \<le> unat a + 160"
proof -
  let ?c = "(a - 0xb8000) mod 160"
  have c: "unat ?c < 160" by (simp add: unat_mod)
  have "- ?c + 160 + a = of_nat (unat a + (160 - unat ?c))"
    using c by (simp add: of_nat_diff)
  moreover have "unat (of_nat (unat a + (160 - unat ?c)) :: u64) = unat a + (160 - unat ?c)"
    using assms(2) c by (intro unat_of_nat_small) simp
  ultimately have "unat (- ?c + 160 + a) = unat a + (160 - unat ?c)" by (simp only:)
  then show ?thesis using c by simp
qed

text \<open>What one character does to cursor and stores, wherever the cursor is.\<close>

lemma write_char_bounds:
  assumes "0xb8000 \<le> video_current t" and "unat (video_current t) + 160 < 2 ^ 64"
  obtains ws where "stores (write_char c t) = stores t @ ws"
    and "\<forall>(a, w) \<in> set ws. 0xb8000 \<le> a \<and> a \<le> 0xb9ff0" and "0xb9ff0 < video_current t \<Longrightarrow> ws = []"
    and "video_current t \<le> video_current (write_char c t)"
    and "unat (video_current (write_char c t)) \<le> unat (video_current t) + 160"
proof (cases "c OR 0x0f00 = 0xf0a \<or> 0xb9ff0 < video_current t")
  case True
  then show thesis using newline_forward [OF assms]
    by (intro that [of "[]"]) (auto simp: write_char_def get_current_column_def Let_def word_le_nat_alt)
next
  case False
  then have le: "video_current t \<le> 0xb9ff0" by auto
  then have "unat (video_current t) \<le> 0xb9ff0" by (simp add: word_le_nat_alt)
  then have "unat (video_current t + 2) = unat (video_current t) + 2" by (simp add: unat_word_ariths)
  then show thesis using False le assms(1)
    by (intro that [of "[(video_current t, c OR 0x0f00)]"]) (auto simp: write_char_def Let_def word_le_nat_alt)
qed

lemma putc_is_write_char: "\<exists>c. guest_putc b t = write_char c t"
  by (auto simp: guest_putc_def)

lemma puts_bounds:
  assumes "0xb8000 \<le> video_current t" and "unat (video_current t) + 160 * length bs < 2 ^ 64"
  shows "\<exists>ws. stores (fold (\<lambda>b. guest_putc (ucast b)) bs t) = stores t @ ws \<and>
    (\<forall>(a, w) \<in> set ws. 0xb8000 \<le> a \<and> a \<le> 0xb9ff0) \<and> (0xb9ff0 < video_current t \<longrightarrow> ws = [])"
  using assms
proof (induction bs arbitrary: t)
  case (Cons b bs)
  obtain c where c: "guest_putc (ucast b) t = write_char c t" using putc_is_write_char by blast
  let ?t = "write_char c t"
  obtain ws where ws: "stores ?t = stores t @ ws" "\<forall>(a, w) \<in> set ws. 0xb8000 \<le> a \<and> a \<le> 0xb9ff0"
    "0xb9ff0 < video_current t \<Longrightarrow> ws = []" "video_current t \<le> video_current ?t"
    "unat (video_current ?t) \<le> unat (video_current t) + 160"
    using write_char_bounds [OF Cons.prems(1), of c] Cons.prems(2) by auto
  have "0xb8000 \<le> video_current ?t" "unat (video_current ?t) + 160 * length bs < 2 ^ 64"
    using ws(4,5) Cons.prems by auto
  from Cons.IH [OF this] obtain vs where "stores (fold (\<lambda>b. guest_putc (ucast b)) bs ?t) = stores ?t @ vs"
    "\<forall>(a, w) \<in> set vs. 0xb8000 \<le> a \<and> a \<le> 0xb9ff0" "0xb9ff0 < video_current ?t \<longrightarrow> vs = []" by blast
  then show ?case using ws c by (intro exI [of _ "ws @ vs"]) (auto simp: less_le_trans)
qed simp

section \<open>Properties\<close>

text \<open>
  C20: the routines for numbers print exactly the digits of their number, two to sixteen of them, and
  reading the printed digits back gives the number, cut to its width.
\<close>

theorem printed_number_reads_back:
  assumes "(n, print) \<in> {(2, print_byte_value), (4, print_word_value), (8, print_dword_value), (16, print_qword_value)}"
    and "at_cell i t" and "i + 16 \<le> 0xff9"
  shows "\<exists>ds. stores (print v t) = stores t @ line_stores i ds \<and> at_cell (i + n) (print v t) \<and>
    length ds = n \<and> hex_value ds = unat v mod 16 ^ n"
proof -
  have n: "n = Suc (n - 1)" "n - 1 < 16" "i + length (hex_digits n v) \<le> 0xff9" using assms(1,3) by auto
  have "print v t = hex_loop (of_nat (Suc (n - 1))) v t"
    using assms(1) by (auto simp: print_byte_value_def print_word_value_def print_dword_value_def print_qword_value_def)
  then have "print v t = fold (\<lambda>b. guest_putc (ucast b)) (hex_digits n v) t"
    using hex_loop_digits [OF n(2), of v t] n(1) by simp
  with puts_line [OF assms(2) hex_digits_printable n(3)] hex_digits_value [of 0 n v] show ?thesis
    by (intro exI [of _ "hex_digits n v"]) (simp add: at_cell_def hex_value_def)
qed

theorem printed_number_reads_back_witness:
  "\<exists>ds. stores (print_dword_value 0x12abcdef0 initial_text) = line_stores 0 ds \<and> hex_value ds = 0x2abcdef0"
  using printed_number_reads_back [of 8 print_dword_value 0 initial_text "0x12abcdef0"]
  by (auto simp: initial_text_def at_cell_def cell_addr_def)

text \<open>
  C25: whatever text is printed and wherever the cursor is, every store of the guest's output goes to
  the screen's cells; past its end nothing is stored at all, and the screen never scrolls, so that
  later output is lost.
\<close>

theorem text_stays_on_screen:
  assumes "0xb8000 \<le> video_current t" and "unat (video_current t) + 160 * length bs < 2 ^ 64"
  shows "\<exists>ws. stores (guest_puts (Some bs) t) = stores t @ ws \<and>
    (\<forall>(a, w) \<in> set ws. 0xb8000 \<le> a \<and> a \<le> 0xb9ff0) \<and> (0xb9ff0 < video_current t \<longrightarrow> ws = [])"
proof -
  have "length (zero_terminated bs) \<le> length bs" by (simp add: zero_terminated_def length_takeWhile_le)
  then have "unat (video_current t) + 160 * length (zero_terminated bs) < 2 ^ 64" using assms(2) by simp
  from puts_bounds [OF assms(1) this] show ?thesis by (simp add: guest_puts_def)
qed

theorem text_stays_on_screen_witness:
  "stores (guest_puts (Some [0x41, 10, 0x42]) (initial_text\<lparr>video_current := 0xb9ff2\<rparr>)) = []"
  using text_stays_on_screen [of "initial_text\<lparr>video_current := 0xb9ff2\<rparr>" "[0x41, 10, 0x42]"]
  by (auto simp: initial_text_def)

end
