(* ===== verification/Guest_Handlers.thy ===== *)
theory Guest_Handlers
  imports Guest_Text Guest_Descriptors
begin

unbundle bit_operations_syntax

text \<open>
  The interrupt handlers of the guest (\<^verbatim>\<open>src/asm/handler64.S\<close>) and its local APIC routines
  (\<^verbatim>\<open>src/asm/apic64.S\<close>, \<^verbatim>\<open>src/asm/apic.h\<close>). A handler finds at RSP what the processor has pushed, in the byte
  memory of \<open>Guest_Descriptors\<close>, and prints with the routines of \<open>Guest_Text\<close>; it ends in a jump to itself or
  returns. The registers of the APIC are a function of their offset.
\<close>

section \<open>Printing as text\<close>

definition asciz :: "string \<Rightarrow> u8 list" where
  "asciz s = map of_char s @ [0]"

definition chars :: "string \<Rightarrow> u8 list" where
  "chars s = map of_char s"

text \<open>A text written character by character: what every routine of \<open>Guest_Text\<close> amounts to.\<close>

definition type_out :: "u8 list \<Rightarrow> text_state \<Rightarrow> text_state" where
  "type_out bs t = fold (\<lambda>b. guest_putc (ucast b)) bs t"

lemma type_out_append: "type_out ys (type_out xs t) = type_out (xs @ ys) t"
  by (simp add: type_out_def)

lemma puts_type_out: "list_all (\<lambda>b. b \<noteq> 0) (chars s) \<Longrightarrow> guest_puts (Some (asciz s)) t = type_out (chars s) t"
proof -
  assume "list_all (\<lambda>b. b \<noteq> 0) (chars s)"
  then have "zero_terminated (chars s @ [0]) = chars s"
    by (simp add: zero_terminated_def list_all_iff takeWhile_append2)
  then show ?thesis by (simp add: guest_puts_def type_out_def asciz_def chars_def)
qed

lemma println_type_out: "guest_println t = type_out [10] t"
  by (simp add: guest_println_def type_out_def)

lemma putc_type_out: "guest_putc 0x5f t = type_out [0x5f] t"
  by (simp add: type_out_def)

lemma qword_type_out: "print_qword_value v t = type_out (hex_digits 16 v) t"
  using hex_loop_digits [of 15 v t] by (simp add: print_qword_value_def type_out_def del: hex_digits_simps)

lemma dword_type_out: "print_dword_value v t = type_out (hex_digits 8 v) t"
  using hex_loop_digits [of 7 v t] by (simp add: print_dword_value_def type_out_def del: hex_digits_simps)

lemmas printing = puts_type_out println_type_out putc_type_out qword_type_out dword_type_out type_out_append

section \<open>Exception handlers\<close>

definition load_q :: "u64 \<Rightarrow> byte_mem \<Rightarrow> u64" where
  "load_q a m = le_word (load_bytes a 8 m)"

text \<open>How a handler ends: in a jump to itself, or in a return from the interrupt.\<close>

datatype handler_end = Loops text_state | Returns text_state

text \<open>
  The nine handlers that print three numbers of the frame; each ends in a loop. The third message of
  \<^verbatim>\<open>NM_handler\<close> is that of \<^verbatim>\<open>UD_handler\<close>.
\<close>

definition exception_report :: "string \<Rightarrow> string \<Rightarrow> string \<Rightarrow> u64 \<Rightarrow> byte_mem \<Rightarrow> text_state \<Rightarrow> handler_end" where
  "exception_report msg1 msg2 msg3 rsp m t =
     (let t = guest_puts (Some (asciz msg1)) t;
          t = print_qword_value (load_q (rsp + 8) m) t;
          t = guest_println t;
          t = guest_puts (Some (asciz msg2)) t;
          t = print_qword_value (load_q rsp m) t;
          t = guest_println t;
          t = guest_puts (Some (asciz msg3)) t;
          t = print_qword_value (load_q (rsp + 32) m) t;
          t = guest_println t
      in Loops t)"

definition do_DE_handler :: "u64 \<Rightarrow> byte_mem \<Rightarrow> text_state \<Rightarrow> handler_end" where
  "do_DE_handler = exception_report ''---> Now, enter #DE handler, occur at: 0x'' ''error code = 0x'' ''rsp = 0x''"

definition do_NMI_handler :: "u64 \<Rightarrow> byte_mem \<Rightarrow> text_state \<Rightarrow> handler_end" where
  "do_NMI_handler = exception_report ''---> Now, enter #NMI handler, occur at: 0x'' ''error code = 0x'' ''rsp = 0x''"

definition do_OF_handler :: "u64 \<Rightarrow> byte_mem \<Rightarrow> text_state \<Rightarrow> handler_end" where
  "do_OF_handler = exception_report ''---> Now, enter #OF handler, occur at: 0x'' ''error code = 0x'' ''rsp = 0x''"

definition do_UD_handler :: "u64 \<Rightarrow> byte_mem \<Rightarrow> text_state \<Rightarrow> handler_end" where
  "do_UD_handler = exception_report ''---> Now, enter #UD handler, occur at: 0x'' ''error code = 0x'' ''rsp = 0x''"

definition do_NM_handler :: "u64 \<Rightarrow> byte_mem \<Rightarrow> text_state \<Rightarrow> handler_end" where
  "do_NM_handler = exception_report ''---> Now, enter #NM handler, occur at: 0x'' ''error code = 0x'' ''rsp = 0x''"

definition do_TS_handler :: "u64 \<Rightarrow> byte_mem \<Rightarrow> text_state \<Rightarrow> handler_end" where
  "do_TS_handler = exception_report ''---> Now, enter #TS handler, occur at: 0x'' ''error code = 0x'' ''rsp = 0x''"

definition do_NP_handler :: "u64 \<Rightarrow> byte_mem \<Rightarrow> text_state \<Rightarrow> handler_end" where
  "do_NP_handler = exception_report ''---> Now, enter #NP handler, occur at: 0x'' ''error code = 0x'' ''rsp = 0x''"

definition do_GP_handler :: "u64 \<Rightarrow> byte_mem \<Rightarrow> text_state \<Rightarrow> handler_end" where
  "do_GP_handler = exception_report ''---> Now, enter #GP handler, occur at: 0x'' ''error code = 0x'' ''rsp = 0x''"

definition do_MC_handler :: "u64 \<Rightarrow> byte_mem \<Rightarrow> text_state \<Rightarrow> handler_end" where
  "do_MC_handler = exception_report ''---> Now, enter #MC handler, occur at: 0x'' ''error code = 0x'' ''rsp = 0x''"

text \<open>The double fault handler prints the quad word at offset 4.\<close>

definition do_DF_handler :: "u64 \<Rightarrow> byte_mem \<Rightarrow> text_state \<Rightarrow> handler_end" where
  "do_DF_handler rsp m t =
     (let t = guest_puts (Some (asciz ''---> now, enter #DF handler, occur at: 0x'')) t;
          t = print_qword_value (load_q (rsp + 4) m) t;
          t = guest_println t
      in Loops t)"

definition do_PF_handler :: "u64 \<Rightarrow> u64 \<Rightarrow> byte_mem \<Rightarrow> text_state \<Rightarrow> handler_end" where
  "do_PF_handler cr2 rsp m t =
     (let rsp = rsp + 8;
          t = guest_puts (Some (asciz ''>>> Now, enter #PF handler'')) t;
          t = guest_println t;
          t = guest_puts (Some (asciz ''>>>>>>> occur at: 0x'')) t;
          t = print_qword_value (load_q rsp m) t;
          t = guest_println t;
          t = guest_puts (Some (asciz ''>>>>>>> page fault address: 0x'')) t;
          t = print_qword_value cr2 t;
          t = guest_println t
      in Loops t)"

text \<open>
  The debug handler switches the first breakpoint off in DR7 and sets the resume flag in the flags that
  the processor pushed: bit 16 of the double word at offset 16, bit 0 of its byte 2.
\<close>

definition do_DB_handler :: "u64 \<Rightarrow> byte_mem \<Rightarrow> u64 \<Rightarrow> text_state \<Rightarrow> byte_mem \<times> u64 \<times> handler_end" where
  "do_DB_handler rsp m dr7 t =
     (let t = guest_puts (Some (asciz ''>>> now, enter #DB handler'')) t;
          dr7 = unset_bit 0 dr7;
          m = store_d (rsp + 16) (set_bit 16 (le_word (load_bytes (rsp + 16) 4 m))) m;
          t = guest_puts (Some (asciz (''now, exit #DB handler <<<'' @ [CHR 0x0A]))) t
      in (m, dr7, Returns t))"

text \<open>
  The frame as the processor pushes it, upwards from RSP: an error code for some exceptions, then RIP,
  CS, RFLAGS, RSP and SS.
\<close>

record interrupted =
  it_rip :: u64
  it_cs :: u64
  it_rflags :: u64
  it_rsp :: u64
  it_ss :: u64

definition pushed_frame :: "u64 option \<Rightarrow> interrupted \<Rightarrow> u64 list" where
  "pushed_frame err i = (case err of None \<Rightarrow> [] | Some e \<Rightarrow> [e]) @ [it_rip i, it_cs i, it_rflags i, it_rsp i, it_ss i]"

definition frame_at :: "u64 \<Rightarrow> u64 option \<Rightarrow> interrupted \<Rightarrow> byte_mem \<Rightarrow> bool" where
  "frame_at rsp err i m \<longleftrightarrow> load_bytes rsp (8 * length (pushed_frame err i)) m = quads (pushed_frame err i)"

lemma load_bytes_within:
  assumes "k + n \<le> l"
  shows "load_bytes (a + of_nat k) n m = take n (drop k (load_bytes a l m))"
  unfolding load_bytes_offset unfolding load_bytes_def using assms by (simp add: take_map drop_map)

lemma frame_word:
  assumes "frame_at rsp err i m" and "k < length (pushed_frame err i)"
  shows "load_q (rsp + of_nat (8 * k)) m = pushed_frame err i ! k"
proof -
  have "load_bytes (rsp + of_nat (8 * k)) 8 m = take 8 (drop (8 * k) (quads (pushed_frame err i) @ []))"
    using assms load_bytes_within [of "8 * k" 8 "8 * length (pushed_frame err i)" rsp m] by (simp add: frame_at_def)
  then show ?thesis unfolding load_q_def quads_slice [OF assms(2)] by (simp add: le_word_8 del: le_bytes.simps le_word.simps)
qed

lemma frame_with_code:
  assumes "frame_at rsp (Some e) i m"
  shows "load_q rsp m = e" "load_q (rsp + 8) m = it_rip i" "load_q (rsp + 32) m = it_rsp i"
  using frame_word [OF assms, of 0] frame_word [OF assms, of 1] frame_word [OF assms, of 4]
  by (simp_all add: pushed_frame_def)

lemma frame_without_code:
  assumes "frame_at rsp None i m"
  shows "load_q rsp m = it_rip i" "load_q (rsp + 8) m = it_cs i" "load_q (rsp + 32) m = it_ss i"
  using frame_word [OF assms, of 0] frame_word [OF assms, of 1] frame_word [OF assms, of 4]
  by (simp_all add: pushed_frame_def)

text \<open>The double fault's error code is zero; the quad word across it and RIP.\<close>

lemma frame_double_fault:
  assumes "frame_at rsp (Some 0) i m"
  shows "load_q (rsp + 4) m = push_bit 32 (it_rip i)"
proof -
  have "load_bytes (rsp + of_nat 4) 8 m = take 8 (drop 4 (quads (pushed_frame (Some 0) i)))"
    using assms load_bytes_within [of 4 8 48 rsp m] by (simp add: frame_at_def pushed_frame_def)
  then have "load_bytes (rsp + 4) 8 m = [0, 0, 0, 0] @ le_bytes 4 (it_rip i)"
    by (simp add: pushed_frame_def le_bytes_8 le_bytes_4)
  then have "load_q (rsp + 4) m = push_bit 32 (le_word (le_bytes 4 (it_rip i)))"
    by (simp add: load_q_def push_bit_push_bit del: le_bytes.simps)
  then show ?thesis unfolding le_word_bytes by (simp add: push_bit_take_bit take_bit_64)
qed

text \<open>A pushed frame is there; one pushed elsewhere leaves it.\<close>

lemma frame_stored: "frame_at rsp err i (store_bytes rsp (quads (pushed_frame err i)) m)"
proof -
  have "length (pushed_frame err i) \<le> 6" by (simp add: pushed_frame_def split: option.splits)
  then show ?thesis
    using load_bytes_stored [of 0 "quads (pushed_frame err i)" 0 "8 * length (pushed_frame err i)" rsp m]
    by (simp add: frame_at_def length_quads)
qed

lemma frame_kept:
  assumes "frame_at (rsp + of_nat q) err i m" "length bs \<le> q" "q < 2 ^ 31"
  shows "frame_at (rsp + of_nat q) err i (store_bytes rsp bs m)"
proof -
  have "length (pushed_frame err i) \<le> 6" by (simp add: pushed_frame_def split: option.splits)
  then show ?thesis
    using assms load_bytes_store [of 0 bs q "8 * length (pushed_frame err i)" rsp m] by (simp add: frame_at_def)
qed

section \<open>What the handlers print\<close>

abbreviation value_line :: "string \<Rightarrow> u64 \<Rightarrow> u8 list" where
  "value_line s v \<equiv> chars s @ hex_digits 16 v"

lemma exception_report_text:
  assumes "list_all (\<lambda>b. b \<noteq> 0) (chars m1)" "list_all (\<lambda>b. b \<noteq> 0) (chars m2)" "list_all (\<lambda>b. b \<noteq> 0) (chars m3)"
  shows "exception_report m1 m2 m3 rsp m t = Loops (type_out (text_of_lines [value_line m1 (load_q (rsp + 8) m),
    value_line m2 (load_q rsp m), value_line m3 (load_q (rsp + 32) m)]) t)"
  by (simp add: exception_report_def printing assms text_of_lines_def del: hex_digits_simps)

text \<open>Text of lines that fit the screen, in the stores it makes.\<close>

lemma type_out_lines:
  assumes "at_cell (r * 80) t" "list_all (list_all printable) ls" "r + sum_list (map rows ls) \<le> 51"
  shows "stores (type_out (text_of_lines ls) t) = stores t @ lines_stores r ls"
  using puts_lines [OF assms(1) _ assms(3)] assms(2) by (simp add: type_out_def list_all_iff)

lemma value_line_printable: "list_all printable (chars s) \<Longrightarrow> list_all printable (value_line s v)"
  using hex_digits_printable [of 16 v] by (simp add: list_all_iff ball_Un del: hex_digits_simps)

definition fault_lines :: "string \<Rightarrow> u64 \<Rightarrow> u64 \<Rightarrow> u64 \<Rightarrow> u8 list list" where
  "fault_lines name location code sp =
     [value_line (''---> Now, enter #'' @ name @ '' handler, occur at: 0x'') location,
      value_line ''error code = 0x'' code, value_line ''rsp = 0x'' sp]"

lemma fault_lines_rows:
  assumes "list_all printable (chars name)" and "length name \<le> 3"
  shows "list_all (list_all printable) (fault_lines name a b c)" "sum_list (map rows (fault_lines name a b c)) = 3"
  using assms hex_digits_printable [of 16 a] hex_digits_printable [of 16 b] hex_digits_printable [of 16 c]
  by (auto simp: fault_lines_def list_all_iff chars_def printable_def rows_def simp del: hex_digits_simps)

lemma exception_report_fault_lines:
  assumes "list_all (\<lambda>b. b \<noteq> 0) (chars name)"
  shows "exception_report (''---> Now, enter #'' @ name @ '' handler, occur at: 0x'') ''error code = 0x'' ''rsp = 0x'' rsp m t =
    Loops (type_out (text_of_lines (fault_lines name (load_q (rsp + 8) m) (load_q rsp m) (load_q (rsp + 32) m))) t)"
  unfolding fault_lines_def using assms by (intro exception_report_text) (simp_all add: chars_def)

definition code_handlers :: "((u64 \<Rightarrow> byte_mem \<Rightarrow> text_state \<Rightarrow> handler_end) \<times> string) set" where
  "code_handlers = {(do_TS_handler, ''TS''), (do_NP_handler, ''NP''), (do_GP_handler, ''GP'')}"

definition no_code_handlers :: "((u64 \<Rightarrow> byte_mem \<Rightarrow> text_state \<Rightarrow> handler_end) \<times> string) set" where
  "no_code_handlers = {(do_DE_handler, ''DE''), (do_NMI_handler, ''NMI''), (do_OF_handler, ''OF''), (do_UD_handler, ''UD''),
     (do_NM_handler, ''NM''), (do_MC_handler, ''MC'')}"

lemma handler_report:
  assumes "(handler, name) \<in> code_handlers \<union> no_code_handlers"
  shows "handler rsp m t =
      Loops (type_out (text_of_lines (fault_lines name (load_q (rsp + 8) m) (load_q rsp m) (load_q (rsp + 32) m))) t)"
    and "list_all printable (chars name)" "length name \<le> 3"
proof -
  show n: "list_all printable (chars name)" "length name \<le> 3"
    using assms by (auto simp: code_handlers_def no_code_handlers_def chars_def printable_def)
  then have "list_all (\<lambda>b. b \<noteq> 0) (chars name)" by (simp add: list_all_iff printable_def)
  moreover have "handler = exception_report (''---> Now, enter #'' @ name @ '' handler, occur at: 0x'') ''error code = 0x'' ''rsp = 0x''"
    using assms by (auto simp: code_handlers_def no_code_handlers_def do_DE_handler_def do_NMI_handler_def do_OF_handler_def
        do_UD_handler_def do_NM_handler_def do_TS_handler_def do_NP_handler_def do_GP_handler_def do_MC_handler_def)
  ultimately show "handler rsp m t =
      Loops (type_out (text_of_lines (fault_lines name (load_q (rsp + 8) m) (load_q rsp m) (load_q (rsp + 32) m))) t)"
    using exception_report_fault_lines [of name rsp m t] by simp
qed

lemma handler_stores:
  assumes "(handler, name) \<in> code_handlers \<union> no_code_handlers" and "at_cell (r * 80) t" and "r + 3 \<le> 51"
  shows "\<exists>t'. handler rsp m t = Loops t' \<and>
    stores t' = stores t @ lines_stores r (fault_lines name (load_q (rsp + 8) m) (load_q rsp m) (load_q (rsp + 32) m))"
  using handler_report [OF assms(1)] type_out_lines [OF assms(2) fault_lines_rows(1)] fault_lines_rows(2) assms(3) by simp

lemma double_fault_stores:
  assumes "at_cell (r * 80) t" and "r + 3 \<le> 51"
  shows "\<exists>t'. do_DF_handler rsp m t = Loops t' \<and> stores t' = stores t @
    lines_stores r [value_line ''---> now, enter #DF handler, occur at: 0x'' (load_q (rsp + 4) m)]"
proof -
  let ?l = "value_line ''---> now, enter #DF handler, occur at: 0x'' (load_q (rsp + 4) m)"
  have "do_DF_handler rsp m t = Loops (type_out (text_of_lines [?l]) t)"
    by (simp add: do_DF_handler_def printing text_of_lines_def chars_def del: hex_digits_simps)
  moreover have "list_all printable ?l" by (intro value_line_printable) (simp add: chars_def printable_def)
  then have "stores (type_out (text_of_lines [?l]) t) = stores t @ lines_stores r [?l]"
    using assms by (intro type_out_lines) (simp_all add: rows_def chars_def del: hex_digits_simps)
  ultimately show ?thesis by simp
qed

text \<open>
  C31: the handlers of the faults that push an error code show what happened: on the frame that
  the processor pushes they print, on three rows, the address of the fault, its error code and the
  interrupted stack pointer, and stop.
\<close>

theorem faults_with_code_reported:
  assumes "frame_at rsp (Some e) i m" and "(handler, name) \<in> code_handlers"
    and "at_cell (r * 80) t" and "r + 3 \<le> 51"
  shows "\<exists>t'. handler rsp m t = Loops t' \<and>
    stores t' = stores t @ lines_stores r (fault_lines name (it_rip i) e (it_rsp i))"
  using handler_stores [OF _ assms(3,4)] assms(2) frame_with_code [OF assms(1)] by fastforce

definition example_interrupted :: interrupted where
  "example_interrupted = \<lparr>it_rip = 0x10123, it_cs = 0x28, it_rflags = 0x202, it_rsp = 0x5000, it_ss = 0x30\<rparr>"

theorem faults_with_code_reported_witness:
  "\<exists>m t'. frame_at 0x1000 (Some 0x50) example_interrupted m \<and> do_GP_handler 0x1000 m initial_text = Loops t' \<and>
     stores t' = lines_stores 0 (fault_lines ''GP'' 0x10123 0x50 0x5000)"
proof -
  let ?m = "store_bytes 0x1000 (quads (pushed_frame (Some 0x50) example_interrupted)) (\<lambda>_. 0)"
  have f: "frame_at 0x1000 (Some 0x50) example_interrupted ?m" by (rule frame_stored)
  have h: "(do_GP_handler, ''GP'') \<in> code_handlers" by (simp add: code_handlers_def)
  have t: "at_cell (0 * 80) initial_text" by (simp add: at_cell_def initial_text_def cell_addr_def)
  show ?thesis using f faults_with_code_reported [OF f h t]
    by (intro exI [of _ ?m]) (auto simp: example_interrupted_def initial_text_def)
qed

text \<open>
  C40: the same code serves the exceptions that push no error code, and there it prints the wrong
  values: the code segment as the address, the address as the error code, the stack segment as the
  stack pointer. The double fault handler prints the lower half of the address, shifted up.
\<close>

theorem exceptions_misreported:
  assumes "(handler, name) \<in> no_code_handlers" and "frame_at rsp None i m" and "frame_at rsp2 (Some 0) i m"
    and "at_cell (r * 80) t" and "r + 3 \<le> 51"
  shows "(\<exists>t'. handler rsp m t = Loops t' \<and>
      stores t' = stores t @ lines_stores r (fault_lines name (it_cs i) (it_rip i) (it_ss i))) \<and>
    (\<exists>t'. do_DF_handler rsp2 m t = Loops t' \<and> stores t' = stores t @
      lines_stores r [value_line ''---> now, enter #DF handler, occur at: 0x'' (push_bit 32 (it_rip i))])"
  using handler_stores [OF _ assms(4,5)] assms(1) frame_without_code [OF assms(2)]
    double_fault_stores [OF assms(4,5), of rsp2 m] frame_double_fault [OF assms(3)] by fastforce

theorem exceptions_misreported_witness:
  "\<exists>m t'. frame_at 0x1000 None example_interrupted m \<and> do_DE_handler 0x1000 m initial_text = Loops t' \<and>
     stores t' = lines_stores 0 (fault_lines ''DE'' 0x28 0x10123 0x30)"
proof -
  let ?i = example_interrupted
  let ?m2 = "store_bytes 0x2000 (quads (pushed_frame (Some 0) ?i)) (\<lambda>_. 0)"
  let ?m = "store_bytes 0x1000 (quads (pushed_frame None ?i)) ?m2"
  have f1: "frame_at 0x1000 None ?i ?m" by (rule frame_stored)
  have f2: "frame_at (0x1000 + of_nat 0x1000) (Some 0) ?i ?m"
  proof (rule frame_kept)
    show "frame_at (0x1000 + of_nat 0x1000) (Some 0) ?i ?m2" using frame_stored [of "0x2000"] by simp
  qed (simp_all add: length_quads pushed_frame_def)
  have h: "(do_DE_handler, ''DE'') \<in> no_code_handlers" by (simp add: no_code_handlers_def)
  have t: "at_cell (0 * 80) initial_text" by (simp add: at_cell_def initial_text_def cell_addr_def)
  show ?thesis using f1 exceptions_misreported [OF h f1 f2 t]
    by (intro exI [of _ ?m]) (auto simp: example_interrupted_def initial_text_def)
qed

section \<open>The local APIC\<close>

text \<open>The linear address of the registers, and their offsets.\<close>

definition APIC_BASE :: u64 where "APIC_BASE = 0x800000"

definition APIC_ID :: u64 where "APIC_ID = 0x20"
definition APIC_VER :: u64 where "APIC_VER = 0x30"
definition TPR :: u64 where "TPR = 0x80"
definition APR :: u64 where "APR = 0x90"
definition PPR :: u64 where "PPR = 0xA0"
definition EOI :: u64 where "EOI = 0xB0"
definition RRD :: u64 where "RRD = 0xC0"
definition LDR :: u64 where "LDR = 0xD0"
definition DFR :: u64 where "DFR = 0xE0"
definition SVR :: u64 where "SVR = 0xF0"
definition ISR0 :: u64 where "ISR0 = 0x100"
definition ISR1 :: u64 where "ISR1 = 0x110"
definition ISR2 :: u64 where "ISR2 = 0x120"
definition ISR3 :: u64 where "ISR3 = 0x130"
definition ISR4 :: u64 where "ISR4 = 0x140"
definition ISR5 :: u64 where "ISR5 = 0x150"
definition ISR6 :: u64 where "ISR6 = 0x160"
definition ISR7 :: u64 where "ISR7 = 0x170"
definition TMR0 :: u64 where "TMR0 = 0x180"
definition TMR1 :: u64 where "TMR1 = 0x190"
definition TMR2 :: u64 where "TMR2 = 0x1A0"
definition TMR3 :: u64 where "TMR3 = 0x1B0"
definition TMR4 :: u64 where "TMR4 = 0x1C0"
definition TMR5 :: u64 where "TMR5 = 0x1D0"
definition TMR6 :: u64 where "TMR6 = 0x1E0"
definition TMR7 :: u64 where "TMR7 = 0x1F0"
definition IRR0 :: u64 where "IRR0 = 0x200"
definition IRR1 :: u64 where "IRR1 = 0x210"
definition IRR2 :: u64 where "IRR2 = 0x220"
definition IRR3 :: u64 where "IRR3 = 0x230"
definition IRR4 :: u64 where "IRR4 = 0x240"
definition IRR5 :: u64 where "IRR5 = 0x250"
definition IRR6 :: u64 where "IRR6 = 0x260"
definition IRR7 :: u64 where "IRR7 = 0x270"
definition ESR :: u64 where "ESR = 0x280"
definition ICR0 :: u64 where "ICR0 = 0x300"
definition ICR1 :: u64 where "ICR1 = 0x310"
definition LVT_CMCI :: u64 where "LVT_CMCI = 0x2F0"
definition LVT_TIMER :: u64 where "LVT_TIMER = 0x320"
definition LVT_THERMAL :: u64 where "LVT_THERMAL = 0x330"
definition LVT_PERFMON :: u64 where "LVT_PERFMON = 0x340"
definition LVT_LINT0 :: u64 where "LVT_LINT0 = 0x350"
definition LVT_LINT1 :: u64 where "LVT_LINT1 = 0x360"
definition LVT_ERROR :: u64 where "LVT_ERROR = 0x370"
definition TIMER_ICR :: u64 where "TIMER_ICR = 0x380"
definition TIMER_CCR :: u64 where "TIMER_CCR = 0x390"
definition TIMER_DCR :: u64 where "TIMER_DCR = 0x3E0"

lemmas apic_defs =
  APIC_ID_def APIC_VER_def TPR_def APR_def PPR_def EOI_def RRD_def LDR_def
  DFR_def SVR_def ISR0_def ISR1_def ISR2_def ISR3_def ISR4_def ISR5_def
  ISR6_def ISR7_def TMR0_def TMR1_def TMR2_def TMR3_def TMR4_def TMR5_def
  TMR6_def TMR7_def IRR0_def IRR1_def IRR2_def IRR3_def IRR4_def IRR5_def
  IRR6_def IRR7_def ESR_def ICR0_def ICR1_def LVT_CMCI_def LVT_TIMER_def LVT_THERMAL_def
  LVT_PERFMON_def LVT_LINT0_def LVT_LINT1_def LVT_ERROR_def TIMER_ICR_def TIMER_CCR_def TIMER_DCR_def

text \<open>The registers as they are read: a function of the offset.\<close>

type_synonym apic = "u64 \<Rightarrow> u32"

definition IA32_APIC_BASE :: u64 where "IA32_APIC_BASE = 0x1B"

definition support_apic :: "u32 \<Rightarrow> u64" where
  "support_apic cpuid1_edx = (if bit cpuid1_edx 9 then 1 else 0)"

definition support_x2apic :: "u32 \<Rightarrow> u64" where
  "support_x2apic cpuid1_ecx = (if bit cpuid1_ecx 21 then 1 else 0)"

text \<open>Enabling writes the base register, a function of its number, and the spurious vector register.\<close>

definition enable_apic :: "(u64 \<Rightarrow> u64) \<times> apic \<Rightarrow> (u64 \<Rightarrow> u64) \<times> apic" where
  "enable_apic s = (case s of (msr, a) \<Rightarrow>
     (msr(IA32_APIC_BASE := set_bit 11 (msr IA32_APIC_BASE)), a(SVR := set_bit 8 (a SVR))))"

definition disable_apic :: "(u64 \<Rightarrow> u64) \<times> apic \<Rightarrow> (u64 \<Rightarrow> u64) \<times> apic" where
  "disable_apic s = (case s of (msr, a) \<Rightarrow>
     (msr(IA32_APIC_BASE := unset_bit 11 (msr IA32_APIC_BASE)), a(SVR := unset_bit 8 (a SVR))))"

definition print_reg :: "apic \<Rightarrow> u64 \<Rightarrow> text_state \<Rightarrow> text_state" where
  "print_reg a off t = print_dword_value (ucast (a off)) t"

text \<open>A message, and the register after it; the three 256-bit registers, with underscores between their words.\<close>

definition print_named :: "apic \<Rightarrow> string \<Rightarrow> u64 \<Rightarrow> text_state \<Rightarrow> text_state" where
  "print_named a msg off t = print_reg a off (guest_puts (Some (asciz msg)) t)"

definition print_next :: "apic \<Rightarrow> u64 \<Rightarrow> text_state \<Rightarrow> text_state" where
  "print_next a off t = print_reg a off (guest_putc 0x5f t)"

definition dump_isr :: "apic \<Rightarrow> text_state \<Rightarrow> text_state" where
  "dump_isr a t =
     (let t = print_named a ''ISR(7-0) : 0x'' ISR7 t;
          t = fold (print_next a) [ISR6, ISR5, ISR4, ISR3, ISR2, ISR1, ISR0] t
      in guest_println t)"

definition dump_irr :: "apic \<Rightarrow> text_state \<Rightarrow> text_state" where
  "dump_irr a t =
     (let t = print_named a ''IRR: 0x'' IRR7 t;
          t = fold (print_next a) [IRR6, IRR5, IRR4, IRR3, IRR2, IRR1, IRR0] t
      in guest_println t)"

definition dump_tmr :: "apic \<Rightarrow> text_state \<Rightarrow> text_state" where
  "dump_tmr a t =
     (let t = print_named a ''TMR: 0x'' TMR7 t;
          t = fold (print_next a) [TMR6, TMR5, TMR4, TMR3, TMR2, TMR1, TMR0] t
      in guest_println t)"

text \<open>
  All registers. For the interrupt command the code loads ICR0 into ESI and ICR1 into EDI, shifts
  RSI right by 32, and then moves EDI over ESI, which clears the upper half of RSI.
\<close>

definition icr_value :: "apic \<Rightarrow> u64" where
  "icr_value a =
     (let rsi = ucast (a ICR0) :: u64; edi = a ICR1; rsi = drop_bit 32 rsi; rsi = ucast edi in rsi)"

definition dump_apic :: "apic \<Rightarrow> text_state \<Rightarrow> text_state" where
  "dump_apic a t =
     (let t = print_named a ''apic ID: 0x'' APIC_ID t;
          t = print_named a ''    apic version: 0x'' APIC_VER t;
          t = guest_println t;
          t = print_named a ''TPR: 0x'' TPR t;
          t = print_named a ''  APR: 0x'' APR t;
          t = print_named a ''  PPR: 0x'' PPR t;
          t = guest_println t;
          t = print_named a ''EOI: 0x'' EOI t;
          t = print_named a ''  RRD: 0x'' RRD t;
          t = print_named a ''  LDR: 0x'' LDR t;
          t = guest_println t;
          t = print_named a ''DFR: 0x'' DFR t;
          t = print_named a ''  SVR: 0x'' SVR t;
          t = guest_println t;
          t = dump_irr a t;
          t = dump_isr a t;
          t = dump_tmr a t;
          t = print_named a ''ESR: 0x'' ESR t;
          t = guest_puts (Some (asciz ''  ICR: 0x'')) t;
          t = print_qword_value (icr_value a) t;
          t = guest_println t;
          t = guest_puts (Some (asciz ''---------------------- Local Vector Table -----------------'')) t;
          t = print_named a ''CMCI: 0x'' LVT_CMCI t;
          t = print_named a ''  TIMER: 0x'' LVT_TIMER t;
          t = print_named a ''  THERMAL: 0x'' LVT_THERMAL t;
          t = guest_println t;
          t = print_named a ''PERFMON: 0x'' LVT_PERFMON t;
          t = print_named a ''  LINT0: 0x'' LVT_LINT0 t;
          t = print_named a ''  LINT1: 0x'' LVT_LINT1 t;
          t = guest_println t;
          t = print_named a ''ERROR: 0x'' LVT_ERROR t;
          t = guest_println t;
          t = print_named a ''timer_ICR: 0x'' TIMER_ICR t;
          t = print_named a ''  timer_CCR: 0x'' TIMER_CCR t
      in print_named a ''  timer_DCR: 0x'' TIMER_DCR t)"

text \<open>The timer handler: the writes to the APIC beside the output.\<close>

definition do_apic_timer_handler :: "apic \<Rightarrow> text_state \<Rightarrow> (u64 \<times> u32) list \<times> handler_end" where
  "do_apic_timer_handler a t =
     (let t = guest_puts (Some (asciz ''>>>>>>> now: enter APIC timer handler'')) t;
          t = guest_println t;
          t = dump_apic a t;
          t = guest_println t;
          t = guest_puts (Some (asciz ''exit the APIC timer handler'')) t;
          t = guest_println t
      in ([(APIC_BASE + EOI, 0)], Returns t))"

section \<open>What the APIC routines print\<close>

definition named_value :: "apic \<Rightarrow> string \<Rightarrow> u64 \<Rightarrow> u8 list" where
  "named_value a s off = chars s @ hex_digits 8 (ucast (a off))"

definition joined_values :: "apic \<Rightarrow> u64 list \<Rightarrow> u8 list" where
  "joined_values a offs = concat (map (\<lambda>off. 0x5f # hex_digits 8 (ucast (a off))) offs)"

definition timer_lines :: "apic \<Rightarrow> u8 list list" where
  "timer_lines a =
     [chars ''>>>>>>> now: enter APIC timer handler'',
      named_value a ''apic ID: 0x'' APIC_ID @ named_value a ''    apic version: 0x'' APIC_VER,
      named_value a ''TPR: 0x'' TPR @ named_value a ''  APR: 0x'' APR @ named_value a ''  PPR: 0x'' PPR,
      named_value a ''EOI: 0x'' EOI @ named_value a ''  RRD: 0x'' RRD @ named_value a ''  LDR: 0x'' LDR,
      named_value a ''DFR: 0x'' DFR @ named_value a ''  SVR: 0x'' SVR,
      named_value a ''IRR: 0x'' IRR7 @ joined_values a [IRR6, IRR5, IRR4, IRR3, IRR2, IRR1, IRR0],
      named_value a ''ISR(7-0) : 0x'' ISR7 @ joined_values a [ISR6, ISR5, ISR4, ISR3, ISR2, ISR1, ISR0],
      named_value a ''TMR: 0x'' TMR7 @ joined_values a [TMR6, TMR5, TMR4, TMR3, TMR2, TMR1, TMR0],
      named_value a ''ESR: 0x'' ESR @ value_line ''  ICR: 0x'' (ucast (a ICR1)),
      chars ''---------------------- Local Vector Table -----------------'' @ named_value a ''CMCI: 0x'' LVT_CMCI
        @ named_value a ''  TIMER: 0x'' LVT_TIMER @ named_value a ''  THERMAL: 0x'' LVT_THERMAL,
      named_value a ''PERFMON: 0x'' LVT_PERFMON @ named_value a ''  LINT0: 0x'' LVT_LINT0
        @ named_value a ''  LINT1: 0x'' LVT_LINT1,
      named_value a ''ERROR: 0x'' LVT_ERROR,
      named_value a ''timer_ICR: 0x'' TIMER_ICR @ named_value a ''  timer_CCR: 0x'' TIMER_CCR
        @ named_value a ''  timer_DCR: 0x'' TIMER_DCR,
      chars ''exit the APIC timer handler'']"

lemma print_named_text:
  "list_all (\<lambda>b. b \<noteq> 0) (chars s) \<Longrightarrow> print_named a s off t = type_out (named_value a s off) t"
  by (simp add: print_named_def print_reg_def printing named_value_def del: hex_digits_simps)

lemma print_next_text: "fold (print_next a) offs t = type_out (joined_values a offs) t"
proof (induction offs arbitrary: t)
  case (Cons off offs)
  then show ?case
    by (simp add: print_next_def print_reg_def printing joined_values_def del: hex_digits_simps)
qed (simp add: joined_values_def type_out_def)

lemma length_named_value [simp]: "length (named_value a s off) = length s + 8"
  by (simp add: named_value_def chars_def del: hex_digits_simps)

lemma length_joined_values [simp]: "length (joined_values a offs) = 9 * length offs"
  by (induction offs) (simp_all add: joined_values_def del: hex_digits_simps)

lemma chars_all: "list_all P (chars s) = list_all (\<lambda>c. P (of_char c)) s"
  by (simp add: chars_def list_all_iff)

definition printable_string :: "string \<Rightarrow> bool" where
  "printable_string s = list_all (\<lambda>c. printable (of_char c)) s"

lemma printable_values:
  "list_all printable (chars s) = printable_string s"
  "list_all printable (hex_digits n v)"
  "list_all printable (named_value a s off) = printable_string s"
  "list_all printable (joined_values a offs)"
proof -
  show c: "list_all printable (chars s) = printable_string s" by (simp add: chars_all printable_string_def)
  show h: "list_all printable (hex_digits n v)" for n v using hex_digits_printable by (simp add: list_all_iff)
  show "list_all printable (named_value a s off) = printable_string s"
    by (simp add: named_value_def c h del: hex_digits_simps)
  have "printable 0x5f" by (simp add: printable_def)
  then show "list_all printable (joined_values a offs)"
    by (induction offs) (simp_all add: joined_values_def h del: hex_digits_simps)
qed

lemma timer_handler_text:
  "do_apic_timer_handler a t = ([(APIC_BASE + EOI, 0)], Returns (type_out (text_of_lines (timer_lines a)) t))"
  unfolding do_apic_timer_handler_def dump_apic_def dump_irr_def dump_isr_def dump_tmr_def Let_def print_next_text
  by (simp add: print_named_text printing icr_value_def chars_all text_of_lines_def timer_lines_def del: hex_digits_simps)

lemma timer_lines_printable: "list_all (list_all printable) (timer_lines a)"
  by (simp add: timer_lines_def printable_values) (simp add: printable_string_def printable_def)

lemma timer_lines_rows: "sum_list (map rows (timer_lines a)) = 16"
  by (simp add: timer_lines_def rows_def) (simp add: chars_def)

section \<open>Further properties\<close>

lemma resume_flag_bytes:
  "le_bytes 8 (set_bit 16 r) = le_bytes 4 (set_bit 16 (take_bit 32 r)) @ drop 4 (le_bytes 8 r)"
proof -
  have low: "ucast (drop_bit k (set_bit 16 r)) = (ucast (drop_bit k (set_bit 16 (take_bit 32 r))) :: u8)" if "k \<le> 24" for k
    using that by (intro bit_word_eqI)
      (auto simp: bit_unsigned_iff bit_drop_bit_eq bit_set_bit_iff bit_take_bit_iff)
  have high: "ucast (drop_bit k (set_bit 16 r)) = (ucast (drop_bit k r) :: u8)" if "32 \<le> k" for k
    using that by (intro bit_word_eqI) (auto simp: bit_unsigned_iff bit_drop_bit_eq bit_set_bit_iff)
  show ?thesis using low [of 0] low [of 8] low [of 16] low [of 24] high [of 32] high [of 40] high [of 48] high [of 56]
    by (simp add: le_bytes_8 le_bytes_4)
qed

lemma resumed_frame:
  assumes "frame_at rsp None i m"
  shows "frame_at rsp None (i\<lparr>it_rflags := set_bit 16 (it_rflags i)\<rparr>)
    (store_d (rsp + 16) (set_bit 16 (le_word (load_bytes (rsp + 16) 4 m))) m)"
proof -
  let ?q = "\<lambda>fl. quads [it_rip i, it_cs i, fl, it_rsp i, it_ss i]"
  have m: "load_bytes rsp 40 m = ?q (it_rflags i)" using assms by (simp add: frame_at_def pushed_frame_def)
  have "load_bytes (rsp + of_nat 16) 4 m = take 4 (drop 16 (?q (it_rflags i)))"
    using load_bytes_within [of 16 4 40 rsp m] m by simp
  also have "\<dots> = le_bytes 4 (it_rflags i)" by (simp add: le_bytes_8 le_bytes_4)
  finally have fl: "le_word (load_bytes (rsp + 16) 4 m) = take_bit 32 (it_rflags i)" by (simp add: le_word_bytes del: le_bytes.simps)
  have "load_bytes rsp 40 (store_d (rsp + 16) w m) = overlay 16 (le_bytes 4 w) (?q (it_rflags i))" for w
    using load_bytes_overlay [of 16 "le_bytes 4 w" 40 rsp m] m by (simp add: store_d_def del: le_bytes.simps)
  moreover have "overlay 16 (le_bytes 4 (set_bit 16 (take_bit 32 (it_rflags i)))) (?q (it_rflags i)) = ?q (set_bit 16 (it_rflags i))"
    using resume_flag_bytes [of "it_rflags i"] by (simp add: overlay_def del: le_bytes.simps)
  ultimately show ?thesis by (simp add: frame_at_def pushed_frame_def fl)
qed

text \<open>
  The debug handler returns to the interrupted instruction with the resume flag set in the
  flags that it pops and the rest of the frame unchanged, and with the first breakpoint switched
  off, so that the same exception does not come again.
\<close>

theorem debug_handler_resumes:
  assumes "frame_at rsp None i m"
  shows "\<exists>m' dr7' t'. do_DB_handler rsp m dr7 t = (m', dr7', Returns t') \<and>
    frame_at rsp None (i\<lparr>it_rflags := set_bit 16 (it_rflags i)\<rparr>) m' \<and>
    (\<forall>n. bit dr7' n = (bit dr7 n \<and> n \<noteq> 0))"
  using resumed_frame [OF assms] by (simp add: do_DB_handler_def Let_def bit_unset_bit_iff)

theorem debug_handler_resumes_witness:
  "\<exists>m m' dr7' t'. do_DB_handler 0x1000 m 0x401 initial_text = (m', dr7', Returns t') \<and>
     frame_at 0x1000 None (example_interrupted\<lparr>it_rflags := 0x10202\<rparr>) m'"
proof -
  let ?m = "store_bytes 0x1000 (quads (pushed_frame None example_interrupted)) (\<lambda>_. 0)"
  have "frame_at 0x1000 None example_interrupted ?m" by (rule frame_stored)
  from debug_handler_resumes [OF this, of "0x401" initial_text] obtain m' dr7' t' where
    "do_DB_handler 0x1000 ?m 0x401 initial_text = (m', dr7', Returns t')"
    "frame_at 0x1000 None (example_interrupted\<lparr>it_rflags := set_bit 16 (it_rflags example_interrupted)\<rparr>) m'" by metis
  moreover have "set_bit 16 (it_rflags example_interrupted) = 0x10202"
    by (simp add: example_interrupted_def set_bit_eq_or)
  ultimately show ?thesis by metis
qed

text \<open>
  The register dump of the timer handler never shows the lower half of the interrupt command
  register: it prints the upper half, with zeros before it, and the same text whatever ICR0 holds.
\<close>

theorem dump_loses_command:
  "do_apic_timer_handler (a(ICR0 := x)) t = do_apic_timer_handler a t \<and> icr_value (a(ICR0 := x, ICR1 := y)) = ucast y"
proof -
  have "timer_lines (a(ICR0 := x)) = timer_lines a"
    by (simp add: timer_lines_def named_value_def joined_values_def apic_defs del: hex_digits_simps)
  then show ?thesis by (simp add: timer_handler_text icr_value_def)
qed

end
