(* ===== verification/Virtio_Transport.thy ===== *)
theory Virtio_Transport
  imports VL_Prelude
begin

text \<open>
  What the guest driver and the host device of the custom virtio device share: buffers in memory,
  the operations of the virtqueues (code of the Linux kernel and of QEMU, so they are parameters
  with their documented laws), and the contract of a stack kept in an array with a counter, which
  both sides implement.
\<close>

section \<open>Memory\<close>

type_synonym ptr = nat
type_synonym heap = "ptr \<rightharpoonup> u8 list"

datatype mem_fault =
    Null_pointer
  | Index_out_of_bounds
  | Use_after_free
  | Invalid_free
  | Buffer_overread
  | Missing_descriptor

definition heap_free :: "ptr \<Rightarrow> heap \<Rightarrow> mem_fault + heap" where
  "heap_free p h = (if h p = None then Inl Invalid_free else Inr (h(p := None)))"

section \<open>Virtqueues\<close>

text \<open>
  A queue element: the driver's token and the segments the device may read (\<^verbatim>\<open>out_sg\<close>) and write
  (\<^verbatim>\<open>in_sg\<close>), each a pointer into guest memory with a length.
\<close>

record vqe =
  vqe_token :: ptr
  out_sg :: "(ptr \<times> nat) list"
  in_sg :: "(ptr \<times> nat) list"

record 'q vq_ops =
  vq_add :: "'q \<Rightarrow> vqe \<Rightarrow> 'q \<times> int"
  vq_kick :: "'q \<Rightarrow> 'q"
  vq_get_buf :: "'q \<Rightarrow> 'q \<times> (ptr \<times> nat) option"
  vq_ready :: "'q \<Rightarrow> bool"
  vq_pop :: "'q \<Rightarrow> 'q \<times> vqe option"
  vq_push :: "'q \<Rightarrow> vqe \<Rightarrow> nat \<Rightarrow> 'q"
  vq_notify :: "'q \<Rightarrow> 'q"

record iov_ops =
  iov_to_buf :: "heap \<Rightarrow> (ptr \<times> nat) list \<Rightarrow> nat \<Rightarrow> u8 list"
  iov_from_buf :: "heap \<Rightarrow> (ptr \<times> nat) list \<Rightarrow> u8 list \<Rightarrow> heap"

text \<open>What can be observed of a queue: elements offered, elements returned, descriptors free.\<close>

record 'q vq_view =
  avail :: "'q \<Rightarrow> vqe list"
  used :: "'q \<Rightarrow> (ptr \<times> nat) list"
  room :: "'q \<Rightarrow> nat"

text \<open>
  The virtio specification: adding with a free descriptor offers the element last and
  adding without one fails and changes nothing; the device pops
  the oldest offered element; a pushed element is returned after those pushed before it; the driver
  gets the oldest returned element and its descriptor back; kicking and notifying change nothing.
\<close>

definition vq_laws :: "'q vq_ops \<Rightarrow> 'q vq_view \<Rightarrow> bool" where
  "vq_laws q v \<longleftrightarrow>
     (\<forall>s e. 0 < room v s \<longrightarrow>
        (let s' = fst (vq_add q s e) in
         snd (vq_add q s e) = 0 \<and> avail v s' = avail v s @ [e] \<and> used v s' = used v s \<and>
         room v s' = room v s - 1 \<and> vq_ready q s' = vq_ready q s)) \<and>
     (\<forall>s e. room v s = 0 \<longrightarrow> fst (vq_add q s e) = s \<and> snd (vq_add q s e) < 0) \<and>
     (\<forall>s e es. avail v s = e # es \<longrightarrow>
        (let s' = fst (vq_pop q s) in
         snd (vq_pop q s) = Some e \<and> avail v s' = es \<and> used v s' = used v s \<and>
         room v s' = room v s \<and> vq_ready q s' = vq_ready q s)) \<and>
     (\<forall>s. avail v s = [] \<longrightarrow> vq_pop q s = (s, None)) \<and>
     (\<forall>s e n. let s' = vq_push q s e n in
        used v s' = used v s @ [(vqe_token e, n)] \<and> avail v s' = avail v s \<and>
        room v s' = room v s \<and> vq_ready q s' = vq_ready q s) \<and>
     (\<forall>s u us. used v s = u # us \<longrightarrow>
        (let s' = fst (vq_get_buf q s) in
         snd (vq_get_buf q s) = Some u \<and> used v s' = us \<and> avail v s' = avail v s \<and>
         room v s' = room v s + 1 \<and> vq_ready q s' = vq_ready q s)) \<and>
     (\<forall>s. used v s = [] \<longrightarrow> vq_get_buf q s = (s, None)) \<and>
     (\<forall>s. avail v (vq_kick q s) = avail v s \<and> used v (vq_kick q s) = used v s \<and>
        room v (vq_kick q s) = room v s \<and> vq_ready q (vq_kick q s) = vq_ready q s) \<and>
     (\<forall>s. avail v (vq_notify q s) = avail v s \<and> used v (vq_notify q s) = used v s \<and>
        room v (vq_notify q s) = room v s \<and> vq_ready q (vq_notify q s) = vq_ready q s)"

text \<open>Copying between a scatter list of one segment and a flat buffer.\<close>

definition iov_laws :: "iov_ops \<Rightarrow> bool" where
  "iov_laws io \<longleftrightarrow>
     (\<forall>h p bs n. h p = Some bs \<longrightarrow> n \<le> length bs \<longrightarrow> iov_to_buf io h [(p, n)] n = take n bs) \<and>
     (\<forall>h p bs src. h p = Some bs \<longrightarrow> length src = length bs \<longrightarrow>
        iov_from_buf io h [(p, length bs)] src = h(p \<mapsto> src))"

text \<open>The laws one operation at a time, for the proofs of the two sides.\<close>

lemma vq_add_law:
  assumes "vq_laws q v" and "0 < room v s"
  shows "snd (vq_add q s e) = 0" "avail v (fst (vq_add q s e)) = avail v s @ [e]"
    "used v (fst (vq_add q s e)) = used v s" "room v (fst (vq_add q s e)) = room v s - 1"
    "vq_ready q (fst (vq_add q s e)) = vq_ready q s"
  using assms unfolding vq_laws_def Let_def by blast+

lemma vq_add_full_law: "vq_laws q v \<Longrightarrow> room v s = 0 \<Longrightarrow> fst (vq_add q s e) = s"
  unfolding vq_laws_def by blast

lemma vq_pop_law:
  assumes "vq_laws q v" and "avail v s = e # es"
  shows "snd (vq_pop q s) = Some e" "avail v (fst (vq_pop q s)) = es"
    "used v (fst (vq_pop q s)) = used v s" "room v (fst (vq_pop q s)) = room v s"
    "vq_ready q (fst (vq_pop q s)) = vq_ready q s"
  using assms unfolding vq_laws_def Let_def by blast+

lemma vq_push_law:
  assumes "vq_laws q v"
  shows "used v (vq_push q s e n) = used v s @ [(vqe_token e, n)]"
    "avail v (vq_push q s e n) = avail v s" "room v (vq_push q s e n) = room v s"
    "vq_ready q (vq_push q s e n) = vq_ready q s"
  using assms unfolding vq_laws_def Let_def by blast+

lemma vq_get_buf_law:
  assumes "vq_laws q v" and "used v s = u # us"
  shows "snd (vq_get_buf q s) = Some u" "used v (fst (vq_get_buf q s)) = us"
    "avail v (fst (vq_get_buf q s)) = avail v s" "room v (fst (vq_get_buf q s)) = room v s + 1"
    "vq_ready q (fst (vq_get_buf q s)) = vq_ready q s"
  using assms unfolding vq_laws_def Let_def by blast+

lemma vq_empty_law:
  assumes "vq_laws q v"
  shows "avail v s = [] \<Longrightarrow> vq_pop q s = (s, None)" "used v s = [] \<Longrightarrow> vq_get_buf q s = (s, None)"
  using assms unfolding vq_laws_def Let_def by blast+

lemma vq_signal_law:
  assumes "vq_laws q v"
  shows "avail v (vq_kick q s) = avail v s" "used v (vq_kick q s) = used v s"
    "room v (vq_kick q s) = room v s" "vq_ready q (vq_kick q s) = vq_ready q s"
    "avail v (vq_notify q s) = avail v s" "used v (vq_notify q s) = used v s"
    "room v (vq_notify q s) = room v s" "vq_ready q (vq_notify q s) = vq_ready q s"
  using assms unfolding vq_laws_def Let_def by blast+

lemma iov_law:
  assumes "iov_laws io" and "h p = Some bs"
  shows "n \<le> length bs \<Longrightarrow> iov_to_buf io h [(p, n)] n = take n bs"
    "n = length bs \<Longrightarrow> length src = n \<Longrightarrow> iov_from_buf io h [(p, n)] src = h(p \<mapsto> src)"
  using assms unfolding iov_laws_def by blast+

text \<open>The laws are satisfiable: a queue of two lists, and copying the first segment.\<close>

type_synonym fifo = "vqe list \<times> (ptr \<times> nat) list \<times> nat"

definition fifo_ops :: "fifo vq_ops" where
  "fifo_ops = \<lparr>
     vq_add = (\<lambda>(a, u, n) e. if n = 0 then ((a, u, n), -28) else ((a @ [e], u, n - 1), 0)),
     vq_kick = id,
     vq_get_buf = (\<lambda>(a, u, n). case u of [] \<Rightarrow> ((a, u, n), None) | x # xs \<Rightarrow> ((a, xs, n + 1), Some x)),
     vq_ready = (\<lambda>_. True),
     vq_pop = (\<lambda>(a, u, n). case a of [] \<Rightarrow> ((a, u, n), None) | x # xs \<Rightarrow> ((xs, u, n), Some x)),
     vq_push = (\<lambda>(a, u, n) e k. (a, u @ [(vqe_token e, k)], n)),
     vq_notify = id\<rparr>"

definition fifo_view :: "fifo vq_view" where
  "fifo_view = \<lparr>avail = fst, used = fst \<circ> snd, room = snd \<circ> snd\<rparr>"

definition flat_iov :: iov_ops where
  "flat_iov = \<lparr>
     iov_to_buf = (\<lambda>h sg n. case sg of [] \<Rightarrow> [] | (p, k) # _ \<Rightarrow> take n (case h p of None \<Rightarrow> [] | Some bs \<Rightarrow> bs)),
     iov_from_buf = (\<lambda>h sg src. case sg of [] \<Rightarrow> h | (p, k) # _ \<Rightarrow> h(p \<mapsto> src))\<rparr>"

lemma fifo_laws: "vq_laws fifo_ops fifo_view"
  by (auto simp: vq_laws_def fifo_ops_def fifo_view_def Let_def)

lemma flat_iov_laws: "iov_laws flat_iov"
  by (auto simp: iov_laws_def flat_iov_def)

section \<open>A stack in an array\<close>

text \<open>
  The contract of \<^verbatim>\<open>a[n++] = x\<close> and \<^verbatim>\<open>n--\<close>: up to a capacity, pushing writes the slot at the
  count and popping forgets the last slot. The client facts say that it is a stack.
\<close>

definition stack_items :: "('s \<Rightarrow> nat) \<Rightarrow> ('s \<Rightarrow> nat \<Rightarrow> 'a) \<Rightarrow> 's \<Rightarrow> 'a list" where
  "stack_items count slot s = map (slot s) [0..<count s]"

lemma length_stack_items [simp]: "length (stack_items count slot s) = count s"
  by (simp add: stack_items_def)

locale array_stack =
  fixes ok :: "'s \<Rightarrow> bool"
    and count :: "'s \<Rightarrow> nat"
    and slot :: "'s \<Rightarrow> nat \<Rightarrow> 'a"
    and push :: "'a \<Rightarrow> 's \<Rightarrow> 's"
    and pop :: "'s \<Rightarrow> 's"
    and cap :: nat
  assumes ok_push: "ok s \<Longrightarrow> count s < cap \<Longrightarrow> ok (push x s)"
    and count_push: "ok s \<Longrightarrow> count s < cap \<Longrightarrow> count (push x s) = Suc (count s)"
    and slot_push: "ok s \<Longrightarrow> count s < cap \<Longrightarrow> k \<le> count s \<Longrightarrow>
      slot (push x s) k = (if k = count s then x else slot s k)"
    and ok_pop: "ok s \<Longrightarrow> 0 < count s \<Longrightarrow> ok (pop s)"
    and count_pop: "ok s \<Longrightarrow> 0 < count s \<Longrightarrow> count (pop s) = count s - 1"
    and slot_pop: "ok s \<Longrightarrow> 0 < count s \<Longrightarrow> slot (pop s) k = slot s k"
begin

abbreviation items :: "'s \<Rightarrow> 'a list" where
  "items s \<equiv> stack_items count slot s"

lemma items_push: "ok s \<Longrightarrow> count s < cap \<Longrightarrow> items (push x s) = items s @ [x]"
  by (auto simp: stack_items_def count_push slot_push)

lemma items_pop: "ok s \<Longrightarrow> 0 < count s \<Longrightarrow> items (pop s) = butlast (items s)"
  by (cases "count s") (auto simp: stack_items_def count_pop slot_pop butlast_append)

lemma items_pop_push: "ok s \<Longrightarrow> count s < cap \<Longrightarrow> items (pop (push x s)) = items s"
  by (simp add: items_pop ok_push count_push items_push)

lemma pushes:
  "ok s \<Longrightarrow> count s + length xs \<le> cap \<Longrightarrow>
   ok (fold push xs s) \<and> items (fold push xs s) = items s @ xs \<and>
   count (fold push xs s) = count s + length xs"
proof (induction xs arbitrary: s)
  case (Cons x xs)
  have "count s < cap" using Cons.prems(2) by simp
  note step = ok_push [OF Cons.prems(1) this] items_push [OF Cons.prems(1) this]
    count_push [OF Cons.prems(1) this]
  show ?case using Cons.IH [OF step(1) [of x]] Cons.prems(2) step(2,3) by simp
qed simp

lemma pops:
  "ok s \<Longrightarrow> n \<le> count s \<Longrightarrow>
   ok ((pop ^^ n) s) \<and> count ((pop ^^ n) s) = count s - n \<and>
   items ((pop ^^ n) s) = take (count s - n) (items s)"
proof (induction n)
  case (Suc n)
  then have IH: "ok ((pop ^^ n) s)" "count ((pop ^^ n) s) = count s - n"
    "items ((pop ^^ n) s) = take (count s - n) (items s)" by auto
  have pos: "0 < count ((pop ^^ n) s)" using IH(2) Suc.prems(2) by simp
  have "items ((pop ^^ Suc n) s) = butlast (take (count s - n) (items s))"
    using items_pop [OF IH(1) pos] IH(3) by simp
  also have "\<dots> = take (count s - Suc n) (items s)"
    by (subst butlast_take) auto
  finally show ?case using ok_pop [OF IH(1) pos] count_pop [OF IH(1) pos] IH(2) by simp
qed simp

text \<open>Last in, first out: pushing and popping the same number of items restores the stack.\<close>

lemma pops_pushes:
  assumes "ok s" and "count s + length xs \<le> cap"
  shows "items ((pop ^^ length xs) (fold push xs s)) = items s"
  using pushes [OF assms] pops [of "fold push xs s" "length xs"] by simp

end

end
