(* ===== verification/Virtio_Driver.thy ===== *)
theory Virtio_Driver
  imports Virtio_Transport
begin

text \<open>
  The data path of the guest driver (\<^verbatim>\<open>src/virtio/virtio_custdev.c\<close>): the file operations read and
  write and the two virtqueue callbacks. The queues and the kernel heap are passed explicitly.
  Memory allocation is an argument (\<^term>\<open>None\<close> when it fails), as is the number of bytes that
  \<^verbatim>\<open>copy_from_user\<close> and \<^verbatim>\<open>copy_to_user\<close> could not copy. A read blocks in the middle, so it is two
  steps around \<^verbatim>\<open>wait_for_completion\<close>. Kernel messages are not modelled.
\<close>

section \<open>State\<close>

definition VIRTIO_CUSTDEV_BUFFERS :: nat where
  "VIRTIO_CUSTDEV_BUFFERS = 1024"

record virtio_custom_device =
  buffers :: u32
  buf_lens :: "u32 list"
  read_data :: "ptr option"
  data_ready :: nat
  status :: u8

definition ENOSPC :: int where
  "ENOSPC = 28"

definition ENOMEM :: int where
  "ENOMEM = 12"

datatype read_result =
    Returned int
  | Waiting ptr

section \<open>Operations\<close>

text \<open>
  Opening keeps the data of the \<^verbatim>\<open>/proc\<close> entry as the private data of the file. The notification does
  not reach the device: its write is commented out, and it reports success.
\<close>

definition virtio_custdev_open :: "'p \<Rightarrow> 'p option \<Rightarrow> 'p option \<times> int" where
  "virtio_custdev_open pde_data private_data = (Some pde_data, 0)"

definition custdev_notify :: "virtio_custom_device \<Rightarrow> virtio_custom_device \<times> bool" where
  "custdev_notify d = (d, True)"

text \<open>\<^verbatim>\<open>vcust->buf_lens[vcust->buffers++] = count\<close> and \<^verbatim>\<open>vcust->buffers--\<close>.\<close>

definition push_len :: "u32 \<Rightarrow> virtio_custom_device \<Rightarrow> virtio_custom_device" where
  "push_len n d = d\<lparr>buf_lens := (buf_lens d)[unat (buffers d) := n], buffers := buffers d + 1\<rparr>"

definition pop_len :: "virtio_custom_device \<Rightarrow> virtio_custom_device" where
  "pop_len d = d\<lparr>buffers := buffers d - 1\<rparr>"

text \<open>\<^verbatim>\<open>data\<close> holds the \<^verbatim>\<open>count\<close> bytes of the caller; \<^verbatim>\<open>copy_from_user\<close> pads what it cannot copy.\<close>

definition virtio_custdev_write ::
  "'q vq_ops \<Rightarrow> ptr option \<Rightarrow> u8 list \<Rightarrow> nat \<Rightarrow>
   virtio_custom_device \<Rightarrow> 'q \<Rightarrow> heap \<Rightarrow> virtio_custom_device \<times> 'q \<times> heap \<times> int"
where
  "virtio_custdev_write vq alloc data res d tx h =
     (if of_nat VIRTIO_CUSTDEV_BUFFERS \<le> buffers d then (d, tx, h, ENOSPC)
      else case alloc of
             None \<Rightarrow> (d, tx, h, 1)
           | Some to_send \<Rightarrow>
               let count = length data - res;
                   h' = h(to_send \<mapsto> take count data @ replicate res 0);
                   sg = \<lparr>vqe_token = to_send, out_sg = [(to_send, count)], in_sg = []\<rparr>
               in (push_len (of_nat count) d, vq_kick vq (fst (vq_add vq tx sg)), h', int count))"

text \<open>A read up to \<^verbatim>\<open>wait_for_completion\<close>. The caller's \<^verbatim>\<open>count\<close> is not used.\<close>

definition virtio_custdev_read_start ::
  "'q vq_ops \<Rightarrow> ptr option \<Rightarrow> nat \<Rightarrow> virtio_custom_device \<Rightarrow> 'q \<Rightarrow> heap \<Rightarrow>
   mem_fault + ('q \<times> heap \<times> read_result)"
where
  "virtio_custdev_read_start vq alloc count d rx h =
     (if buffers d < 1 then Inr (rx, h, Returned 0)
      else if length (buf_lens d) \<le> unat (buffers d - 1) then Inl Index_out_of_bounds
      else case alloc of
             None \<Rightarrow> Inr (rx, h, Returned (- ENOMEM))
           | Some rcv_buf \<Rightarrow>
               let len = unat (buf_lens d ! unat (buffers d - 1));
                   h' = h(rcv_buf \<mapsto> replicate len 0);
                   sg = \<lparr>vqe_token = rcv_buf, out_sg = [], in_sg = [(rcv_buf, len)]\<rparr>
               in Inr (vq_kick vq (fst (vq_add vq rx sg)), h', Waiting rcv_buf))"

text \<open>\<^verbatim>\<open>wait_for_completion\<close> goes on only after a \<^verbatim>\<open>complete\<close>.\<close>

definition wait_for_completion :: "virtio_custom_device \<Rightarrow> virtio_custom_device option" where
  "wait_for_completion d =
     (if data_ready d = 0 then None else Some (d\<lparr>data_ready := data_ready d - 1\<rparr>))"

text \<open>The rest of a read: the bytes the caller received and the value returned.\<close>

definition virtio_custdev_read_finish ::
  "ptr \<Rightarrow> nat \<Rightarrow> virtio_custom_device \<Rightarrow> heap \<Rightarrow>
   mem_fault + (virtio_custom_device \<times> heap \<times> u8 list \<times> int)"
where
  "virtio_custdev_read_finish rcv_buf res d h =
     (let i = unat (buffers d) in
      if length (buf_lens d) \<le> i then Inl Index_out_of_bounds
      else case read_data d of
             None \<Rightarrow> Inl Null_pointer
           | Some q \<Rightarrow>
               (case h q of
                  None \<Rightarrow> Inl Use_after_free
                | Some bs \<Rightarrow>
                    let n = unat (buf_lens d ! i) in
                    if length bs < n then Inl Buffer_overread
                    else
                      let d' = (if res \<noteq> 0
                                then d\<lparr>buf_lens := (buf_lens d)[i := buf_lens d ! i - of_nat res]\<rparr>
                                else d)
                      in case heap_free rcv_buf h of
                           Inl f \<Rightarrow> Inl f
                         | Inr h' \<Rightarrow>
                             Inr (d', h', take (n - res) bs, int (unat (buf_lens d' ! i)))))"

definition virtio_custdev_outbuf_cb :: "'q vq_ops \<Rightarrow> 'q \<Rightarrow> heap \<Rightarrow> mem_fault + ('q \<times> heap)" where
  "virtio_custdev_outbuf_cb vq tx h =
     (case vq_get_buf vq tx of
        (tx', None) \<Rightarrow> Inr (tx', h)
      | (tx', Some (buf, len)) \<Rightarrow>
          (case heap_free buf h of Inl f \<Rightarrow> Inl f | Inr h' \<Rightarrow> Inr (tx', h')))"

definition virtio_custdev_inbuf_cb ::
  "'q vq_ops \<Rightarrow> virtio_custom_device \<Rightarrow> 'q \<Rightarrow> virtio_custom_device \<times> 'q"
where
  "virtio_custdev_inbuf_cb vq d rx =
     (let (rx', b) = vq_get_buf vq rx;
          d1 = pop_len (d\<lparr>read_data := map_option fst b\<rparr>)
      in (d1\<lparr>data_ready := data_ready d1 + 1\<rparr>, rx'))"

text \<open>The status byte of the configuration operations.\<close>

definition custdev_get_status :: "virtio_custom_device \<Rightarrow> u8" where
  "custdev_get_status d = status d"

definition custdev_set_status :: "u8 \<Rightarrow> virtio_custom_device \<Rightarrow> virtio_custom_device" where
  "custdev_set_status s d = d\<lparr>status := s\<rparr>"

definition custdev_reset :: "virtio_custom_device \<Rightarrow> virtio_custom_device" where
  "custdev_reset d = d\<lparr>status := 0\<rparr>"

section \<open>The invariant and the stack of lengths\<close>

definition drv_ok :: "virtio_custom_device \<Rightarrow> bool" where
  "drv_ok d \<longleftrightarrow> length (buf_lens d) = VIRTIO_CUSTDEV_BUFFERS \<and>
     unat (buffers d) \<le> VIRTIO_CUSTDEV_BUFFERS"

definition len_count :: "virtio_custom_device \<Rightarrow> nat" where
  "len_count d = unat (buffers d)"

definition len_slot :: "virtio_custom_device \<Rightarrow> nat \<Rightarrow> u32" where
  "len_slot d k = buf_lens d ! k"

lemma below_cap_iff: "of_nat VIRTIO_CUSTDEV_BUFFERS \<le> (x :: u32) \<longleftrightarrow> VIRTIO_CUSTDEV_BUFFERS \<le> unat x"
  by (simp add: word_le_nat_alt VIRTIO_CUSTDEV_BUFFERS_def)

interpretation drv_lens: array_stack drv_ok len_count len_slot push_len pop_len VIRTIO_CUSTDEV_BUFFERS
  by unfold_locales
    (auto simp: drv_ok_def len_count_def len_slot_def push_len_def pop_len_def
      VIRTIO_CUSTDEV_BUFFERS_def unat_Suc_small unat_pred_pos)

end
