(* ===== verification/Virtio_Device.thy ===== *)
theory Virtio_Device
  imports Virtio_Transport
begin

text \<open>
  The host side of the custom device (\<^verbatim>\<open>src/virtio/virtio-custdev.c\<close>), QEMU's device model: the two
  queue handlers, the status and feature callbacks, realize and unrealize. The queue, the guest
  memory and the host heap are passed explicitly; \<^verbatim>\<open>malloc\<close> is an argument that gives the block and
  its initial contents. Messages of \<^verbatim>\<open>virtio_custdev_print\<close> are not modelled.
\<close>

section \<open>State\<close>

definition DEVICE_BUFFERS :: nat where
  "DEVICE_BUFFERS = 1024"

datatype queue_handler = Handle_outbuf | Handle_inbuf

record VirtIOCustdev =
  vdev_queues :: "(nat \<times> queue_handler) list"
  dev_vq_rx :: nat
  dev_vq_tx :: nat
  rcv_bufs :: "ptr option list"
  rcv_count :: u32
  vdev_status :: u8
  vm_running :: bool

section \<open>Operations\<close>

definition push_buf :: "ptr \<Rightarrow> VirtIOCustdev \<Rightarrow> VirtIOCustdev" where
  "push_buf p d =
     d\<lparr>rcv_bufs := (rcv_bufs d)[unat (rcv_count d) := Some p], rcv_count := rcv_count d + 1\<rparr>"

definition pop_buf :: "VirtIOCustdev \<Rightarrow> VirtIOCustdev" where
  "pop_buf d = d\<lparr>rcv_count := rcv_count d - 1\<rparr>"

definition virtio_custdev_get_features :: "u64 \<Rightarrow> u64" where
  "virtio_custdev_get_features f = f"

definition virtio_custdev_set_status :: "u8 \<Rightarrow> VirtIOCustdev \<Rightarrow> VirtIOCustdev" where
  "virtio_custdev_set_status s d = (if \<not> vm_running d then d else d\<lparr>vdev_status := s\<rparr>)"

text \<open>A buffer from the guest: copied to a fresh block that becomes the top of the stack.\<close>

definition virtio_custdev_handle_outbuf ::
  "'q vq_ops \<Rightarrow> iov_ops \<Rightarrow> bool \<Rightarrow> (nat \<Rightarrow> (ptr \<times> u8 list) option) \<Rightarrow>
   VirtIOCustdev \<Rightarrow> 'q \<Rightarrow> heap \<Rightarrow> heap \<Rightarrow> mem_fault + (VirtIOCustdev \<times> 'q \<times> heap)"
where
  "virtio_custdev_handle_outbuf vq io running malloc d q guest h =
     (if \<not> vq_ready vq q then Inr (d, q, h)
      else if \<not> running then Inr (d, q, h)
      else case vq_pop vq q of
             (q1, None) \<Rightarrow> Inl Null_pointer
           | (q1, Some e) \<Rightarrow>
               (case out_sg e of
                  [] \<Rightarrow> Inl Missing_descriptor
                | (_, iov_len) # _ \<Rightarrow>
                    if length (rcv_bufs d) \<le> unat (rcv_count d) then Inl Index_out_of_bounds
                    else case malloc iov_len of
                           None \<Rightarrow> Inl Null_pointer
                         | Some (p, junk) \<Rightarrow>
                             let bs = iov_to_buf io guest (out_sg e) iov_len;
                                 h' = h(p \<mapsto> bs @ drop (length bs) junk)
                             in Inr (push_buf p d, vq_notify vq (vq_push vq q1 e 0), h')))"

text \<open>A buffer for the guest: filled from the top of the stack, which is then freed.\<close>

definition virtio_custdev_handle_inbuf ::
  "'q vq_ops \<Rightarrow> iov_ops \<Rightarrow> bool \<Rightarrow> VirtIOCustdev \<Rightarrow> 'q \<Rightarrow> heap \<Rightarrow> heap \<Rightarrow>
   mem_fault + (VirtIOCustdev \<times> 'q \<times> heap \<times> heap)"
where
  "virtio_custdev_handle_inbuf vq io running d q guest h =
     (let last_buf = unat (rcv_count d - 1) in
      if \<not> vq_ready vq q then Inr (d, q, guest, h)
      else if \<not> running then Inr (d, q, guest, h)
      else case vq_pop vq q of
             (q1, None) \<Rightarrow> Inl Null_pointer
           | (q1, Some e) \<Rightarrow>
               (case in_sg e of
                  [] \<Rightarrow> Inl Missing_descriptor
                | (_, iov_len) # _ \<Rightarrow>
                    if length (rcv_bufs d) \<le> last_buf then Inl Index_out_of_bounds
                    else case rcv_bufs d ! last_buf of
                           None \<Rightarrow> Inl Null_pointer
                         | Some p \<Rightarrow>
                             (case h p of
                                None \<Rightarrow> Inl Use_after_free
                              | Some bs \<Rightarrow>
                                  if length bs < iov_len then Inl Buffer_overread
                                  else Inr (pop_buf d,
                                            vq_notify vq (vq_push vq q1 e iov_len),
                                            iov_from_buf io guest (in_sg e) (take iov_len bs),
                                            h(p := None)))))"

text \<open>
  Realize registers the two queues of 64 entries, in this order, with their handlers; a queue is
  the index at which \<^verbatim>\<open>virtio_add_queue\<close> put it.
\<close>

definition virtio_add_queue :: "nat \<Rightarrow> queue_handler \<Rightarrow> VirtIOCustdev \<Rightarrow> nat \<times> VirtIOCustdev" where
  "virtio_add_queue n handler d =
     (length (vdev_queues d), d\<lparr>vdev_queues := vdev_queues d @ [(n, handler)]\<rparr>)"

definition virtio_custdev_device_realize :: "VirtIOCustdev \<Rightarrow> VirtIOCustdev" where
  "virtio_custdev_device_realize d =
     (let (q0, d1) = virtio_add_queue 64 Handle_outbuf (d\<lparr>vdev_queues := []\<rparr>);
          (q1, d2) = virtio_add_queue 64 Handle_inbuf (d1\<lparr>dev_vq_rx := q0\<rparr>)
      in d2\<lparr>dev_vq_tx := q1, rcv_count := 0\<rparr>)"

text \<open>Unrealize frees every buffer that was received and not yet fetched.\<close>

fun free_bufs :: "ptr option list \<Rightarrow> heap \<Rightarrow> mem_fault + heap" where
  "free_bufs [] h = Inr h"
| "free_bufs (b # bs) h =
     (case b of
        None \<Rightarrow> free_bufs bs h
      | Some p \<Rightarrow> (case heap_free p h of Inl f \<Rightarrow> Inl f | Inr h' \<Rightarrow> free_bufs bs h'))"

definition virtio_custdev_device_unrealize :: "VirtIOCustdev \<Rightarrow> heap \<Rightarrow> mem_fault + heap" where
  "virtio_custdev_device_unrealize d h =
     (if length (rcv_bufs d) < unat (rcv_count d) then Inl Index_out_of_bounds
      else free_bufs (take (unat (rcv_count d)) (rcv_bufs d)) h)"

section \<open>The invariant and the stack of buffers\<close>

definition bufs_ok :: "VirtIOCustdev \<Rightarrow> bool" where
  "bufs_ok d \<longleftrightarrow> length (rcv_bufs d) = DEVICE_BUFFERS \<and> unat (rcv_count d) \<le> DEVICE_BUFFERS"

definition buf_count :: "VirtIOCustdev \<Rightarrow> nat" where
  "buf_count d = unat (rcv_count d)"

definition buf_slot :: "VirtIOCustdev \<Rightarrow> nat \<Rightarrow> ptr" where
  "buf_slot d k = (case rcv_bufs d ! k of None \<Rightarrow> 0 | Some p \<Rightarrow> p)"

text \<open>Every buffer below the count is a live block of the host heap, and no block is held twice.\<close>

definition dev_ok :: "VirtIOCustdev \<Rightarrow> heap \<Rightarrow> bool" where
  "dev_ok d h \<longleftrightarrow> bufs_ok d \<and>
     (\<forall>k < buf_count d. rcv_bufs d ! k \<noteq> None \<and> h (buf_slot d k) \<noteq> None) \<and>
     distinct (stack_items buf_count buf_slot d)"

text \<open>What the device holds, oldest first.\<close>

definition stored :: "VirtIOCustdev \<Rightarrow> heap \<Rightarrow> u8 list list" where
  "stored d h = map (\<lambda>p. the (h p)) (stack_items buf_count buf_slot d)"

interpretation dev_bufs: array_stack bufs_ok buf_count buf_slot push_buf pop_buf DEVICE_BUFFERS
  by unfold_locales
    (auto simp: bufs_ok_def buf_count_def buf_slot_def push_buf_def pop_buf_def
      DEVICE_BUFFERS_def unat_Suc_small unat_pred_pos)

section \<open>The handlers\<close>

lemma stored_length [simp]: "length (stored d h) = buf_count d"
  by (simp add: stored_def)

lemma dev_ok_bufs: "dev_ok d h \<Longrightarrow> bufs_ok d"
  by (simp add: dev_ok_def)

lemma items_live: "dev_ok d h \<Longrightarrow> p \<in> set (stack_items buf_count buf_slot d) \<Longrightarrow> h p \<noteq> None"
  by (auto simp: dev_ok_def stack_items_def)

lemma slot_Some: "rcv_bufs d ! k \<noteq> None \<Longrightarrow> rcv_bufs d ! k = Some (buf_slot d k)"
  by (auto simp: buf_slot_def)

text \<open>Storing a block under a fresh pointer.\<close>

lemma push_buf_stores:
  assumes ok: "dev_ok d h" and room: "buf_count d < DEVICE_BUFFERS" and fresh: "h p = None"
  shows "dev_ok (push_buf p d) (h(p \<mapsto> bs))" "stored (push_buf p d) (h(p \<mapsto> bs)) = stored d h @ [bs]"
proof -
  note b = dev_ok_bufs [OF ok]
  note items = dev_bufs.items_push [OF b room, of p]
  have notin: "p \<notin> set (stack_items buf_count buf_slot d)"
    using items_live [OF ok, of p] fresh by blast
  have slots: "rcv_bufs (push_buf p d) ! k \<noteq> None" if "k < buf_count (push_buf p d)" for k
    using that ok room dev_bufs.count_push [OF b room, of p]
    by (cases "k = buf_count d") (auto simp: dev_ok_def push_buf_def bufs_ok_def buf_count_def)
  have "h (buf_slot (push_buf p d) k) \<noteq> None \<or> buf_slot (push_buf p d) k = p"
    if "k < buf_count (push_buf p d)" for k
    using that ok dev_bufs.slot_push [OF b room, of k p] dev_bufs.count_push [OF b room, of p]
    by (cases "k = buf_count d") (auto simp: dev_ok_def)
  with slots dev_bufs.ok_push [OF b room, of p] items notin ok
  show "dev_ok (push_buf p d) (h(p \<mapsto> bs))" by (auto simp: dev_ok_def)
  show "stored (push_buf p d) (h(p \<mapsto> bs)) = stored d h @ [bs]"
    using notin by (auto simp: stored_def items)
qed

text \<open>Dropping the top block and freeing it.\<close>

lemma pop_buf_stores:
  assumes ok: "dev_ok d h" and pos: "0 < buf_count d"
  defines "p \<equiv> buf_slot d (buf_count d - 1)"
  shows "dev_ok (pop_buf d) (h(p := None))" "stored (pop_buf d) (h(p := None)) = butlast (stored d h)"
    "h p = Some (last (stored d h))" "rcv_bufs d ! unat (rcv_count d - 1) = Some p"
proof -
  note b = dev_ok_bufs [OF ok]
  let ?is = "stack_items buf_count buf_slot d"
  note items = dev_bufs.items_pop [OF b pos]
  have ne: "?is \<noteq> []" using pos by (metis length_stack_items less_numeral_extra(3) list.size(3))
  have p: "p = last ?is"
    using pos ne by (simp add: p_def stack_items_def last_map)
  have notin: "p \<notin> set (butlast ?is)"
    using ok ne p by (metis append_butlast_last_id dev_ok_def distinct_append disjoint_iff
        list.set_intros(1))
  have live: "h p \<noteq> None" using items_live [OF ok] ne p by auto
  then show "h p = Some (last (stored d h))"
    using ne by (simp add: stored_def last_map p)
  show "stored (pop_buf d) (h(p := None)) = butlast (stored d h)"
    using notin by (auto simp: stored_def items simp flip: map_butlast intro!: map_cong)
  have "rcv_bufs d ! (buf_count d - 1) \<noteq> None" using ok pos by (auto simp: dev_ok_def)
  then show "rcv_bufs d ! unat (rcv_count d - 1) = Some p"
    using slot_Some pos by (simp add: p_def buf_count_def unat_pred_pos)
  have count: "buf_count (pop_buf d) = buf_count d - 1" by (rule dev_bufs.count_pop [OF b pos])
  have "buf_slot d k \<noteq> p" if "k < buf_count d - 1" for k
    using that notin items count dev_bufs.slot_pop [OF b pos, of k]
    by (metis (no_types, lifting) stack_items_def atLeastLessThan_iff image_eqI list.set_map set_upt
        zero_le)
  moreover have "distinct (butlast ?is)" using ok by (simp add: dev_ok_def distinct_butlast)
  ultimately show "dev_ok (pop_buf d) (h(p := None))"
    using ok dev_bufs.ok_pop [OF b pos] dev_bufs.slot_pop [OF b pos] items count
    by (auto simp: dev_ok_def pop_buf_def)
qed

text \<open>One buffer from the guest, when the queue offers an element with one readable segment.\<close>

lemma handle_outbuf_stores:
  assumes "vq_laws vq v" "iov_laws io" "dev_ok d h" "buf_count d < DEVICE_BUFFERS"
    "vq_ready vq q" "avail v q = e # es" "out_sg e = [(g, n)]" "guest g = Some bs" "n \<le> length bs"
    "malloc n = Some (p, junk)" "length junk = n" "h p = None"
  shows "\<exists>q'. virtio_custdev_handle_outbuf vq io True malloc d q guest h =
            Inr (push_buf p d, q', h(p \<mapsto> take n bs)) \<and>
      avail v q' = es \<and> used v q' = used v q @ [(vqe_token e, 0)] \<and> room v q' = room v q \<and>
      vq_ready vq q'"
proof -
  have "\<not> length (rcv_bufs d) \<le> unat (rcv_count d)"
    using assms(3,4) by (simp add: dev_ok_def bufs_ok_def buf_count_def)
  moreover obtain q1 where "vq_pop vq q = (q1, Some e)"
    and "avail v q1 = es" "used v q1 = used v q" "room v q1 = room v q" "vq_ready vq q1"
    using vq_pop_law [OF assms(1,6)] assms(5) by (cases "vq_pop vq q") auto
  ultimately show ?thesis
    using assms iov_law(1) [OF assms(2), of guest g bs n]
    by (simp add: virtio_custdev_handle_outbuf_def vq_push_law vq_signal_law Let_def)
qed

text \<open>One buffer for the guest of the length of the stored block.\<close>

lemma handle_inbuf_fetches:
  assumes "vq_laws vq v" "iov_laws io" "dev_ok d h" "0 < buf_count d"
    "vq_ready vq q" "avail v q = e # es" "in_sg e = [(g, n)]" "guest g = Some bs" "length bs = n"
    "length (last (stored d h)) = n"
  shows "\<exists>q'. virtio_custdev_handle_inbuf vq io True d q guest h =
            Inr (pop_buf d, q', guest(g \<mapsto> last (stored d h)),
                 h(buf_slot d (buf_count d - 1) := None)) \<and>
      avail v q' = es \<and> used v q' = used v q @ [(vqe_token e, n)] \<and> room v q' = room v q \<and>
      vq_ready vq q'"
proof -
  have "\<not> length (rcv_bufs d) \<le> unat (rcv_count d - 1)"
    using assms(3,4) by (auto simp: dev_ok_def bufs_ok_def buf_count_def unat_pred_pos)
  moreover obtain q1 where "vq_pop vq q = (q1, Some e)"
    and "avail v q1 = es" "used v q1 = used v q" "room v q1 = room v q" "vq_ready vq q1"
    using vq_pop_law [OF assms(1,6)] assms(5) by (cases "vq_pop vq q") auto
  moreover have "iov_from_buf io guest (in_sg e) (last (stored d h)) = guest(g \<mapsto> last (stored d h))"
    using iov_law(2) [OF assms(2), of guest g bs n] assms by simp
  ultimately show ?thesis
    using assms pop_buf_stores(3,4) [OF assms(3,4)]
    by (simp add: virtio_custdev_handle_inbuf_def vq_push_law vq_signal_law Let_def)
qed

lemma free_bufs_all:
  "distinct ps \<Longrightarrow> (\<forall>p \<in> set ps. h p \<noteq> None) \<Longrightarrow>
   free_bufs (map Some ps) h = Inr (\<lambda>p. if p \<in> set ps then None else h p)"
proof (induction ps arbitrary: h)
  case (Cons a ps)
  have "free_bufs (map Some ps) (h(a := None)) =
      Inr (\<lambda>p. if p \<in> set ps then None else (h(a := None)) p)"
    using Cons.prems by (intro Cons.IH) auto
  moreover have "(\<lambda>p. if p \<in> set ps then None else (h(a := None)) p) =
      (\<lambda>p. if p \<in> set (a # ps) then None else h p)"
    by (simp add: fun_eq_iff)
  ultimately show ?case using Cons.prems by (auto simp: heap_free_def)
qed simp

lemma live_slots: "dev_ok d h \<Longrightarrow>
  take (buf_count d) (rcv_bufs d) = map Some (stack_items buf_count buf_slot d)"
  by (rule nth_equalityI)
    (auto simp: dev_ok_def bufs_ok_def buf_count_def stack_items_def intro!: slot_Some)

lemma empty_index_outside:
  assumes "bufs_ok d" and "rcv_count d = 0"
  shows "length (rcv_bufs d) \<le> unat (rcv_count d - 1)"
proof -
  have "rcv_count d - 1 = 0xffffffff" using assms(2) by simp
  then show ?thesis using assms(1) by (simp only: bufs_ok_def DEVICE_BUFFERS_def) simp
qed

lemma inbuf_empty_device:
  assumes "vq_ready vq q" and "vq_pop vq q = (q', Some e)" and "in_sg e \<noteq> []"
    and "bufs_ok d" and "rcv_count d = 0"
  shows "virtio_custdev_handle_inbuf vq io True d q guest h = Inl Index_out_of_bounds"
  using assms empty_index_outside [OF assms(4,5)]
  by (auto simp: virtio_custdev_handle_inbuf_def Let_def split: list.splits)

section \<open>Properties\<close>

text \<open>
  C26: unrealizing a device in a consistent state frees every block it still holds, each exactly
  once, and touches no other block of the host heap.
\<close>

theorem unrealize_frees_all:
  assumes "dev_ok d h"
  shows "virtio_custdev_device_unrealize d h =
    Inr (\<lambda>p. if p \<in> set (stack_items buf_count buf_slot d) then None else h p)"
proof -
  have "\<not> length (rcv_bufs d) < unat (rcv_count d)"
    using assms by (simp add: dev_ok_def bufs_ok_def)
  moreover have "free_bufs (map Some (stack_items buf_count buf_slot d)) h =
      Inr (\<lambda>p. if p \<in> set (stack_items buf_count buf_slot d) then None else h p)"
    using assms items_live [OF assms] by (intro free_bufs_all) (auto simp: dev_ok_def)
  ultimately show ?thesis
    using live_slots [OF assms]
    by (simp add: virtio_custdev_device_unrealize_def buf_count_def)
qed

text \<open>A device with one stored block.\<close>

definition one_block :: VirtIOCustdev where
  "one_block = \<lparr>vdev_queues = [], dev_vq_rx = 0, dev_vq_tx = 1,
     rcv_bufs = Some 7 # replicate 1023 None, rcv_count = 1, vdev_status = 0, vm_running = True\<rparr>"

lemma one_block_ok: "dev_ok one_block [7 \<mapsto> [1, 2]]"
  by (simp add: dev_ok_def bufs_ok_def buf_count_def buf_slot_def one_block_def DEVICE_BUFFERS_def
      stack_items_def)

theorem unrealize_frees_all_witness:
  "dev_ok one_block [7 \<mapsto> [1, 2]] \<and>
   virtio_custdev_device_unrealize one_block [7 \<mapsto> [1, 2]] = Inr Map.empty"
proof -
  have "stack_items buf_count buf_slot one_block = [7]"
    by (simp add: stack_items_def buf_count_def buf_slot_def one_block_def)
  then show ?thesis
    using one_block_ok unrealize_frees_all [OF one_block_ok] by (auto simp: fun_eq_iff)
qed

text \<open>
  A buffer request that reaches a device which holds nothing indexes the array with the wrapped
  counter: the handler accesses memory outside the array of received buffers, for every queue
  element with a writable segment.
\<close>

theorem handle_inbuf_underflow:
  assumes "vq_ready vq q" and "vq_pop vq q = (q', Some e)" and "in_sg e \<noteq> []"
    and "bufs_ok d" and "rcv_count d = 0"
  shows "virtio_custdev_handle_inbuf vq io True d q guest h = Inl Index_out_of_bounds"
  using assms by (rule inbuf_empty_device)

theorem handle_inbuf_underflow_witness:
  "virtio_custdev_handle_inbuf fifo_ops flat_iov True (pop_buf one_block)
     ([\<lparr>vqe_token = 1, out_sg = [], in_sg = [(1, 4)]\<rparr>], [], 3) Map.empty Map.empty =
   Inl Index_out_of_bounds"
  by (rule handle_inbuf_underflow)
    (auto simp: fifo_ops_def pop_buf_def one_block_def bufs_ok_def DEVICE_BUFFERS_def)

text \<open>
  The received-buffer array has no bound check: with the array full, the next buffer the guest
  offers is stored outside it.
\<close>

theorem handle_outbuf_overflow:
  assumes "vq_ready vq q" and "vq_pop vq q = (q', Some e)" and "out_sg e \<noteq> []"
    and "bufs_ok d" and "rcv_count d = of_nat DEVICE_BUFFERS"
  shows "virtio_custdev_handle_outbuf vq io True malloc d q guest h = Inl Index_out_of_bounds"
proof -
  have "length (rcv_bufs d) \<le> unat (rcv_count d)"
    using assms(4,5) by (simp add: bufs_ok_def DEVICE_BUFFERS_def)
  then show ?thesis
    using assms by (auto simp: virtio_custdev_handle_outbuf_def Let_def split: list.splits)
qed

theorem handle_outbuf_overflow_witness:
  "virtio_custdev_handle_outbuf fifo_ops flat_iov True (\<lambda>n. Some (9, replicate n 0))
     (one_block\<lparr>rcv_count := of_nat DEVICE_BUFFERS\<rparr>)
     ([\<lparr>vqe_token = 1, out_sg = [(1, 4)], in_sg = []\<rparr>], [], 3) Map.empty Map.empty =
   Inl Index_out_of_bounds"
  by (rule handle_outbuf_overflow)
    (auto simp: fifo_ops_def one_block_def bufs_ok_def DEVICE_BUFFERS_def)

end
