(* ===== verification/Virtio_System.thy ===== *)
theory Virtio_System
  imports Virtio_Driver Virtio_Device
begin

text \<open>
  The guest driver and the host device together, connected by their two virtqueues. A step is one
  piece of code that runs without waiting: a system call up to the point where it blocks, a device
  handler, a driver callback. The number of a write and the number of a resumed read are the bytes
  that could not be copied between user and kernel. A run is any sequence of
  steps, so that every interleaving of the two sides is a run.
\<close>

section \<open>The system\<close>

text \<open>
  \<open>readers\<close> are the receive buffers of the reads that wait for their completion, oldest first;
  \<open>wrote\<close> and \<open>got\<close> record what write and read calls returned.
\<close>

record 'q world =
  drv :: virtio_custom_device
  dev :: VirtIOCustdev
  txq :: 'q
  rxq :: 'q
  kheap :: heap
  hheap :: heap
  readers :: "ptr list"
  wrote :: "int list"
  got :: "(u8 list \<times> int) list"

record 'q platform =
  vq :: "'q vq_ops"
  io :: iov_ops
  kalloc :: "heap \<Rightarrow> ptr option"
  malloc :: "heap \<Rightarrow> nat \<Rightarrow> (ptr \<times> u8 list) option"

datatype vevent =
    Write "u8 list" nat
  | Read nat
  | Read_resume nat
  | Outbuf_cb
  | Inbuf_cb
  | Handle_tx
  | Handle_rx

definition write_step :: "'q platform \<Rightarrow> u8 list \<Rightarrow> nat \<Rightarrow> 'q world \<Rightarrow> mem_fault + 'q world" where
  "write_step m data res w =
     (case virtio_custdev_write (vq m) (kalloc m (kheap w)) data res (drv w) (txq w) (kheap w) of
        (d, q, h, r) \<Rightarrow> Inr (w\<lparr>drv := d, txq := q, kheap := h, wrote := wrote w @ [r]\<rparr>))"

definition read_step :: "'q platform \<Rightarrow> nat \<Rightarrow> 'q world \<Rightarrow> mem_fault + 'q world" where
  "read_step m count w =
     (case virtio_custdev_read_start (vq m) (kalloc m (kheap w)) count (drv w) (rxq w) (kheap w) of
        Inl f \<Rightarrow> Inl f
      | Inr (q, h, Returned r) \<Rightarrow> Inr (w\<lparr>rxq := q, kheap := h, got := got w @ [([], r)]\<rparr>)
      | Inr (q, h, Waiting p) \<Rightarrow> Inr (w\<lparr>rxq := q, kheap := h, readers := readers w @ [p]\<rparr>))"

text \<open>A waiting read that has not been completed stays blocked.\<close>

definition resume_step :: "nat \<Rightarrow> 'q world \<Rightarrow> mem_fault + 'q world" where
  "resume_step res w =
     (case readers w of
        [] \<Rightarrow> Inr w
      | p # ps \<Rightarrow>
          (case wait_for_completion (drv w) of
             None \<Rightarrow> Inr w
           | Some d \<Rightarrow>
               (case virtio_custdev_read_finish p res d (kheap w) of
                  Inl f \<Rightarrow> Inl f
                | Inr (d', h, bs, r) \<Rightarrow>
                    Inr (w\<lparr>drv := d', kheap := h, readers := ps, got := got w @ [(bs, r)]\<rparr>))))"

definition outbuf_cb_step :: "'q platform \<Rightarrow> 'q world \<Rightarrow> mem_fault + 'q world" where
  "outbuf_cb_step m w =
     (case virtio_custdev_outbuf_cb (vq m) (txq w) (kheap w) of
        Inl f \<Rightarrow> Inl f
      | Inr (q, h) \<Rightarrow> Inr (w\<lparr>txq := q, kheap := h\<rparr>))"

definition inbuf_cb_step :: "'q platform \<Rightarrow> 'q world \<Rightarrow> mem_fault + 'q world" where
  "inbuf_cb_step m w =
     (case virtio_custdev_inbuf_cb (vq m) (drv w) (rxq w) of
        (d, q) \<Rightarrow> Inr (w\<lparr>drv := d, rxq := q\<rparr>))"

definition handle_tx_step :: "'q platform \<Rightarrow> 'q world \<Rightarrow> mem_fault + 'q world" where
  "handle_tx_step m w =
     (case virtio_custdev_handle_outbuf (vq m) (io m) (vm_running (dev w)) (malloc m (hheap w))
             (dev w) (txq w) (kheap w) (hheap w) of
        Inl f \<Rightarrow> Inl f
      | Inr (d, q, h) \<Rightarrow> Inr (w\<lparr>dev := d, txq := q, hheap := h\<rparr>))"

definition handle_rx_step :: "'q platform \<Rightarrow> 'q world \<Rightarrow> mem_fault + 'q world" where
  "handle_rx_step m w =
     (case virtio_custdev_handle_inbuf (vq m) (io m) (vm_running (dev w))
             (dev w) (rxq w) (kheap w) (hheap w) of
        Inl f \<Rightarrow> Inl f
      | Inr (d, q, g, h) \<Rightarrow> Inr (w\<lparr>dev := d, rxq := q, kheap := g, hheap := h\<rparr>))"

fun vstep :: "'q platform \<Rightarrow> vevent \<Rightarrow> 'q world \<Rightarrow> mem_fault + 'q world" where
  "vstep m (Write data res) w = write_step m data res w"
| "vstep m (Read count) w = read_step m count w"
| "vstep m (Read_resume res) w = resume_step res w"
| "vstep m Outbuf_cb w = outbuf_cb_step m w"
| "vstep m Inbuf_cb w = inbuf_cb_step m w"
| "vstep m Handle_tx w = handle_tx_step m w"
| "vstep m Handle_rx w = handle_rx_step m w"

fun vrun :: "'q platform \<Rightarrow> vevent list \<Rightarrow> 'q world \<Rightarrow> mem_fault + 'q world" where
  "vrun m [] w = Inr w"
| "vrun m (e # es) w = (case vstep m e w of Inl f \<Rightarrow> Inl f | Inr w' \<Rightarrow> vrun m es w')"

text \<open>A write and a read that the device and the callbacks serve at once, with everything copied.\<close>

definition served_write :: "u8 list \<Rightarrow> vevent list" where
  "served_write data = [Write data 0, Handle_tx, Outbuf_cb]"

definition served_read :: "nat \<Rightarrow> vevent list" where
  "served_read count = [Read count, Handle_rx, Inbuf_cb, Read_resume 0]"

section \<open>Quiet states\<close>

text \<open>Memory allocation on a finite heap gives a fresh block of the size asked for.\<close>

definition alloc_laws :: "'q platform \<Rightarrow> bool" where
  "alloc_laws m \<longleftrightarrow>
     (\<forall>h. finite (dom h) \<longrightarrow> (\<exists>p. kalloc m h = Some p \<and> h p = None)) \<and>
     (\<forall>h n. finite (dom h) \<longrightarrow>
        (\<exists>p junk. malloc m h n = Some (p, junk) \<and> length junk = n \<and> h p = None))"

definition quiet_queue :: "'q platform \<Rightarrow> 'q vq_view \<Rightarrow> 'q \<Rightarrow> bool" where
  "quiet_queue m v q \<longleftrightarrow> avail v q = [] \<and> used v q = [] \<and> 0 < room v q \<and> vq_ready (vq m) q"

definition contents :: "'q world \<Rightarrow> u8 list list" where
  "contents w = stored (dev w) (hheap w)"

text \<open>
  Nothing in flight, and the two sides agree: as many lengths in the driver as blocks in the
  device, each the length of its block.
\<close>

definition quiet :: "'q platform \<Rightarrow> 'q vq_view \<Rightarrow> 'q world \<Rightarrow> bool" where
  "quiet m v w \<longleftrightarrow>
     quiet_queue m v (txq w) \<and> quiet_queue m v (rxq w) \<and> vm_running (dev w) \<and>
     drv_ok (drv w) \<and> dev_ok (dev w) (hheap w) \<and>
     stack_items len_count len_slot (drv w) = map (of_nat \<circ> length) (contents w) \<and>
     (\<forall>bs \<in> set (contents w). length bs < 4294967296) \<and>
     finite (dom (kheap w)) \<and> finite (dom (hheap w)) \<and>
     data_ready (drv w) = 0 \<and> readers w = []"

lemma quiet_count: "quiet m v w \<Longrightarrow> len_count (drv w) = buf_count (dev w)"
  by (metis contents_def length_map length_stack_items quiet_def stored_length)

lemma vrun_append: "vrun m (xs @ ys) w = (case vrun m xs w of Inl f \<Rightarrow> Inl f | Inr w' \<Rightarrow> vrun m ys w')"
  by (induction xs arbitrary: w) (auto split: sum.splits)

section \<open>A served write\<close>

lemma write_step_posts:
  assumes laws: "vq_laws (vq m) v" "alloc_laws m" and q: "quiet m v w"
    and room: "len_count (drv w) < VIRTIO_CUSTDEV_BUFFERS"
  obtains p q where "kheap w p = None"
    and "write_step m data 0 w = Inr (w\<lparr>drv := push_len (of_nat (length data)) (drv w), txq := q,
           kheap := (kheap w)(p \<mapsto> data), wrote := wrote w @ [int (length data)]\<rparr>)"
    and "avail v q = [\<lparr>vqe_token = p, out_sg = [(p, length data)], in_sg = []\<rparr>]"
    and "used v q = []" and "vq_ready (vq m) q"
proof -
  obtain p where p: "kalloc m (kheap w) = Some p" "kheap w p = None"
    using laws(2) q by (auto simp: alloc_laws_def quiet_def)
  have tx: "quiet_queue m v (txq w)" using q by (simp add: quiet_def)
  let ?e = "\<lparr>vqe_token = p, out_sg = [(p, length data)], in_sg = []\<rparr>"
  let ?q = "vq_kick (vq m) (fst (vq_add (vq m) (txq w) ?e))"
  have "\<not> of_nat VIRTIO_CUSTDEV_BUFFERS \<le> buffers (drv w)"
    using room by (simp add: below_cap_iff len_count_def)
  then have "write_step m data 0 w = Inr (w\<lparr>drv := push_len (of_nat (length data)) (drv w), txq := ?q,
      kheap := (kheap w)(p \<mapsto> data), wrote := wrote w @ [int (length data)]\<rparr>)"
    using p(1) by (simp add: write_step_def virtio_custdev_write_def Let_def)
  moreover have "avail v ?q = [?e]" "used v ?q = []" "vq_ready (vq m) ?q"
    using tx vq_add_law [OF laws(1), of "txq w" ?e] vq_signal_law [OF laws(1)]
    by (auto simp: quiet_queue_def)
  ultimately show thesis using p(2) that by blast
qed

lemma outbuf_cb_frees:
  assumes "vq_laws (vq m) v" and "used v (txq w) = [(p, 0)]" and "kheap w p \<noteq> None"
  obtains q where "outbuf_cb_step m w = Inr (w\<lparr>txq := q, kheap := (kheap w)(p := None)\<rparr>)"
    and "avail v q = avail v (txq w)" and "used v q = []" and "0 < room v q"
    and "vq_ready (vq m) q = vq_ready (vq m) (txq w)"
proof -
  obtain q where g: "vq_get_buf (vq m) (txq w) = (q, Some (p, 0))" "used v q = []"
      "avail v q = avail v (txq w)" "room v q = room v (txq w) + 1"
      "vq_ready (vq m) q = vq_ready (vq m) (txq w)"
    using vq_get_buf_law [OF assms(1,2)] by (cases "vq_get_buf (vq m) (txq w)") auto
  then show thesis using assms(3)
    by (intro that [of q]) (auto simp: outbuf_cb_step_def virtio_custdev_outbuf_cb_def heap_free_def)
qed

lemma served_write_run:
  assumes laws: "vq_laws (vq m) v" "iov_laws (io m)" "alloc_laws m" and q: "quiet m v w"
    and room: "len_count (drv w) < VIRTIO_CUSTDEV_BUFFERS" and small: "length data < 4294967296"
  obtains w' where "vrun m (served_write data) w = Inr w'" and "quiet m v w'"
    and "contents w' = contents w @ [data]" and "wrote w' = wrote w @ [int (length data)]"
    and "got w' = got w"
proof -
  obtain p q1 where fresh: "kheap w p = None"
    and step1: "write_step m data 0 w = Inr (w\<lparr>drv := push_len (of_nat (length data)) (drv w), txq := q1,
           kheap := (kheap w)(p \<mapsto> data), wrote := wrote w @ [int (length data)]\<rparr>)"
    and q1: "avail v q1 = [\<lparr>vqe_token = p, out_sg = [(p, length data)], in_sg = []\<rparr>]"
      "used v q1 = []" "vq_ready (vq m) q1"
    using write_step_posts [OF laws(1,3) q room] .
  obtain hp junk where hp: "malloc m (hheap w) (length data) = Some (hp, junk)"
      "length junk = length data" "hheap w hp = None"
    using laws(3) q unfolding alloc_laws_def quiet_def by blast
  have cap: "buf_count (dev w) < DEVICE_BUFFERS"
    using room quiet_count [OF q] by (simp add: DEVICE_BUFFERS_def VIRTIO_CUSTDEV_BUFFERS_def)
  have ok: "dev_ok (dev w) (hheap w)" "vm_running (dev w)" using q by (simp_all add: quiet_def)
  let ?w1 = "w\<lparr>drv := push_len (of_nat (length data)) (drv w), txq := q1,
           kheap := (kheap w)(p \<mapsto> data), wrote := wrote w @ [int (length data)]\<rparr>"
  obtain q2 where step2: "virtio_custdev_handle_outbuf (vq m) (io m) True (malloc m (hheap w)) (dev w) q1
        ((kheap w)(p \<mapsto> data)) (hheap w) = Inr (push_buf hp (dev w), q2, (hheap w)(hp \<mapsto> data))"
      and q2: "avail v q2 = []" "used v q2 = [(p, 0)]" "vq_ready (vq m) q2"
    using handle_outbuf_stores [OF laws(1,2) ok(1) cap q1(3) q1(1), of p "length data"
        "(kheap w)(p \<mapsto> data)" data "malloc m (hheap w)" hp junk] hp q1(2)
    by auto
  let ?w2 = "?w1\<lparr>dev := push_buf hp (dev w), txq := q2, hheap := (hheap w)(hp \<mapsto> data)\<rparr>"
  obtain q3 where step3: "outbuf_cb_step m ?w2 = Inr (?w2\<lparr>txq := q3, kheap := (kheap ?w2)(p := None)\<rparr>)"
      and q3: "avail v q3 = []" "used v q3 = []" "0 < room v q3" "vq_ready (vq m) q3"
    using outbuf_cb_frees [OF laws(1), of ?w2 p] q2 by auto
  let ?w3 = "?w2\<lparr>txq := q3, kheap := (kheap ?w2)(p := None)\<rparr>"
  have run: "vrun m (served_write data) w = Inr ?w3"
    using step1 step2 step3 ok(2) by (simp add: served_write_def handle_tx_step_def)
  note st = push_buf_stores [OF ok(1) cap hp(3), of data]
  have d: "drv_ok (drv w)" using q by (simp add: quiet_def)
  have cont: "contents ?w3 = contents w @ [data]" using st(2) by (simp add: contents_def)
  have "quiet m v ?w3"
    using q st(1) q3 small drv_lens.ok_push [OF d room] drv_lens.items_push [OF d room] fresh cont
    by (simp add: quiet_def quiet_queue_def) (simp add: push_buf_def push_len_def)
  with run cont show thesis by (intro that [of ?w3]) simp_all
qed

section \<open>A served read\<close>

lemma stack_items_last: "0 < count s \<Longrightarrow> last (stack_items count slot s) = slot s (count s - 1)"
  by (cases "count s") (simp_all add: stack_items_def)

text \<open>The driver's top length is the length of the device's top block.\<close>

lemma quiet_top:
  assumes "quiet m v w" and "contents w \<noteq> []"
  shows "0 < len_count (drv w)" "0 < buf_count (dev w)"
    "unat (buf_lens (drv w) ! (len_count (drv w) - 1)) = length (last (contents w))"
proof -
  have items: "stack_items len_count len_slot (drv w) = map (of_nat \<circ> length) (contents w)"
    using assms(1) by (simp add: quiet_def)
  show pos: "0 < len_count (drv w)"
    using quiet_count [OF assms(1)] assms(2) stored_length [of "dev w" "hheap w"]
    by (metis contents_def length_greater_0_conv)
  then show "0 < buf_count (dev w)" using quiet_count [OF assms(1)] by simp
  have "buf_lens (drv w) ! (len_count (drv w) - 1) = of_nat (length (last (contents w)))"
    using stack_items_last [of len_count "drv w" len_slot] pos items assms(2)
    by (simp add: last_map len_slot_def)
  moreover have "length (last (contents w)) < 4294967296"
    using assms by (simp add: quiet_def)
  ultimately show "unat (buf_lens (drv w) ! (len_count (drv w) - 1)) = length (last (contents w))"
    by (simp add: unat_of_nat_u32)
qed

lemma read_step_posts:
  assumes laws: "vq_laws (vq m) v" "alloc_laws m" and q: "quiet m v w" and ne: "contents w \<noteq> []"
  defines "n \<equiv> length (last (contents w))"
  obtains p q where "kheap w p = None"
    and "read_step m count w = Inr (w\<lparr>rxq := q, kheap := (kheap w)(p \<mapsto> replicate n 0), readers := [p]\<rparr>)"
    and "avail v q = [\<lparr>vqe_token = p, out_sg = [], in_sg = [(p, n)]\<rparr>]"
    and "used v q = []" and "vq_ready (vq m) q"
proof -
  obtain p where p: "kalloc m (kheap w) = Some p" "kheap w p = None"
    using laws(2) q by (auto simp: alloc_laws_def quiet_def)
  have rx: "quiet_queue m v (rxq w)" using q by (simp add: quiet_def)
  let ?e = "\<lparr>vqe_token = p, out_sg = [], in_sg = [(p, n)]\<rparr>"
  let ?q = "vq_kick (vq m) (fst (vq_add (vq m) (rxq w) ?e))"
  note top = quiet_top [OF q ne]
  have i: "unat (buffers (drv w) - 1) = len_count (drv w) - 1"
    using top(1) by (simp add: len_count_def unat_pred_pos)
  have "\<not> buffers (drv w) < 1"
    using top(1) by (simp add: len_count_def word_less_nat_alt)
  moreover have "len_count (drv w) - 1 < length (buf_lens (drv w))"
    using q top(1) by (auto simp: quiet_def drv_ok_def len_count_def)
  ultimately have "read_step m count w =
      Inr (w\<lparr>rxq := ?q, kheap := (kheap w)(p \<mapsto> replicate n 0), readers := [p]\<rparr>)"
    using p(1) q top(3)
    by (simp add: read_step_def virtio_custdev_read_start_def Let_def i n_def quiet_def)
  moreover have "avail v ?q = [?e]" "used v ?q = []" "vq_ready (vq m) ?q"
    using rx vq_add_law [OF laws(1), of "rxq w" ?e] vq_signal_law [OF laws(1)]
    by (auto simp: quiet_queue_def)
  ultimately show thesis using p(2) that by blast
qed

lemma inbuf_cb_completes:
  assumes "vq_laws (vq m) v" and "used v (rxq w) = [(p, n)]"
  obtains q where "inbuf_cb_step m w = Inr (w\<lparr>rxq := q,
      drv := (pop_len (drv w))\<lparr>read_data := Some p, data_ready := data_ready (drv w) + 1\<rparr>\<rparr>)"
    and "avail v q = avail v (rxq w)" and "used v q = []" and "0 < room v q"
    and "vq_ready (vq m) q = vq_ready (vq m) (rxq w)"
proof -
  obtain q where g: "vq_get_buf (vq m) (rxq w) = (q, Some (p, n))" "used v q = []"
      "avail v q = avail v (rxq w)" "room v q = room v (rxq w) + 1"
      "vq_ready (vq m) q = vq_ready (vq m) (rxq w)"
    using vq_get_buf_law [OF assms] by (cases "vq_get_buf (vq m) (rxq w)") auto
  then show thesis
    by (intro that [of q]) (auto simp: inbuf_cb_step_def virtio_custdev_inbuf_cb_def pop_len_def Let_def)
qed

text \<open>Resuming the only reader once its buffer is filled and the counter has been lowered.\<close>

lemma resume_delivers:
  assumes "readers w = [p]" "data_ready (drv w) = 1" "read_data (drv w) = Some p"
    "kheap w p = Some bs" "unat (buffers (drv w)) < length (buf_lens (drv w))"
    "unat (buf_lens (drv w) ! unat (buffers (drv w))) = length bs"
  shows "resume_step 0 w = Inr (w\<lparr>drv := (drv w)\<lparr>data_ready := 0\<rparr>, kheap := (kheap w)(p := None),
      readers := [], got := got w @ [(bs, int (length bs))]\<rparr>)"
proof -
  have "uint (buf_lens (drv w) ! unat (buffers (drv w))) = int (length bs)"
    using assms(6) by (metis uint_nat)
  with assms show ?thesis
    by (simp add: resume_step_def wait_for_completion_def virtio_custdev_read_finish_def heap_free_def
        Let_def)
qed

lemma served_read_run:
  assumes laws: "vq_laws (vq m) v" "iov_laws (io m)" "alloc_laws m" and q: "quiet m v w"
    and ne: "contents w \<noteq> []"
  obtains w' where "vrun m (served_read count) w = Inr w'" and "quiet m v w'"
    and "contents w' = butlast (contents w)"
    and "got w' = got w @ [(last (contents w), int (length (last (contents w))))]"
    and "wrote w' = wrote w"
proof -
  let ?x = "last (contents w)" and ?d = "drv w"
  obtain p q1 where fresh: "kheap w p = None"
    and step1: "read_step m count w =
        Inr (w\<lparr>rxq := q1, kheap := (kheap w)(p \<mapsto> replicate (length ?x) 0), readers := [p]\<rparr>)"
    and q1: "avail v q1 = [\<lparr>vqe_token = p, out_sg = [], in_sg = [(p, length ?x)]\<rparr>]"
      "used v q1 = []" "vq_ready (vq m) q1"
    using read_step_posts [OF laws(1,3) q ne] .
  define k1 where "k1 = (kheap w)(p \<mapsto> replicate (length ?x) 0)"
  have k1p: "k1 p = Some (replicate (length ?x) 0)" by (simp add: k1_def)
  let ?w1 = "w\<lparr>rxq := q1, kheap := k1, readers := [p]\<rparr>"
  note top = quiet_top [OF q ne]
  have ok: "dev_ok (dev w) (hheap w)" "vm_running (dev w)" "drv_ok ?d" "data_ready ?d = 0"
    using q by (simp_all add: quiet_def)
  let ?hp = "buf_slot (dev w) (buf_count (dev w) - 1)"
  have x: "last (stored (dev w) (hheap w)) = ?x" by (simp add: contents_def)
  obtain q2 where step2: "virtio_custdev_handle_inbuf (vq m) (io m) True (dev w) q1 k1 (hheap w) =
        Inr (pop_buf (dev w), q2, k1(p \<mapsto> ?x), (hheap w)(?hp := None))"
      and q2: "avail v q2 = []" "used v q2 = [(p, length ?x)]" "vq_ready (vq m) q2"
    using handle_inbuf_fetches [OF laws(1,2) ok(1) top(2) q1(3) q1(1), where g = p and
        n = "length ?x" and guest = k1 and bs = "replicate (length ?x) 0", unfolded x] q1(2) k1p
    by auto
  let ?w2 = "?w1\<lparr>dev := pop_buf (dev w), rxq := q2, kheap := k1(p \<mapsto> ?x),
      hheap := (hheap w)(?hp := None)\<rparr>"
  obtain q3 where step3: "inbuf_cb_step m ?w2 = Inr (?w2\<lparr>rxq := q3,
        drv := (pop_len ?d)\<lparr>read_data := Some p, data_ready := 1\<rparr>\<rparr>)"
      and q3: "avail v q3 = []" "used v q3 = []" "0 < room v q3" "vq_ready (vq m) q3"
    using inbuf_cb_completes [OF laws(1), of ?w2 p "length ?x"] q2 ok(4) by auto
  let ?w3 = "?w2\<lparr>rxq := q3, drv := (pop_len ?d)\<lparr>read_data := Some p, data_ready := 1\<rparr>\<rparr>"
  have cnt: "unat (buffers ?d - 1) = len_count ?d - 1"
    using top(1) by (simp add: len_count_def unat_pred_pos)
  have lt: "len_count ?d - 1 < length (buf_lens ?d)"
    using ok(3) top(1) by (auto simp: drv_ok_def len_count_def)
  let ?w4 = "?w3\<lparr>drv := (drv ?w3)\<lparr>data_ready := 0\<rparr>, kheap := (kheap ?w3)(p := None), readers := [],
      got := got w @ [(?x, int (length ?x))]\<rparr>"
  have step4: "resume_step 0 ?w3 = Inr ?w4"
    by (subst resume_delivers [where p = p and bs = ?x]) (use cnt lt top(3) in \<open>auto simp: pop_len_def\<close>)
  have run: "vrun m (served_read count) w = Inr ?w4"
    using step1 step2 step3 step4 ok(2) by (simp add: served_read_def handle_rx_step_def k1_def)
  note st = pop_buf_stores [OF ok(1) top(2)]
  have cont: "contents ?w4 = butlast (contents w)" using st(2) by (simp add: contents_def)
  have drv4: "drv_ok (drv ?w4) = drv_ok (pop_len ?d)"
    "stack_items len_count len_slot (drv ?w4) = stack_items len_count len_slot (pop_len ?d)"
    by (simp_all add: drv_ok_def stack_items_def len_count_def len_slot_def)
  have "quiet m v ?w4"
    using q st(1) q3 drv_lens.ok_pop [OF ok(3) top(1)] drv_lens.items_pop [OF ok(3) top(1)] fresh cont
      in_set_butlastD drv4
    by (simp add: quiet_def quiet_queue_def map_butlast k1_def) (auto simp: pop_buf_def in_set_butlastD)
  with run cont show thesis by (intro that [of ?w4]) simp_all
qed

section \<open>Sequences of served calls\<close>

lemma quiet_length: "quiet m v w \<Longrightarrow> length (contents w) = len_count (drv w)"
  by (simp add: contents_def quiet_count)

lemma served_writes_run:
  assumes laws: "vq_laws (vq m) v" "iov_laws (io m)" "alloc_laws m"
  shows "quiet m v w \<Longrightarrow> length (contents w) + length ds \<le> VIRTIO_CUSTDEV_BUFFERS \<Longrightarrow>
    \<forall>d \<in> set ds. length d < 4294967296 \<Longrightarrow>
    \<exists>w'. vrun m (concat (map served_write ds)) w = Inr w' \<and> quiet m v w' \<and>
         contents w' = contents w @ ds \<and> got w' = got w"
proof (induction ds arbitrary: w)
  case (Cons d ds)
  have "len_count (drv w) < VIRTIO_CUSTDEV_BUFFERS" "length d < 4294967296"
    using Cons.prems quiet_length [OF Cons.prems(1)] by simp_all
  then obtain w1 where w1: "vrun m (served_write d) w = Inr w1" "quiet m v w1"
      "contents w1 = contents w @ [d]" "got w1 = got w"
    using served_write_run [OF laws Cons.prems(1)] by metis
  with Cons.IH [OF w1(2)] Cons.prems show ?case by (auto simp: vrun_append)
qed simp

lemma served_reads_run:
  assumes laws: "vq_laws (vq m) v" "iov_laws (io m)" "alloc_laws m"
  shows "quiet m v w \<Longrightarrow> contents w = xs @ ds \<Longrightarrow>
    \<exists>w'. vrun m (concat (replicate (length ds) (served_read n))) w = Inr w' \<and> quiet m v w' \<and>
         contents w' = xs \<and> got w' = got w @ map (\<lambda>d. (d, int (length d))) (rev ds)"
proof (induction ds arbitrary: w rule: rev_induct)
  case (snoc d ds)
  then have "contents w \<noteq> []" by simp
  from served_read_run [OF laws snoc.prems(1) this]
  obtain w1 where w1: "vrun m (served_read n) w = Inr w1" "quiet m v w1"
      "contents w1 = butlast (contents w)"
      "got w1 = got w @ [(last (contents w), int (length (last (contents w))))]"
    by metis
  have "contents w1 = xs @ ds" using w1(3) snoc.prems(2) by (simp add: butlast_append)
  from snoc.IH [OF w1(2) this] w1 snoc.prems(2) show ?case by (auto simp: vrun_append)
qed simp

text \<open>A device that a guest has just found: nothing stored, both rings empty.\<close>

definition heap_top :: "heap \<Rightarrow> ptr" where
  "heap_top h = Suc (Max (insert 0 (dom h)))"

definition simple_platform :: "fifo platform" where
  "simple_platform = \<lparr>vq = fifo_ops, io = flat_iov, kalloc = (\<lambda>h. Some (heap_top h)),
     malloc = (\<lambda>h n. Some (heap_top h, replicate n 0))\<rparr>"

definition fresh_world :: "fifo world" where
  "fresh_world =
     \<lparr>drv = \<lparr>buffers = 0, buf_lens = replicate VIRTIO_CUSTDEV_BUFFERS 0, read_data = None,
             data_ready = 0, status = 0\<rparr>,
      dev = virtio_custdev_device_realize
              \<lparr>vdev_queues = [], dev_vq_rx = 0, dev_vq_tx = 0, rcv_bufs = replicate DEVICE_BUFFERS None,
               rcv_count = 0, vdev_status = 0, vm_running = True\<rparr>,
      txq = ([], [], 64), rxq = ([], [], 64), kheap = Map.empty, hheap = Map.empty,
      readers = [], wrote = [], got = []\<rparr>"

lemma heap_top_fresh: "finite (dom h) \<Longrightarrow> h (heap_top h) = None"
proof (rule ccontr)
  assume fin: "finite (dom h)" and "h (heap_top h) \<noteq> None"
  then have "heap_top h \<in> insert 0 (dom h)" by auto
  then have "heap_top h \<le> Max (insert 0 (dom h))" using fin by (intro Max_ge) auto
  then show False by (simp add: heap_top_def)
qed

lemma simple_platform_laws:
  "vq_laws (vq simple_platform) fifo_view" "iov_laws (io simple_platform)"
  "alloc_laws simple_platform"
  by (simp_all add: simple_platform_def fifo_laws flat_iov_laws alloc_laws_def heap_top_fresh)

lemma fresh_world_contents: "contents fresh_world = []"
  by (simp add: contents_def fresh_world_def stored_def stack_items_def buf_count_def
      virtio_custdev_device_realize_def virtio_add_queue_def)

lemma fresh_world_quiet: "quiet simple_platform fifo_view fresh_world"
  unfolding quiet_def fresh_world_contents
  by (simp add: fresh_world_def quiet_queue_def fifo_view_def simple_platform_def fifo_ops_def
      drv_ok_def dev_ok_def bufs_ok_def stack_items_def len_count_def buf_count_def
      VIRTIO_CUSTDEV_BUFFERS_def DEVICE_BUFFERS_def virtio_custdev_device_realize_def
      virtio_add_queue_def Let_def)

section \<open>Every interleaving\<close>

text \<open>
  The callback of the receive queue runs only when the ring holds a returned element, and the
  invariant speaks of writes that find a free descriptor.
\<close>

definition admissible :: "'q vq_view \<Rightarrow> vevent \<Rightarrow> 'q world \<Rightarrow> bool" where
  "admissible v e w =
     (case e of
        Write data res \<Rightarrow> 0 < room v (txq w) \<and> res \<le> length data
      | Inbuf_cb \<Rightarrow> used v (rxq w) \<noteq> []
      | _ \<Rightarrow> True)"

inductive reachable :: "'q platform \<Rightarrow> 'q vq_view \<Rightarrow> 'q world \<Rightarrow> 'q world \<Rightarrow> bool"
  for m :: "'q platform" and v :: "'q vq_view" and w0 :: "'q world"
where
  start: "reachable m v w0 w0"
| step: "reachable m v w0 w \<Longrightarrow> admissible v e w \<Longrightarrow> vstep m e w = Inr w' \<Longrightarrow> reachable m v w0 w'"

text \<open>
  The driver counts every buffer that is stored in the device, on its way to it, or fetched and
  not yet reported back; the requests on the rings have the segment their handler uses.
\<close>

definition winv :: "'q vq_view \<Rightarrow> 'q world \<Rightarrow> bool" where
  "winv v w \<longleftrightarrow> drv_ok (drv w) \<and> bufs_ok (dev w) \<and>
     len_count (drv w) = buf_count (dev w) + length (avail v (txq w)) + length (used v (rxq w)) \<and>
     (\<forall>e \<in> set (avail v (txq w)). out_sg e \<noteq> []) \<and>
     (\<forall>e \<in> set (avail v (rxq w)). in_sg e \<noteq> [])"

lemma write_step_winv:
  assumes laws: "vq_laws (vq m) v" and inv: "winv v w" and room: "0 < room v (txq w)"
    and step: "write_step m data res w = Inr w'"
  shows "winv v w'"
proof (cases "of_nat VIRTIO_CUSTDEV_BUFFERS \<le> buffers (drv w) \<or> kalloc m (kheap w) = None")
  case True
  then have "drv w' = drv w \<and> txq w' = txq w \<and> rxq w' = rxq w \<and> dev w' = dev w"
    using step by (cases "of_nat VIRTIO_CUSTDEV_BUFFERS \<le> buffers (drv w)")
      (auto simp: write_step_def virtio_custdev_write_def)
  with inv show ?thesis by (simp add: winv_def)
next
  case False
  then obtain p where p: "kalloc m (kheap w) = Some p" by auto
  have d: "drv_ok (drv w)" "len_count (drv w) < VIRTIO_CUSTDEV_BUFFERS"
    using inv False by (simp_all add: winv_def below_cap_iff len_count_def)
  let ?e = "\<lparr>vqe_token = p, out_sg = [(p, length data - res)], in_sg = []\<rparr>"
  let ?d = "push_len (of_nat (length data - res)) (drv w)"
  have "drv w' = ?d" "txq w' = vq_kick (vq m) (fst (vq_add (vq m) (txq w) ?e))"
      "rxq w' = rxq w" "dev w' = dev w"
    using step p False by (auto simp: write_step_def virtio_custdev_write_def Let_def)
  then show ?thesis
    using inv drv_lens.ok_push [OF d] drv_lens.count_push [OF d] vq_add_law [OF laws room, of ?e]
      vq_signal_law [OF laws]
    by (auto simp: winv_def)
qed

lemma add_kick_frame:
  assumes "vq_laws q v"
  shows "used v (vq_kick q (fst (vq_add q s e))) = used v s"
    "set (avail v (vq_kick q (fst (vq_add q s e)))) \<subseteq> insert e (set (avail v s))"
  using assms vq_add_law [OF assms, of s e] vq_add_full_law [OF assms, of s e] vq_signal_law [OF assms]
  by (cases "room v s"; auto)+

lemma read_step_winv:
  assumes laws: "vq_laws (vq m) v" and inv: "winv v w" and step: "read_step m n w = Inr w'"
  shows "winv v w'"
proof -
  have same: "drv w' = drv w" "dev w' = dev w" "txq w' = txq w"
    using step by (auto simp: read_step_def split: sum.splits prod.splits read_result.splits)
  have "rxq w' = rxq w \<or> (\<exists>p k. rxq w' =
      vq_kick (vq m) (fst (vq_add (vq m) (rxq w) \<lparr>vqe_token = p, out_sg = [], in_sg = [(p, k)]\<rparr>)))"
    using step by (force simp: read_step_def virtio_custdev_read_start_def Let_def
        split: if_splits option.splits)
  then show ?thesis
  proof (elim disjE exE)
    fix p k
    let ?e = "\<lparr>vqe_token = p, out_sg = [], in_sg = [(p, k)]\<rparr>"
    assume "rxq w' = vq_kick (vq m) (fst (vq_add (vq m) (rxq w) ?e))"
    with inv same add_kick_frame [OF laws, of "rxq w" ?e] show ?thesis by (auto simp: winv_def)
  qed (use inv same in \<open>simp add: winv_def\<close>)
qed

lemma resume_step_winv:
  assumes "winv v w" and "resume_step res w = Inr w'"
  shows "winv v w'"
  using assms
  by (auto simp: resume_step_def wait_for_completion_def virtio_custdev_read_finish_def heap_free_def
      winv_def drv_ok_def len_count_def Let_def split: list.splits if_splits option.splits)

lemma outbuf_cb_step_winv:
  assumes laws: "vq_laws (vq m) v" and inv: "winv v w" and step: "outbuf_cb_step m w = Inr w'"
  shows "winv v w'"
proof -
  have "drv w' = drv w" "dev w' = dev w" "rxq w' = rxq w" "txq w' = fst (vq_get_buf (vq m) (txq w))"
    using step by (auto simp: outbuf_cb_step_def virtio_custdev_outbuf_cb_def
        split: sum.splits prod.splits option.splits)
  moreover have "avail v (fst (vq_get_buf (vq m) (txq w))) = avail v (txq w)"
    using vq_get_buf_law(3) [OF laws] vq_empty_law(2) [OF laws, of "txq w"]
    by (cases "used v (txq w)") auto
  ultimately show ?thesis using inv by (simp add: winv_def)
qed

lemma inbuf_cb_step_winv:
  assumes laws: "vq_laws (vq m) v" and inv: "winv v w" and ne: "used v (rxq w) \<noteq> []"
    and step: "inbuf_cb_step m w = Inr w'"
  shows "winv v w'"
proof -
  obtain u us where u: "used v (rxq w) = u # us" using ne by (cases "used v (rxq w)") auto
  have same: "dev w' = dev w" "txq w' = txq w" "rxq w' = fst (vq_get_buf (vq m) (rxq w))"
    "len_count (drv w') = len_count (pop_len (drv w))" "drv_ok (drv w') = drv_ok (pop_len (drv w))"
    using step by (auto simp: inbuf_cb_step_def virtio_custdev_inbuf_cb_def Let_def len_count_def
        drv_ok_def pop_len_def split: prod.splits)
  have d: "drv_ok (drv w)" "0 < len_count (drv w)" using inv u by (simp_all add: winv_def)
  show ?thesis
    using inv same u drv_lens.ok_pop [OF d] drv_lens.count_pop [OF d] vq_get_buf_law [OF laws u]
    by (simp add: winv_def)
qed

lemma handle_tx_step_winv:
  assumes laws: "vq_laws (vq m) v" and inv: "winv v w" and step: "handle_tx_step m w = Inr w'"
  shows "winv v w'"
proof (cases "w' = w")
  case False
  then obtain q1 e p where pop: "vq_pop (vq m) (txq w) = (q1, Some e)"
    and room: "unat (rcv_count (dev w)) < length (rcv_bufs (dev w))"
    and w': "drv w' = drv w" "rxq w' = rxq w" "dev w' = push_buf p (dev w)"
      "txq w' = vq_notify (vq m) (vq_push (vq m) q1 e 0)"
    using step by (auto simp: handle_tx_step_def virtio_custdev_handle_outbuf_def Let_def
        split: if_splits option.splits list.splits prod.splits)
  obtain es where av: "avail v (txq w) = e # es"
    using pop vq_empty_law(1) [OF laws, of "txq w"] vq_pop_law(1) [OF laws, of "txq w"]
    by (cases "avail v (txq w)") auto
  have b: "bufs_ok (dev w)" "buf_count (dev w) < DEVICE_BUFFERS"
    using inv room by (simp_all add: winv_def bufs_ok_def buf_count_def)
  show ?thesis
    using inv w' av pop vq_pop_law [OF laws av] vq_push_law [OF laws] vq_signal_law [OF laws]
      dev_bufs.ok_push [OF b] dev_bufs.count_push [OF b]
    by (simp add: winv_def)
qed (use inv in simp)

lemma handle_rx_step_winv:
  assumes laws: "vq_laws (vq m) v" and inv: "winv v w" and step: "handle_rx_step m w = Inr w'"
  shows "winv v w'"
proof (cases "w' = w")
  case False
  then obtain q1 e n where pop: "vq_pop (vq m) (rxq w) = (q1, Some e)"
    and room: "unat (rcv_count (dev w) - 1) < length (rcv_bufs (dev w))"
    and w': "drv w' = drv w" "txq w' = txq w" "dev w' = pop_buf (dev w)"
      "rxq w' = vq_notify (vq m) (vq_push (vq m) q1 e n)"
    using step by (auto simp: handle_rx_step_def virtio_custdev_handle_inbuf_def Let_def
        split: if_splits option.splits list.splits prod.splits)
  obtain es where av: "avail v (rxq w) = e # es"
    using pop vq_empty_law(1) [OF laws, of "rxq w"] vq_pop_law(1) [OF laws, of "rxq w"]
    by (cases "avail v (rxq w)") auto
  have "rcv_count (dev w) \<noteq> 0"
    using inv room empty_index_outside [of "dev w"] by (auto simp: winv_def)
  then have b: "bufs_ok (dev w)" "0 < buf_count (dev w)"
    using inv by (simp_all add: winv_def buf_count_def unat_gt_0)
  show ?thesis
    using inv w' av pop vq_pop_law [OF laws av] vq_push_law [OF laws] vq_signal_law [OF laws]
      dev_bufs.ok_pop [OF b] dev_bufs.count_pop [OF b] b(2)
    by (simp add: winv_def)
qed (use inv in simp)

lemma vstep_winv:
  assumes "vq_laws (vq m) v" "winv v w" "admissible v e w" "vstep m e w = Inr w'"
  shows "winv v w'"
  using assms
  by (cases e) (auto simp: admissible_def intro: write_step_winv read_step_winv resume_step_winv
      outbuf_cb_step_winv inbuf_cb_step_winv handle_tx_step_winv handle_rx_step_winv)

lemma reachable_winv:
  assumes "reachable m v w0 w" and "vq_laws (vq m) v" and "winv v w0"
  shows "winv v w"
  using assms by (induction rule: reachable.induct) (auto intro: vstep_winv)

lemma quiet_winv: "quiet m v w \<Longrightarrow> winv v w"
  by (simp add: winv_def quiet_count) (simp add: quiet_def quiet_queue_def dev_ok_def)

text \<open>With a request on the transmit queue the device's array has a free slot.\<close>

lemma winv_tx_safe:
  assumes laws: "vq_laws (vq m) v" and inv: "winv v w"
  shows "handle_tx_step m w \<notin> {Inl Index_out_of_bounds, Inl Missing_descriptor}"
proof (cases "avail v (txq w)")
  case Nil
  then show ?thesis using vq_empty_law(1) [OF laws]
    by (simp add: handle_tx_step_def virtio_custdev_handle_outbuf_def)
next
  case (Cons e es)
  then obtain q1 where pop: "vq_pop (vq m) (txq w) = (q1, Some e)"
    using vq_pop_law(1) [OF laws Cons] by (metis prod.collapse)
  obtain g n rest where sg: "out_sg e = (g, n) # rest"
    using inv Cons by (cases "out_sg e") (auto simp: winv_def)
  have "\<not> length (rcv_bufs (dev w)) \<le> unat (rcv_count (dev w))"
    using inv Cons by (simp add: winv_def drv_ok_def bufs_ok_def len_count_def buf_count_def
        VIRTIO_CUSTDEV_BUFFERS_def DEVICE_BUFFERS_def)
  then show ?thesis
    using pop sg by (simp add: handle_tx_step_def virtio_custdev_handle_outbuf_def Let_def
        split: option.splits prod.splits)
qed

section \<open>Properties\<close>

text \<open>
  From a quiet state, a write of a buffer that the device and the callback serve at once returns
  the number of bytes, leaves the system quiet, and the device holds the buffer as its newest.
\<close>

theorem served_write_stores:
  assumes "vq_laws (vq m) v" "iov_laws (io m)" "alloc_laws m" "quiet m v w"
    and "length (contents w) < VIRTIO_CUSTDEV_BUFFERS" "length data < 4294967296"
  shows "\<exists>w'. vrun m (served_write data) w = Inr w' \<and> quiet m v w' \<and>
    contents w' = contents w @ [data] \<and> wrote w' = wrote w @ [int (length data)]"
  using served_write_run [OF assms(1-4), of data] assms(5,6) quiet_length [OF assms(4)] by metis

theorem served_write_stores_witness:
  "\<exists>w'. vrun simple_platform (served_write [1, 2, 3]) fresh_world = Inr w' \<and>
    contents w' = [[1, 2, 3]] \<and> wrote w' = wrote fresh_world @ [3]"
  using served_write_stores [OF simple_platform_laws fresh_world_quiet, of "[1, 2, 3]"]
  by (auto simp: fresh_world_contents VIRTIO_CUSTDEV_BUFFERS_def)

text \<open>
  From a quiet state with something stored, a served read delivers exactly the newest buffer to
  the caller and returns its length, frees its receive buffer, and the system is quiet again with
  that buffer gone.
\<close>

theorem served_read_fetches:
  assumes "vq_laws (vq m) v" "iov_laws (io m)" "alloc_laws m" "quiet m v w"
    and "contents w = xs @ [data]"
  shows "\<exists>w'. vrun m (served_read count) w = Inr w' \<and> quiet m v w' \<and> contents w' = xs \<and>
    got w' = got w @ [(data, int (length data))]"
  using served_read_run [OF assms(1-4), of count] assms(5) by (metis butlast_snoc last_snoc snoc_eq_iff_butlast)

theorem served_read_fetches_witness:
  "\<exists>w w'. vrun simple_platform (served_write [5, 6]) fresh_world = Inr w \<and>
     vrun simple_platform (served_read 9) w = Inr w' \<and> contents w' = [] \<and>
     got w' = got w @ [([5, 6], 2)]"
proof -
  obtain w where w: "vrun simple_platform (served_write [5, 6]) fresh_world = Inr w"
      "quiet simple_platform fifo_view w" "contents w = [] @ [[5, 6]]"
    using served_writes_run [OF simple_platform_laws fresh_world_quiet, of "[[5, 6]]"]
    by (auto simp: fresh_world_contents VIRTIO_CUSTDEV_BUFFERS_def)
  then show ?thesis
    using served_read_fetches [OF simple_platform_laws w(2,3), of 9] by auto
qed



text \<open>
  C33: the order of the two queues matters: when a read's buffer request reaches the device before
  the write it should see, the device indexes its array outside its bounds.
\<close>

theorem read_overtakes_write:
  assumes "vq_laws (vq m) v" "alloc_laws m" "quiet m v w" "contents w = []"
  shows "vrun m [Write data 0, Read count, Handle_rx] w = Inl Index_out_of_bounds"
proof -
  have cnt: "len_count (drv w) = 0" "buf_count (dev w) = 0"
    using quiet_length [OF assms(3)] quiet_count [OF assms(3)] assms(4) by simp_all
  then have zero: "buffers (drv w) = 0" "rcv_count (dev w) = 0"
    by (simp_all add: len_count_def buf_count_def unat_eq_0)
  have ok: "drv_ok (drv w)" "bufs_ok (dev w)" "vm_running (dev w)" "quiet_queue m v (rxq w)"
    using assms(3) by (simp_all add: quiet_def dev_ok_def)
  have "len_count (drv w) < VIRTIO_CUSTDEV_BUFFERS"
    using cnt by (simp add: VIRTIO_CUSTDEV_BUFFERS_def)
  from write_step_posts [OF assms(1-3) this] obtain p q1 where
    step1: "write_step m data 0 w = Inr (w\<lparr>drv := push_len (of_nat (length data)) (drv w), txq := q1,
           kheap := (kheap w)(p \<mapsto> data), wrote := wrote w @ [int (length data)]\<rparr>)"
    by metis
  let ?w1 = "w\<lparr>drv := push_len (of_nat (length data)) (drv w), txq := q1,
           kheap := (kheap w)(p \<mapsto> data), wrote := wrote w @ [int (length data)]\<rparr>"
  have "finite (dom (kheap ?w1))" using assms(3) by (simp add: quiet_def)
  then obtain p2 where p2: "kalloc m (kheap ?w1) = Some p2"
    using assms(2) unfolding alloc_laws_def by blast
  let ?n = "unat (of_nat (length data) :: u32)"
  let ?e = "\<lparr>vqe_token = p2, out_sg = [], in_sg = [(p2, ?n)]\<rparr>"
  let ?q2 = "vq_kick (vq m) (fst (vq_add (vq m) (rxq w) ?e))"
  have step2: "read_step m count ?w1 = Inr (?w1\<lparr>rxq := ?q2,
      kheap := (kheap ?w1)(p2 \<mapsto> replicate ?n 0), readers := [p2]\<rparr>)"
    using p2 ok(1) zero(1) assms(3)
    by (simp add: read_step_def virtio_custdev_read_start_def push_len_def drv_ok_def Let_def
        VIRTIO_CUSTDEV_BUFFERS_def quiet_def)
  have "avail v ?q2 = [?e]" "vq_ready (vq m) ?q2"
    using ok(4) vq_add_law [OF assms(1), of "rxq w" ?e] vq_signal_law [OF assms(1)]
    by (auto simp: quiet_queue_def)
  then obtain q3 where "vq_pop (vq m) ?q2 = (q3, Some ?e)" "vq_ready (vq m) ?q2"
    using vq_pop_law(1) [OF assms(1)] by (metis prod.collapse)
  then have "virtio_custdev_handle_inbuf (vq m) (io m) True (dev w) ?q2 g (hheap w) =
      Inl Index_out_of_bounds" for g
    using inbuf_empty_device ok(2) zero(2) by (metis list.simps(3) vqe.select_convs(3))
  then show ?thesis using step1 step2 ok(3) by (simp add: handle_rx_step_def)
qed

theorem read_overtakes_write_witness:
  "vrun simple_platform [Write [1, 2] 0, Read 2, Handle_rx] fresh_world = Inl Index_out_of_bounds"
  by (rule read_overtakes_write [OF simple_platform_laws(1,3) fresh_world_quiet fresh_world_contents])



end
