(* ===== verification/Virtio_Liveness.thy ===== *)
theory Virtio_Liveness
  imports Virtio_System
begin

text \<open>
  What becomes of written buffers: a write returns before the device has seen its buffer, and the
  device's handler takes one buffer at each notification. Here any number of writes, handlers and
  callbacks are interleaved, with many buffers in flight, and it is shown that a fair schedule of the
  handler and the callback delivers them all, in order. No reads are pending, since a read that overtakes
  a write breaks the device (\<open>Virtio_System\<close>).
\<close>

section \<open>Schedules\<close>

text \<open>The handler runs when the queue has been kicked with something in it; otherwise its turn passes.\<close>

definition tick :: "'q platform \<Rightarrow> 'q vq_view \<Rightarrow> vevent \<Rightarrow> 'q world \<Rightarrow> mem_fault + 'q world" where
  "tick m v e w = (if e = Handle_tx \<and> avail v (txq w) = [] then Inr w else vstep m e w)"

primrec ticks :: "'q platform \<Rightarrow> 'q vq_view \<Rightarrow> (nat \<Rightarrow> vevent) \<Rightarrow> nat \<Rightarrow> 'q world \<Rightarrow> mem_fault + 'q world" where
  "ticks m v s 0 w = Inr w"
| "ticks m v s (Suc n) w = (case ticks m v s n w of Inl f \<Rightarrow> Inl f | Inr w' \<Rightarrow> tick m v (s n) w')"

text \<open>Handler and callback both get their turn again and again.\<close>

definition fair :: "(nat \<Rightarrow> vevent) \<Rightarrow> bool" where
  "fair s \<longleftrightarrow> (\<forall>n. s n \<in> {Handle_tx, Outbuf_cb}) \<and> (\<forall>n. \<exists>k \<ge> n. s k = Handle_tx) \<and> (\<forall>n. \<exists>k \<ge> n. s k = Outbuf_cb)"

text \<open>
  The states that any interleaving of writes with handlers and callbacks reaches, with the buffers
  written so far; a write finds a free descriptor and a free slot, and may not be able to copy its last
  bytes from the caller.
\<close>

inductive tx_reach :: "'q platform \<Rightarrow> 'q vq_view \<Rightarrow> 'q world \<Rightarrow> u8 list list \<Rightarrow> 'q world \<Rightarrow> bool"
  for m :: "'q platform" and v :: "'q vq_view" and w0 :: "'q world"
where
  start: "tx_reach m v w0 [] w0"
| post: "tx_reach m v w0 ds w \<Longrightarrow> 0 < room v (txq w) \<Longrightarrow> length (contents w0) + length ds < VIRTIO_CUSTDEV_BUFFERS \<Longrightarrow>
    length d < 4294967296 \<Longrightarrow> res \<le> length d \<Longrightarrow> vstep m (Write d res) w = Inr w' \<Longrightarrow>
    tx_reach m v w0 (ds @ [take (length d - res) d]) w'"
| serve: "tx_reach m v w0 ds w \<Longrightarrow> e \<in> {Handle_tx, Outbuf_cb} \<Longrightarrow> tick m v e w = Inr w' \<Longrightarrow> tx_reach m v w0 ds w'"

section \<open>The invariant\<close>

definition send_element :: "ptr \<Rightarrow> nat \<Rightarrow> vqe" where
  "send_element p n = \<lparr>vqe_token = p, out_sg = [(p, n)], in_sg = []\<rparr>"

definition sent :: "heap \<Rightarrow> vqe \<Rightarrow> u8 list" where
  "sent h e = take (snd (hd (out_sg e))) (the (h (vqe_token e)))"

definition in_flight :: "'q vq_view \<Rightarrow> 'q world \<Rightarrow> u8 list list" where
  "in_flight v w = map (sent (kheap w)) (avail v (txq w))"

text \<open>The blocks of the kernel that the queue holds: offered ones with their data, and returned ones.\<close>

definition queue_blocks :: "'q vq_view \<Rightarrow> 'q \<Rightarrow> heap \<Rightarrow> bool" where
  "queue_blocks v q h \<longleftrightarrow>
     (\<forall>e \<in> set (avail v q). \<exists>d n. h (vqe_token e) = Some d \<and> n \<le> length d \<and> e = send_element (vqe_token e) n) \<and>
     (\<forall>u \<in> set (used v q). h (fst u) \<noteq> None) \<and>
     distinct (map vqe_token (avail v q) @ map fst (used v q))"

lemma send_element_token [simp]: "vqe_token (send_element p n) = p" "sent h (send_element p n) = take n (the (h p))"
  by (simp_all add: send_element_def sent_def)

lemma sent_upd: "vqe_token e \<noteq> p \<Longrightarrow> sent (h(p := b)) e = sent h e"
  by (simp add: sent_def)

text \<open>A block more, a block handed back, a block less.\<close>

lemma queue_blocks_add:
  assumes "queue_blocks v q h" "h p = None" "avail v q' = avail v q @ [send_element p n]" "used v q' = used v q" "n \<le> length d"
  shows "queue_blocks v q' (h(p \<mapsto> d))" and "e \<in> set (avail v q) \<Longrightarrow> vqe_token e \<noteq> p"
proof -
  show fresh: "vqe_token e \<noteq> p" if "e \<in> set (avail v q)" for e
    using that assms(1,2) by (force simp: queue_blocks_def)
  have "fst u \<noteq> p" if "u \<in> set (used v q)" for u using that assms(1,2) by (force simp: queue_blocks_def)
  with fresh show "queue_blocks v q' (h(p \<mapsto> d))"
    using assms(1,5) by (auto simp: queue_blocks_def assms(3,4))
qed

lemma queue_blocks_return:
  assumes "queue_blocks v q h" "avail v q = e # es" "avail v q' = es" "used v q' = used v q @ [(vqe_token e, 0)]"
  shows "queue_blocks v q' h"
  using assms(1) by (auto simp: queue_blocks_def assms(2-4))

lemma queue_blocks_free:
  assumes "queue_blocks v q h" "used v q = u # us" "avail v q' = avail v q" "used v q' = us"
  shows "queue_blocks v q' (h(fst u := None))" and "e \<in> set (avail v q) \<Longrightarrow> vqe_token e \<noteq> fst u"
proof -
  have dist: "fst u \<notin> set (map vqe_token (avail v q))" "fst u \<notin> set (map fst us)"
    using assms(1,2) by (simp_all add: queue_blocks_def)
  then show other: "vqe_token e \<noteq> fst u" if "e \<in> set (avail v q)" for e using that by (metis image_eqI list.set_map)
  have "fst x \<noteq> fst u" if "x \<in> set us" for x using that dist(2) by (metis image_eqI list.set_map)
  with other show "queue_blocks v q' (h(fst u := None))"
    using assms(1) by (auto simp: queue_blocks_def assms(2-4))
qed

text \<open>
  Device and queue together hold exactly what was written, in order; the driver has the lengths, and
  no descriptor is lost.
\<close>

definition tx_inv :: "'q platform \<Rightarrow> 'q vq_view \<Rightarrow> nat \<Rightarrow> u8 list list \<Rightarrow> 'q world \<Rightarrow> bool" where
  "tx_inv m v ring log w \<longleftrightarrow>
     vq_ready (vq m) (txq w) \<and> quiet_queue m v (rxq w) \<and> vm_running (dev w) \<and>
     drv_ok (drv w) \<and> dev_ok (dev w) (hheap w) \<and> queue_blocks v (txq w) (kheap w) \<and>
     contents w @ in_flight v w = log \<and>
     stack_items len_count len_slot (drv w) = map (of_nat \<circ> length) log \<and>
     (\<forall>d \<in> set log. length d < 4294967296) \<and>
     finite (dom (kheap w)) \<and> finite (dom (hheap w)) \<and> data_ready (drv w) = 0 \<and> readers w = [] \<and>
     room v (txq w) + length (avail v (txq w)) + length (used v (txq w)) = ring"

lemma quiet_tx_inv: "quiet m v w \<Longrightarrow> tx_inv m v (room v (txq w)) (contents w) w"
  by (simp add: quiet_def tx_inv_def quiet_queue_def in_flight_def queue_blocks_def)

lemma tx_inv_quiet:
  assumes "tx_inv m v ring log w" "0 < ring" "avail v (txq w) = []" "used v (txq w) = []"
  shows "quiet m v w" "contents w = log"
  using assms by (simp_all add: quiet_def tx_inv_def quiet_queue_def in_flight_def)

lemma tx_inv_counts:
  assumes "tx_inv m v ring log w"
  shows "len_count (drv w) = length log" "buf_count (dev w) + length (avail v (txq w)) = length log"
    "length log \<le> VIRTIO_CUSTDEV_BUFFERS"
proof -
  have items: "stack_items len_count len_slot (drv w) = map (of_nat \<circ> length) log" and log: "contents w @ in_flight v w = log"
    and ok: "drv_ok (drv w)" using assms by (simp_all add: tx_inv_def)
  show n: "len_count (drv w) = length log" using arg_cong [OF items, of length] by simp
  show "buf_count (dev w) + length (avail v (txq w)) = length log"
    using arg_cong [OF log, of length] by (simp add: contents_def in_flight_def)
  show "length log \<le> VIRTIO_CUSTDEV_BUFFERS" using ok n by (simp add: drv_ok_def len_count_def)
qed

section \<open>The steps\<close>

lemma write_keeps:
  assumes laws: "vq_laws (vq m) v" "alloc_laws m" and inv: "tx_inv m v ring log w"
    and room: "0 < room v (txq w)" "length log < VIRTIO_CUSTDEV_BUFFERS" "length d < 4294967296"
    and res: "res \<le> length d"
  shows "\<exists>w'. write_step m d res w = Inr w' \<and> tx_inv m v ring (log @ [take (length d - res) d]) w' \<and>
    room v (txq w') = room v (txq w) - 1"
proof -
  obtain p where p: "kalloc m (kheap w) = Some p" "kheap w p = None"
    using laws(2) inv by (auto simp: alloc_laws_def tx_inv_def)
  have cap: "drv_ok (drv w)" "len_count (drv w) < VIRTIO_CUSTDEV_BUFFERS"
    using inv tx_inv_counts(1) [OF inv] room(2) by (simp_all add: tx_inv_def)
  let ?n = "length d - res"
  let ?b = "take ?n d @ replicate res 0"
  let ?e = "send_element p ?n"
  let ?q = "vq_kick (vq m) (fst (vq_add (vq m) (txq w) ?e))"
  let ?w = "w\<lparr>drv := push_len (of_nat ?n) (drv w), txq := ?q,
      kheap := (kheap w)(p \<mapsto> ?b), wrote := wrote w @ [int ?n]\<rparr>"
  have "\<not> of_nat VIRTIO_CUSTDEV_BUFFERS \<le> buffers (drv w)"
    using cap(2) by (simp add: below_cap_iff len_count_def)
  then have step: "write_step m d res w = Inr ?w"
    using p(1) by (simp add: write_step_def virtio_custdev_write_def Let_def send_element_def)
  have q: "avail v ?q = avail v (txq w) @ [?e]" "used v ?q = used v (txq w)" "room v ?q = room v (txq w) - 1"
    "vq_ready (vq m) ?q = vq_ready (vq m) (txq w)"
    using vq_add_law [OF laws(1) room(1), of ?e] vq_signal_law [OF laws(1)] by simp_all
  have blocks: "queue_blocks v (txq w) (kheap w)" using inv by (simp add: tx_inv_def)
  have "?n \<le> length ?b" by simp
  note add = queue_blocks_add [OF blocks p(2) q(1,2) this]
  have "in_flight v ?w = in_flight v w @ [take ?n d]"
    using add(2) by (simp add: in_flight_def q sent_upd)
  then have "tx_inv m v ring (log @ [take ?n d]) ?w"
    using inv q room add(1) drv_lens.ok_push [OF cap] drv_lens.items_push [OF cap]
    by (simp add: tx_inv_def contents_def) (simp add: push_len_def)
  with step q(3) show ?thesis by (intro exI [of _ ?w]) simp
qed

lemma handle_keeps:
  assumes laws: "vq_laws (vq m) v" "iov_laws (io m)" "alloc_laws m" and inv: "tx_inv m v ring log w"
    and av: "avail v (txq w) = e # es"
  shows "\<exists>w'. handle_tx_step m w = Inr w' \<and> tx_inv m v ring log w' \<and> avail v (txq w') = es \<and>
    length (used v (txq w')) = Suc (length (used v (txq w)))"
proof -
  obtain d n where d: "kheap w (vqe_token e) = Some d" "e = send_element (vqe_token e) n" "n \<le> length d"
    using inv av by (auto simp: tx_inv_def queue_blocks_def)
  obtain hp junk where hp: "malloc m (hheap w) n = Some (hp, junk)" "length junk = n" "hheap w hp = None"
    using laws(3) inv unfolding alloc_laws_def tx_inv_def by blast
  have ok: "dev_ok (dev w) (hheap w)" "vm_running (dev w)" "vq_ready (vq m) (txq w)" using inv by (simp_all add: tx_inv_def)
  have cap: "buf_count (dev w) < DEVICE_BUFFERS"
    using tx_inv_counts [OF inv] av by (simp add: DEVICE_BUFFERS_def VIRTIO_CUSTDEV_BUFFERS_def)
  have sg: "out_sg e = [(vqe_token e, n)]" by (subst d(2)) (simp add: send_element_def)
  obtain q' where h: "virtio_custdev_handle_outbuf (vq m) (io m) True (malloc m (hheap w)) (dev w) (txq w) (kheap w) (hheap w) =
        Inr (push_buf hp (dev w), q', (hheap w)(hp \<mapsto> take n d))"
    and q': "avail v q' = es" "used v q' = used v (txq w) @ [(vqe_token e, 0)]" "room v q' = room v (txq w)" "vq_ready (vq m) q'"
    using handle_outbuf_stores [OF laws(1,2) ok(1) cap ok(3) av sg, where guest = "kheap w" and malloc = "malloc m (hheap w)"]
      d(1,3) hp by blast
  let ?w = "w\<lparr>dev := push_buf hp (dev w), txq := q', hheap := (hheap w)(hp \<mapsto> take n d)\<rparr>"
  have step: "handle_tx_step m w = Inr ?w" using h ok(2) by (simp add: handle_tx_step_def)
  note st = push_buf_stores [OF ok(1) cap hp(3), of "take n d"]
  have "sent (kheap w) e = take n d" by (subst d(2)) (simp add: d(1))
  then have "in_flight v w = take n d # in_flight v ?w" by (simp add: in_flight_def av q')
  moreover have "contents ?w = contents w @ [take n d]" using st(2) by (simp add: contents_def)
  moreover have "queue_blocks v q' (kheap w)"
    using inv queue_blocks_return [OF _ av q'(1,2)] by (simp add: tx_inv_def)
  ultimately have "tx_inv m v ring log ?w"
    using inv st(1) av q' by (simp add: tx_inv_def) (simp add: push_buf_def)
  with step q' show ?thesis by (intro exI [of _ ?w]) simp
qed

lemma callback_keeps:
  assumes laws: "vq_laws (vq m) v" and inv: "tx_inv m v ring log w" and us: "used v (txq w) = u # us"
  shows "\<exists>w'. outbuf_cb_step m w = Inr w' \<and> tx_inv m v ring log w' \<and>
    avail v (txq w') = avail v (txq w) \<and> used v (txq w') = us"
proof -
  obtain q where g: "vq_get_buf (vq m) (txq w) = (q, Some u)" "used v q = us" "avail v q = avail v (txq w)"
      "room v q = room v (txq w) + 1" "vq_ready (vq m) q = vq_ready (vq m) (txq w)"
    using vq_get_buf_law [OF laws us] by (cases "vq_get_buf (vq m) (txq w)") auto
  have blocks: "queue_blocks v (txq w) (kheap w)" using inv by (simp add: tx_inv_def)
  then have live: "kheap w (fst u) \<noteq> None" using us by (simp add: queue_blocks_def)
  let ?w = "w\<lparr>txq := q, kheap := (kheap w)(fst u := None)\<rparr>"
  have step: "outbuf_cb_step m w = Inr ?w"
    using g(1) live by (cases u) (simp add: outbuf_cb_step_def virtio_custdev_outbuf_cb_def heap_free_def)
  note free = queue_blocks_free [OF blocks us g(3,2)]
  have "in_flight v ?w = in_flight v w" using free(2) by (simp add: in_flight_def g sent_upd)
  with free(1) have "tx_inv m v ring log ?w"
    using inv us g by (simp add: tx_inv_def contents_def)
  with step g show ?thesis by (intro exI [of _ ?w]) simp
qed

section \<open>Progress\<close>

definition pending :: "'q vq_view \<Rightarrow> 'q world \<Rightarrow> nat" where
  "pending v w = 2 * length (avail v (txq w)) + length (used v (txq w))"

text \<open>The events that have something to do.\<close>

definition due :: "'q vq_view \<Rightarrow> vevent \<Rightarrow> 'q world \<Rightarrow> bool" where
  "due v e w \<longleftrightarrow> e = Handle_tx \<and> avail v (txq w) \<noteq> [] \<or> e = Outbuf_cb \<and> used v (txq w) \<noteq> []"

lemma tick_keeps:
  assumes laws: "vq_laws (vq m) v" "iov_laws (io m)" "alloc_laws m" and inv: "tx_inv m v ring log w"
    and e: "e \<in> {Handle_tx, Outbuf_cb}"
  obtains w' where "tick m v e w = Inr w'" "tx_inv m v ring log w'"
    and "due v e w \<Longrightarrow> pending v w' < pending v w" and "\<not> due v e w \<Longrightarrow> w' = w"
proof (cases "due v e w")
  case False
  have "outbuf_cb_step m w = Inr w" if "used v (txq w) = []"
    using vq_empty_law(2) [OF laws(1) that] by (simp add: outbuf_cb_step_def virtio_custdev_outbuf_cb_def)
  then show thesis using False e inv by (intro that [of w]) (auto simp: tick_def due_def)
next
  case True
  then consider (handle) a es where "e = Handle_tx" "avail v (txq w) = a # es"
    | (callback) u us where "e = Outbuf_cb" "used v (txq w) = u # us"
    by (auto simp: due_def neq_Nil_conv)
  then show thesis
  proof cases
    case handle
    with handle_keeps [OF laws inv handle(2)] True show thesis
      by (auto simp: tick_def pending_def intro!: that)
  next
    case callback
    with callback_keeps [OF laws(1) inv callback(2)] True show thesis
      by (auto simp: tick_def pending_def intro!: that)
  qed
qed

lemma reach_inv:
  assumes laws: "vq_laws (vq m) v" "iov_laws (io m)" "alloc_laws m" and q: "quiet m v w0"
    and "tx_reach m v w0 ds w"
  shows "tx_inv m v (room v (txq w0)) (contents w0 @ ds) w"
  using assms(5)
proof (induction rule: tx_reach.induct)
  case start
  then show ?case using quiet_tx_inv [OF q] by simp
next
  case (post ds w d res w')
  then show ?case using write_keeps [OF laws(1,3) post.IH, of d res] by auto
next
  case (serve ds w e w')
  then show ?case using tick_keeps [OF laws serve.IH serve.hyps(2)] by (metis sum.inject(2))
qed

text \<open>
  A service: handlers and callbacks in the order of a fair schedule, from a state with the invariant.
\<close>

definition service :: "'q platform \<Rightarrow> 'q vq_view \<Rightarrow> (nat \<Rightarrow> vevent) \<Rightarrow> nat \<Rightarrow> u8 list list \<Rightarrow> 'q world \<Rightarrow> bool" where
  "service m v s ring log w \<longleftrightarrow>
     vq_laws (vq m) v \<and> iov_laws (io m) \<and> alloc_laws m \<and> tx_inv m v ring log w \<and> fair s"

lemma ticks_run:
  assumes "service m v s ring log w"
  shows "\<exists>w'. ticks m v s n w = Inr w' \<and> tx_inv m v ring log w'"
proof (induction n)
  case (Suc n)
  then obtain w' where w': "ticks m v s n w = Inr w'" "tx_inv m v ring log w'" by blast
  have "s n \<in> {Handle_tx, Outbuf_cb}" using assms by (simp add: service_def fair_def)
  then show ?case using tick_keeps [OF _ _ _ w'(2), of "s n"] w'(1) assms by (auto simp: service_def)
qed (use assms in \<open>simp add: service_def\<close>)

lemma ticks_next:
  assumes "service m v s ring log w" and "ticks m v s n w = Inr x"
  obtains x' where "ticks m v s (Suc n) w = Inr x'"
    and "due v (s n) x \<Longrightarrow> pending v x' < pending v x" and "\<not> due v (s n) x \<Longrightarrow> x' = x"
proof -
  have "tx_inv m v ring log x" using ticks_run [OF assms(1), of n] assms(2) by simp
  moreover have "s n \<in> {Handle_tx, Outbuf_cb}" using assms(1) by (simp add: service_def fair_def)
  ultimately show thesis using tick_keeps [of m v ring log x "s n"] assms that by (auto simp: service_def)
qed

text \<open>What is due stays due until something is done.\<close>

lemma waits:
  assumes sv: "service m v s ring log w" and "ticks m v s n w = Inr x"
  shows "ticks m v s (n + j) w = Inr x \<or> (\<exists>k x'. ticks m v s k w = Inr x' \<and> pending v x' < pending v x)"
proof (induction j)
  case (Suc j)
  then show ?case
  proof (elim disjE)
    assume "ticks m v s (n + j) w = Inr x"
    then show ?thesis using ticks_next [OF sv, of "n + j" x] by (metis add_Suc_right)
  qed blast
qed (simp add: assms)

lemma progress:
  assumes sv: "service m v s ring log w" and "ticks m v s n w = Inr x" and "0 < pending v x"
  shows "\<exists>k x'. ticks m v s k w = Inr x' \<and> pending v x' < pending v x"
proof -
  have "avail v (txq x) \<noteq> [] \<or> used v (txq x) \<noteq> []" using assms(3) by (auto simp: pending_def)
  moreover have "(\<exists>k \<ge> n. s k = Handle_tx) \<and> (\<exists>k \<ge> n. s k = Outbuf_cb)" using sv by (simp add: service_def fair_def)
  ultimately obtain k where k: "n \<le> k" "due v (s k) x" unfolding due_def by metis
  then show ?thesis using waits [OF assms(1,2), of "k - n"] ticks_next [OF sv, of k x] by (metis le_add_diff_inverse)
qed

lemma comes_to_rest:
  assumes "service m v s ring log w"
  shows "\<exists>N x. ticks m v s N w = Inr x \<and> pending v x = 0"
proof -
  have "\<exists>N x'. ticks m v s N w = Inr x' \<and> pending v x' = 0" if "ticks m v s n w = Inr x" for n x
    using that
  proof (induction "pending v x" arbitrary: n x rule: less_induct)
    case less
    show ?case
    proof (cases "pending v x = 0")
      case False
      then obtain k x' where "ticks m v s k w = Inr x'" "pending v x' < pending v x"
        using progress [OF assms less.prems] by blast
      then show ?thesis using less.hyps by blast
    qed (use less.prems in blast)
  qed
  from this [of 0 w] show ?thesis by simp
qed

lemma stays_at_rest:
  assumes sv: "service m v s ring log w" and "ticks m v s N w = Inr x" and "pending v x = 0"
  shows "ticks m v s (N + j) w = Inr x"
proof (induction j)
  case (Suc j)
  have "\<not> due v (s (N + j)) x" using assms(3) by (auto simp: due_def pending_def)
  then show ?case using ticks_next [OF sv Suc] by (metis add_Suc_right)
qed (simp add: assms)

lemma delivered:
  assumes sv: "service m v s ring log w" and "0 < ring"
  shows "\<exists>N. \<forall>n \<ge> N. \<exists>x. ticks m v s n w = Inr x \<and> quiet m v x \<and> contents x = log"
proof -
  obtain N x where x: "ticks m v s N w = Inr x" "pending v x = 0" using comes_to_rest [OF sv] by blast
  have "quiet m v x \<and> contents x = log"
    using ticks_run [OF sv, of N] x tx_inv_quiet [of m v ring log x] assms(2) by (simp add: pending_def)
  moreover have "ticks m v s n w = Inr x" if "N \<le> n" for n
    using stays_at_rest [OF sv x, of "n - N"] that by simp
  ultimately show ?thesis by blast
qed

section \<open>Properties\<close>


definition taking_turns :: "nat \<Rightarrow> vevent" where
  "taking_turns n = (if even n then Outbuf_cb else Handle_tx)"

lemma taking_turns_fair: "fair taking_turns"
proof -
  have "\<exists>k \<ge> n. taking_turns k = Handle_tx" "\<exists>k \<ge> n. taking_turns k = Outbuf_cb" for n
    by (rule exI [of _ "2 * n + 1"], simp add: taking_turns_def) (rule exI [of _ "2 * n"], simp add: taking_turns_def)
  then show ?thesis by (simp add: fair_def) (simp add: taking_turns_def)
qed

text \<open>Two writes before the device is notified.\<close>

lemma fresh_world_room: "room fifo_view (txq fresh_world) = 64"
  by (simp add: fifo_view_def fresh_world_def)

lemma fresh_post:
  assumes "tx_reach simple_platform fifo_view fresh_world ds w" "0 < room fifo_view (txq w)" "length ds < 10"
    "length d < 10"
  shows "\<exists>w'. tx_reach simple_platform fifo_view fresh_world (ds @ [d]) w' \<and>
    room fifo_view (txq w') = room fifo_view (txq w) - 1"
proof -
  note laws = simple_platform_laws
  have small: "length (contents fresh_world) + length ds < VIRTIO_CUSTDEV_BUFFERS" "length d < 4294967296"
    using assms(3,4) by (simp_all add: fresh_world_contents VIRTIO_CUSTDEV_BUFFERS_def)
  obtain w' where "write_step simple_platform d 0 w = Inr w'" "room fifo_view (txq w') = room fifo_view (txq w) - 1"
    using write_keeps [OF laws(1,3) reach_inv [OF laws fresh_world_quiet assms(1)] assms(2), of d 0] small by auto
  then show ?thesis using tx_reach.post [OF assms(1,2) small, of 0 w'] by auto
qed


end
