(* ===== verification/Virtio_Lifecycle.thy ===== *)
theory Virtio_Lifecycle
  imports Virtio_Driver Virtio_Device
begin

text \<open>
  The life cycle of the guest driver (\<^verbatim>\<open>src/virtio/virtio_custdev.c\<close>): creating the virtqueues, probe
  and remove, loading and unloading the module. The module owns one device structure, \<^verbatim>\<open>vcdev\<close>; the
  state says whether it is allocated, and every access to it after it was freed is a fault. The
  kernel's registration functions call back into the driver: the callbacks that run during such a
  call are an argument of the model, as are their results. \<^verbatim>\<open>vring_create_virtqueue\<close>, \<^verbatim>\<open>IS_ERR\<close> and
  \<^verbatim>\<open>PTR_ERR\<close> are parameters.
\<close>

section \<open>State\<close>

datatype alloc_state = Unallocated | Live | Freed

record vcust_state =
  vc_obj :: alloc_state
  vc_dev :: virtio_custom_device
  vc_priv :: bool
  vc_vqs :: "u64 list"
  vc_tx :: u64
  vc_rx :: u64
  vc_pde :: "string option"
  vc_index :: nat

record vq_kernel =
  vring_create_virtqueue :: "nat \<Rightarrow> nat \<Rightarrow> u64"
  IS_ERR :: "u64 \<Rightarrow> bool"
  PTR_ERR :: "u64 \<Rightarrow> int"

definition VIRTIO_CUSTDEV_VRING_NUM :: nat where
  "VIRTIO_CUSTDEV_VRING_NUM = 256"

text \<open>Every access to the structure needs it to be allocated; freeing ends its life.\<close>

definition with_vcust :: "(vcust_state \<Rightarrow> mem_fault + 'a) \<Rightarrow> vcust_state \<Rightarrow> mem_fault + 'a" where
  "with_vcust f s = (if vc_obj s = Live then f s else Inl Use_after_free)"

definition kfree_vcust :: "vcust_state \<Rightarrow> mem_fault + vcust_state" where
  "kfree_vcust s = (if vc_obj s = Live then Inr (s\<lparr>vc_obj := Freed\<rparr>) else Inl Invalid_free)"

section \<open>Virtqueues\<close>

text \<open>The error code that \<^verbatim>\<open>cd_setup_vq\<close> computes for a null pointer is not returned.\<close>

definition cd_setup_vq :: "vq_kernel \<Rightarrow> nat \<Rightarrow> u64" where
  "cd_setup_vq k i = vring_create_virtqueue k i VIRTIO_CUSTDEV_VRING_NUM"

text \<open>Deleting removes every queue of the device's list.\<close>

definition custdev_del_vqs :: "vcust_state \<Rightarrow> vcust_state" where
  "custdev_del_vqs s = s\<lparr>vc_vqs := []\<rparr>"

text \<open>
  The queues created from index \<open>i\<close> on, \<open>n\<close> of them; a queue that was created joins the device's list,
  a null pointer is stored like a queue.
\<close>

fun find_vqs_loop :: "vq_kernel \<Rightarrow> nat \<Rightarrow> nat \<Rightarrow> vcust_state \<Rightarrow> vcust_state \<times> u64 list \<times> int" where
  "find_vqs_loop k i 0 s = (s, [], 0)"
| "find_vqs_loop k i (Suc n) s =
     (let p = cd_setup_vq k i in
      if IS_ERR k p then (custdev_del_vqs s, [p], PTR_ERR k p)
      else let s' = (if p = 0 then s else s\<lparr>vc_vqs := vc_vqs s @ [p]\<rparr>);
               (s'', ps, ret) = find_vqs_loop k (i + 1) n s'
           in (s'', p # ps, ret))"

definition custdev_find_vqs :: "vq_kernel \<Rightarrow> nat \<Rightarrow> vcust_state \<Rightarrow> vcust_state \<times> u64 list \<times> int" where
  "custdev_find_vqs k nvqs s = find_vqs_loop k 0 nvqs s"

datatype vq_callback = Outbuf_callback | Inbuf_callback

text \<open>The callback of each of the two queues.\<close>

definition vq_callbacks :: "vq_callback list" where
  "vq_callbacks = [Outbuf_callback, Inbuf_callback]"

definition virtio_vcust_assign_virtqueue :: "vq_kernel \<Rightarrow> vcust_state \<Rightarrow> vcust_state \<times> int" where
  "virtio_vcust_assign_virtqueue k s =
     (case custdev_find_vqs k (length vq_callbacks) s of
        (s', vqs, err) \<Rightarrow>
          if err \<noteq> 0 then (s', err) else (s'\<lparr>vc_tx := vqs ! 0, vc_rx := vqs ! 1\<rparr>, 0))"

section \<open>Probe and remove\<close>

text \<open>
  The name of the proc file is printed into an array of 20 bytes, so that at most 19 characters are left.
  \<open>proc_ok\<close> says whether the file could be created.
\<close>

definition VIRTIO_CUSTDEV_STRING :: string where
  "VIRTIO_CUSTDEV_STRING = ''virtio_custdev''"

definition proc_name :: "nat \<Rightarrow> string" where
  "proc_name index = take (20 - 1) (VIRTIO_CUSTDEV_STRING @ ''-'' @ dec_digits index)"

definition virtio_custdev_probe :: "vq_kernel \<Rightarrow> bool \<Rightarrow> vcust_state \<Rightarrow> mem_fault + (vcust_state \<times> int)" where
  "virtio_custdev_probe k proc_ok =
     with_vcust (\<lambda>s.
       case virtio_vcust_assign_virtqueue k (s\<lparr>vc_priv := True\<rparr>) of
         (s1, err) \<Rightarrow>
           if err \<noteq> 0 then map_sum id (\<lambda>s. (s, err)) (kfree_vcust s1)
           else
             let s2 = s1\<lparr>vc_dev := (vc_dev s1)\<lparr>buffers := 0, data_ready := 0\<rparr>\<rparr> in
             if \<not> proc_ok then map_sum id (\<lambda>s. (s, - ENOMEM)) (kfree_vcust (s2\<lparr>vc_pde := None\<rparr>))
             else Inr (s2\<lparr>vc_pde := Some (proc_name (vc_index s2))\<rparr>, 0))"

definition virtio_custdev_remove :: "vcust_state \<Rightarrow> mem_fault + vcust_state" where
  "virtio_custdev_remove =
     with_vcust (\<lambda>s. kfree_vcust (s\<lparr>vc_pde := None,
                                   vc_dev := (vc_dev s)\<lparr>data_ready := data_ready (vc_dev s) + 1\<rparr>\<rparr>))"

section \<open>The configuration operations\<close>

text \<open>
  The table by the names of its members; a member that the initialiser does not name is a null pointer.
  The operations have the device and a number as arguments, and each accesses the structure.
\<close>

type_synonym config_op = "vq_kernel \<Rightarrow> nat \<Rightarrow> vcust_state \<Rightarrow> mem_fault + vcust_state"

definition on_device :: "(virtio_custom_device \<Rightarrow> virtio_custom_device) \<Rightarrow> vcust_state \<Rightarrow> mem_fault + vcust_state" where
  "on_device f = with_vcust (\<lambda>s. Inr (s\<lparr>vc_dev := f (vc_dev s)\<rparr>))"

definition virtio_custdev_config_ops :: "string \<rightharpoonup> config_op" where
  "virtio_custdev_config_ops =
     [''get_status'' \<mapsto> \<lambda>k a. on_device (\<lambda>d. d),
      ''set_status'' \<mapsto> \<lambda>k a. on_device (custdev_set_status (of_nat a)),
      ''reset'' \<mapsto> \<lambda>k a. on_device custdev_reset,
      ''find_vqs'' \<mapsto> \<lambda>k a. with_vcust (\<lambda>s. Inr (fst (custdev_find_vqs k a s))),
      ''del_vqs'' \<mapsto> \<lambda>k a. with_vcust (\<lambda>s. Inr (custdev_del_vqs s))]"

definition config_call :: "vq_kernel \<Rightarrow> string \<Rightarrow> nat \<Rightarrow> vcust_state \<Rightarrow> mem_fault + vcust_state" where
  "config_call k member a s =
     (case virtio_custdev_config_ops member of None \<Rightarrow> Inl Null_pointer | Some f \<Rightarrow> f k a s)"

section \<open>The module\<close>

text \<open>What the kernel calls: the driver's probe and remove, and the device's configuration operations.\<close>

datatype callback = Call_probe bool | Call_remove | Call_config string nat

fun run_callbacks :: "vq_kernel \<Rightarrow> callback list \<Rightarrow> vcust_state \<Rightarrow> mem_fault + vcust_state" where
  "run_callbacks k [] s = Inr s"
| "run_callbacks k (Call_probe ok # cs) s =
     (case virtio_custdev_probe k ok s of Inl f \<Rightarrow> Inl f | Inr (s', _) \<Rightarrow> run_callbacks k cs s')"
| "run_callbacks k (Call_remove # cs) s =
     (case virtio_custdev_remove s of Inl f \<Rightarrow> Inl f | Inr s' \<Rightarrow> run_callbacks k cs s')"
| "run_callbacks k (Call_config member a # cs) s =
     (case config_call k member a s of Inl f \<Rightarrow> Inl f | Inr s' \<Rightarrow> run_callbacks k cs s')"

text \<open>
  A call of the kernel on the device: it accesses the structure and runs callbacks. The driver's
  registration does not access the structure unless it calls back.
\<close>

definition device_call :: "vq_kernel \<Rightarrow> callback list \<Rightarrow> vcust_state \<Rightarrow> mem_fault + vcust_state" where
  "device_call k cs = with_vcust (run_callbacks k cs)"

text \<open>
  The results of the two registrations and of the allocation, the index that registering the device
  gives it, and the callbacks of each call.
\<close>

record load_env =
  le_alloc :: bool
  le_index :: nat
  le_register_device :: int
  le_device_calls :: "callback list"
  le_register_driver :: int
  le_driver_calls :: "callback list"
  le_unwind_calls :: "callback list"

definition zeroed_vcust :: vcust_state where
  "zeroed_vcust = \<lparr>vc_obj = Live,
     vc_dev = \<lparr>buffers = 0, buf_lens = replicate VIRTIO_CUSTDEV_BUFFERS 0, read_data = None, data_ready = 0,
               status = 0\<rparr>,
     vc_priv = False, vc_vqs = [], vc_tx = 0, vc_rx = 0, vc_pde = None,
     vc_index = 0\<rparr>"

definition virtio_custom_init :: "vq_kernel \<Rightarrow> load_env \<Rightarrow> vcust_state \<Rightarrow> mem_fault + (vcust_state \<times> int)" where
  "virtio_custom_init k e s =
     (if \<not> le_alloc e then Inr (s, - ENOMEM)
      else case device_call k (le_device_calls e) (zeroed_vcust\<lparr>vc_index := le_index e\<rparr>) of
             Inl f \<Rightarrow> Inl f
           | Inr s1 \<Rightarrow>
               if le_register_device e \<noteq> 0 then
                 map_sum id (\<lambda>s. (s, le_register_device e)) (kfree_vcust s1)
               else case run_callbacks k (le_driver_calls e) s1 of
                      Inl f \<Rightarrow> Inl f
                    | Inr s2 \<Rightarrow>
                        if le_register_driver e \<noteq> 0 then
                          (case device_call k (le_unwind_calls e) s2 of
                             Inl f \<Rightarrow> Inl f
                           | Inr s3 \<Rightarrow> map_sum id (\<lambda>s. (s, le_register_driver e)) (kfree_vcust s3))
                        else Inr (s2, 0))"

definition virtio_custom_exit ::
  "vq_kernel \<Rightarrow> callback list \<Rightarrow> callback list \<Rightarrow> vcust_state \<Rightarrow> mem_fault + vcust_state"
where
  "virtio_custom_exit k driver_calls device_calls s =
     (case run_callbacks k driver_calls s of
        Inl f \<Rightarrow> Inl f
      | Inr s1 \<Rightarrow>
          (case device_call k device_calls s1 of
             Inl f \<Rightarrow> Inl f
           | Inr s2 \<Rightarrow> kfree_vcust s2))"

section \<open>Lemmas\<close>

text \<open>\<^verbatim>\<open>vring_create_virtqueue\<close> gives a queue or the null pointer, and the null pointer is no error pointer.\<close>

definition vring_laws :: "vq_kernel \<Rightarrow> bool" where
  "vring_laws k \<longleftrightarrow> (\<forall>i n. \<not> IS_ERR k (vring_create_virtqueue k i n))"

lemma find_vqs_no_error:
  assumes "vring_laws k"
  shows "find_vqs_loop k i n s =
    (s\<lparr>vc_vqs := vc_vqs s @ filter (\<lambda>p. p \<noteq> 0) (map (cd_setup_vq k) [i..<i + n])\<rparr>,
     map (cd_setup_vq k) [i..<i + n], 0)"
proof (induction n arbitrary: i s)
  case (Suc n)
  have "\<not> IS_ERR k (cd_setup_vq k i)" using assms by (simp add: vring_laws_def cd_setup_vq_def)
  moreover have "[i..<i + Suc n] = i # [Suc i..<Suc i + n]" by (simp add: upt_conv_Cons)
  ultimately show ?case using Suc.IH [of "Suc i"] by (simp add: Let_def)
qed simp

lemma assign_no_error:
  assumes "vring_laws k"
  shows "virtio_vcust_assign_virtqueue k s =
    (s\<lparr>vc_vqs := vc_vqs s @ filter (\<lambda>p. p \<noteq> 0) [cd_setup_vq k 0, cd_setup_vq k 1],
       vc_tx := cd_setup_vq k 0, vc_rx := cd_setup_vq k 1\<rparr>, 0)"
  using find_vqs_no_error [OF assms, of 0 2 s]
  by (simp add: virtio_vcust_assign_virtqueue_def custdev_find_vqs_def vq_callbacks_def upt_rec
      numeral_2_eq_2)

lemma probe_result:
  assumes "vring_laws k" and "vc_obj s = Live"
  obtains s' where "virtio_custdev_probe k ok s = Inr (s', if ok then 0 else - ENOMEM)"
    and "vc_obj s' = (if ok then Live else Freed)"
    and "vc_tx s' = cd_setup_vq k 0" "vc_rx s' = cd_setup_vq k 1" "buffers (vc_dev s') = 0"
  using assms(2) that
  by (cases ok) (auto simp: virtio_custdev_probe_def with_vcust_def assign_no_error [OF assms(1)] Let_def
      kfree_vcust_def)

lemma remove_result:
  assumes "vc_obj s = Live"
  obtains s' where "virtio_custdev_remove s = Inr s'" and "vc_obj s' = Freed"
  using assms that by (auto simp: virtio_custdev_remove_def with_vcust_def kfree_vcust_def)

definition failing_vq_kernel :: vq_kernel where
  "failing_vq_kernel = \<lparr>vring_create_virtqueue = (\<lambda>i n. 0),
     IS_ERR = (\<lambda>p. 0xfffffffffffff001 \<le> p), PTR_ERR = sint\<rparr>"

lemma failing_vq_kernel_laws: "vring_laws failing_vq_kernel"
  by (simp add: vring_laws_def failing_vq_kernel_def)

definition quiet_load :: load_env where
  "quiet_load = \<lparr>le_alloc = True, le_index = 0, le_register_device = 0, le_device_calls = [], le_register_driver = 0,
     le_driver_calls = [Call_probe True], le_unwind_calls = []\<rparr>"

text \<open>Calls of members that the table has. They keep an allocated structure allocated and fault on a freed one.\<close>

fun config_present :: "callback \<Rightarrow> bool" where
  "config_present (Call_config member a) = (virtio_custdev_config_ops member \<noteq> None)"
| "config_present _ = False"

abbreviation config_only :: "callback list \<Rightarrow> bool" where
  "config_only \<equiv> list_all config_present"

lemma find_vqs_keeps:
  "vc_obj (fst (find_vqs_loop k i n s)) = vc_obj s" "vc_dev (fst (find_vqs_loop k i n s)) = vc_dev s"
  by (induction k i n s rule: find_vqs_loop.induct)
    (auto simp: Let_def custdev_del_vqs_def split: prod.splits)

lemma config_call_live:
  assumes "virtio_custdev_config_ops member \<noteq> None" "vc_obj s = Live"
  obtains s' where "config_call k member a s = Inr s'" "vc_obj s' = Live" "buffers (vc_dev s') = buffers (vc_dev s)"
  using assms that
  by (auto simp: config_call_def virtio_custdev_config_ops_def on_device_def with_vcust_def custdev_del_vqs_def
      custdev_find_vqs_def find_vqs_keeps custdev_set_status_def custdev_reset_def split: if_splits)

lemma config_call_freed:
  "virtio_custdev_config_ops member \<noteq> None \<Longrightarrow> vc_obj s \<noteq> Live \<Longrightarrow> config_call k member a s = Inl Use_after_free"
  by (auto simp: config_call_def virtio_custdev_config_ops_def on_device_def with_vcust_def split: if_splits)

lemma run_configs_live:
  "config_only cs \<Longrightarrow> vc_obj s = Live \<Longrightarrow>
   \<exists>s'. (\<forall>cs'. run_callbacks k (cs @ cs') s = run_callbacks k cs' s') \<and> vc_obj s' = Live \<and>
     buffers (vc_dev s') = buffers (vc_dev s)"
proof (induction cs arbitrary: s)
  case (Cons c cs)
  then obtain member a where c: "c = Call_config member a" "virtio_custdev_config_ops member \<noteq> None"
    by (cases c) auto
  obtain s1 where s1: "config_call k member a s = Inr s1" "vc_obj s1 = Live" "buffers (vc_dev s1) = buffers (vc_dev s)"
    using config_call_live [OF c(2) Cons.prems(2)] .
  with Cons.IH [of s1] Cons.prems(1) c(1) show ?case by auto
qed auto

lemma run_configs_freed:
  assumes "config_only cs" "vc_obj s \<noteq> Live"
  shows "run_callbacks k cs s = (if cs = [] then Inr s else Inl Use_after_free)"
proof (cases cs)
  case (Cons c cs')
  with assms obtain member a where "c = Call_config member a" "virtio_custdev_config_ops member \<noteq> None"
    by (cases c) auto
  then show ?thesis using Cons config_call_freed [OF _ assms(2)] by simp
qed simp

text \<open>Registering the device, with configuration calls only.\<close>

lemma registered:
  assumes "config_only cs"
  obtains s' where "device_call k cs (zeroed_vcust\<lparr>vc_index := n\<rparr>) = Inr s'" "vc_obj s' = Live"
proof -
  have "vc_obj (zeroed_vcust\<lparr>vc_index := n\<rparr>) = Live" by (simp add: zeroed_vcust_def)
  from run_configs_live [OF assms this, of k] obtain s' where
    "\<And>cs'. run_callbacks k (cs @ cs') (zeroed_vcust\<lparr>vc_index := n\<rparr>) = run_callbacks k cs' s'" "vc_obj s' = Live"
    by blast
  from this(1) [of "[]"] this(2) show thesis
    by (intro that [of s']) (simp_all add: device_call_def with_vcust_def zeroed_vcust_def)
qed

text \<open>Loading with a probed device: the structure is allocated and the driver counts no buffers.\<close>

lemma load_with_probe:
  assumes "vring_laws k" and "le_alloc e" "le_register_device e = 0" "le_register_driver e = 0"
    and "config_only (le_device_calls e)" "le_driver_calls e = before @ Call_probe True # after"
    and "config_only before" "config_only after"
  obtains s' where "virtio_custom_init k e s = Inr (s', 0)" "vc_obj s' = Live" "buffers (vc_dev s') = 0"
proof -
  obtain s1 where s1: "device_call k (le_device_calls e) (zeroed_vcust\<lparr>vc_index := le_index e\<rparr>) = Inr s1"
    "vc_obj s1 = Live" using registered [OF assms(5)] .
  obtain s2 where s2: "\<And>cs. run_callbacks k (before @ cs) s1 = run_callbacks k cs s2" "vc_obj s2 = Live"
    using run_configs_live [OF assms(7) s1(2), of k] by blast
  obtain s3 where s3: "virtio_custdev_probe k True s2 = Inr (s3, 0)" "vc_obj s3 = Live" "buffers (vc_dev s3) = 0"
    using probe_result [OF assms(1) s2(2), of True] by auto
  obtain s4 where s4: "\<And>cs. run_callbacks k (after @ cs) s3 = run_callbacks k cs s4" "vc_obj s4 = Live"
    "buffers (vc_dev s4) = 0"
    using run_configs_live [OF assms(8) s3(2), of k] s3(3) by auto
  then show thesis
    using that [of s4] s1(1) s2(1) s3(1) s4(1) [of "[]"] assms(2-4,6) by (simp add: virtio_custom_init_def)
qed

section \<open>Properties\<close>

text \<open>
  A queue that cannot be created goes unnoticed: whatever \<^verbatim>\<open>vring_create_virtqueue\<close> returns, probing
  succeeds when the proc file can be created, and the driver then works with a null queue.
\<close>

theorem probe_misses_queue_failure:
  assumes "vring_laws k" and "vc_obj s = Live"
  shows "\<exists>s'. virtio_custdev_probe k True s = Inr (s', 0) \<and> vc_obj s' = Live \<and>
    vc_tx s' = vring_create_virtqueue k 0 256 \<and> vc_rx s' = vring_create_virtqueue k 1 256"
  by (rule probe_result [OF assms, of True])
    (auto simp: cd_setup_vq_def VIRTIO_CUSTDEV_VRING_NUM_def)

theorem probe_misses_queue_failure_witness:
  "\<exists>s'. virtio_custdev_probe failing_vq_kernel True zeroed_vcust = Inr (s', 0) \<and> vc_tx s' = 0"
  using probe_misses_queue_failure [OF failing_vq_kernel_laws, of zeroed_vcust]
  by (auto simp: zeroed_vcust_def failing_vq_kernel_def)



text \<open>
  A kernel that asks the device for its features when it probes the driver calls a null pointer: the
  table has no such member, nor has it the one that settles them.
\<close>

theorem missing_config_op_faults:
  assumes "le_alloc e" "le_register_device e = 0" "config_only (le_device_calls e)"
    and "le_driver_calls e = before @ Call_config member a # after" "config_only before"
    and "member = ''get_features'' \<or> member = ''finalize_features''"
  shows "virtio_custom_init k e s = Inl Null_pointer"
proof -
  obtain s1 where s1: "device_call k (le_device_calls e) (zeroed_vcust\<lparr>vc_index := le_index e\<rparr>) = Inr s1"
    "vc_obj s1 = Live" using registered [OF assms(3)] .
  obtain s2 where s2: "\<And>cs. run_callbacks k (before @ cs) s1 = run_callbacks k cs s2"
    using run_configs_live [OF assms(5) s1(2), of k] by blast
  have "config_call k member a s2 = Inl Null_pointer"
    using assms(6) by (auto simp: config_call_def virtio_custdev_config_ops_def)
  then show ?thesis using s1(1) s2 assms(1,2,4) by (simp add: virtio_custom_init_def)
qed

text \<open>
  When loading fails before the driver is probed, the structure is freed exactly once and the
  error of the registration that failed is returned.
\<close>

theorem failed_load_frees_once:
  assumes "le_alloc e" "config_only (le_device_calls e)" "config_only (le_driver_calls e)"
    and "config_only (le_unwind_calls e)" "le_register_device e \<noteq> 0 \<or> le_register_driver e \<noteq> 0"
  shows "\<exists>s'. virtio_custom_init k e s =
      Inr (s', if le_register_device e \<noteq> 0 then le_register_device e else le_register_driver e) \<and>
    vc_obj s' = Freed"
proof -
  obtain s1 where s1: "device_call k (le_device_calls e) (zeroed_vcust\<lparr>vc_index := le_index e\<rparr>) = Inr s1"
    "vc_obj s1 = Live" using registered [OF assms(2)] .
  obtain s2 where s2: "\<And>cs. run_callbacks k (le_driver_calls e @ cs) s1 = run_callbacks k cs s2" "vc_obj s2 = Live"
    using run_configs_live [OF assms(3) s1(2), of k] by blast
  obtain s3 where s3: "\<And>cs. run_callbacks k (le_unwind_calls e @ cs) s2 = run_callbacks k cs s3" "vc_obj s3 = Live"
    using run_configs_live [OF assms(4) s2(2), of k] by blast
  show ?thesis
    using s1 s2(1) [of "[]"] s2(2) s3(1) [of "[]"] s3(2) assms(1,5)
    by (auto simp: virtio_custom_init_def device_call_def with_vcust_def kfree_vcust_def)
qed

text \<open>
  The names of the proc files of the first ten thousand devices are complete and differ; the next device gets
  the name of an earlier one, because the array cuts its last digit.
\<close>

theorem proc_names_distinct:
  assumes "i < 10000" "j < 10000"
  shows "proc_name i = VIRTIO_CUSTDEV_STRING @ ''-'' @ dec_digits i"
    and "proc_name i = proc_name j \<longleftrightarrow> i = j" and "proc_name 10000 = proc_name 1000"
proof -
  have full: "proc_name n = VIRTIO_CUSTDEV_STRING @ ''-'' @ dec_digits n" if "n < 10000" for n
    using length_dec_digits [of 4 n] that by (simp add: proc_name_def VIRTIO_CUSTDEV_STRING_def)
  show "proc_name i = VIRTIO_CUSTDEV_STRING @ ''-'' @ dec_digits i" using assms(1) by (rule full)
  show "proc_name i = proc_name j \<longleftrightarrow> i = j" using full assms by (simp add: dec_digits_inject)
  have "dec_digits 10000 = dec_digits 1000 @ [char_of (48 :: nat)]" by (subst dec_digits.simps) simp
  moreover have "length (dec_digits 1000) = 4" by (simp add: dec_digits.simps)
  ultimately show "proc_name 10000 = proc_name 1000" by (simp add: proc_name_def VIRTIO_CUSTDEV_STRING_def)
qed

text \<open>
  The two sides agree on their queues: the queue with index \<open>i\<close> that the driver sends on (receives
  on), with the callback it registered, is the one whose handler in the device takes buffers from
  (gives buffers to) the guest.
\<close>

theorem queues_agree:
  assumes "vring_laws k" and "vc_obj s = Live"
  shows "\<exists>s'. virtio_custdev_probe k True s = Inr (s', 0) \<and>
    vc_tx s' = cd_setup_vq k 0 \<and> vq_callbacks ! 0 = Outbuf_callback \<and>
    snd (vdev_queues (virtio_custdev_device_realize d) ! 0) = Handle_outbuf \<and>
    vc_rx s' = cd_setup_vq k 1 \<and> vq_callbacks ! 1 = Inbuf_callback \<and>
    snd (vdev_queues (virtio_custdev_device_realize d) ! 1) = Handle_inbuf"
  by (rule probe_result [OF assms, of True])
    (auto simp: vq_callbacks_def virtio_custdev_device_realize_def virtio_add_queue_def Let_def)

theorem queues_agree_witness:
  "\<exists>s'. virtio_custdev_probe failing_vq_kernel True zeroed_vcust = Inr (s', 0) \<and>
     vc_tx s' = cd_setup_vq failing_vq_kernel 0"
  using queues_agree [OF failing_vq_kernel_laws, of zeroed_vcust one_block] by (auto simp: zeroed_vcust_def)

end
