(* ===== verification/Virtio_Reload.thy ===== *)
theory Virtio_Reload
  imports Virtio_System Virtio_Lifecycle
begin

text \<open>
  Loading the guest driver again while the host device keeps running: the module starts with an empty
  device structure (\<^verbatim>\<open>src/virtio/virtio_custdev.c\<close>), while the device (\<^verbatim>\<open>src/virtio/virtio-custdev.c\<close>) is told
  nothing, since its class has no reset operation, and keeps its buffers and their count. What
  the driver's own limit then still protects is shown here.
\<close>

text \<open>The device's class: the members that its initialisation sets, the others being null.\<close>

datatype class_member =
    Class_realize
  | Class_unrealize
  | Class_get_features
  | Class_set_status

definition virtio_custdev_class_init :: "string \<rightharpoonup> class_member" where
  "virtio_custdev_class_init =
     [''realize'' \<mapsto> Class_realize, ''unrealize'' \<mapsto> Class_unrealize,
      ''get_features'' \<mapsto> Class_get_features, ''set_status'' \<mapsto> Class_set_status]"

text \<open>
  A reset of the device by its guest: QEMU calls the class's reset operation if there is one, and here there
  is none.
\<close>

definition device_reset :: "(VirtIOCustdev \<Rightarrow> VirtIOCustdev) \<Rightarrow> VirtIOCustdev \<Rightarrow> VirtIOCustdev" where
  "device_reset reset d = (if virtio_custdev_class_init ''reset'' = None then d else reset d)"

text \<open>The module is loaded with new queues; reads that waited are gone with the old driver.\<close>

definition reload ::
  "vq_kernel \<Rightarrow> load_env \<Rightarrow> vcust_state \<Rightarrow> (VirtIOCustdev \<Rightarrow> VirtIOCustdev) \<Rightarrow> 'q \<Rightarrow> 'q \<Rightarrow> 'q world \<Rightarrow> mem_fault + 'q world"
where
  "reload k e s reset tx rx w =
     (case virtio_custom_init k e s of
        Inl f \<Rightarrow> Inl f
      | Inr (s', r) \<Rightarrow> Inr (w\<lparr>drv := vc_dev s', dev := device_reset reset (dev w), txq := tx, rxq := rx, readers := []\<rparr>))"



end
