(* ===== verification/Vfio.thy ===== *)
theory Vfio
  imports VL_Prelude
begin

unbundle bit_operations_syntax

text \<open>
  The VFIO demonstration (\<^verbatim>\<open>src/vfio.c\<close>): finding the IOMMU group of a PCI device from its sysfs link,
  opening container, group and device, and printing the head of the configuration space. The results
  of system calls are inputs; the state keeps the descriptors that were opened and closed, in order.
  The C library's \<^verbatim>\<open>basename\<close> and \<^verbatim>\<open>sscanf\<close> are modelled as far as they are used.
\<close>

section \<open>Configuration space\<close>

record pci_config =
  Vendor_id :: u16
  Device_id :: u16
  pci_command :: u16
  pci_status :: u16
  Revision_id :: u32
  Class_Code :: u32

text \<open>The packed structure over the bytes of the configuration space, least significant byte first.\<close>

definition le16 :: "u8 list \<Rightarrow> nat \<Rightarrow> u16" where
  "le16 bs i = ucast (bs ! i) OR push_bit 8 (ucast (bs ! (i + 1)))"

definition le32 :: "u8 list \<Rightarrow> nat \<Rightarrow> u32" where
  "le32 bs i = ucast (le16 bs i) OR push_bit 16 (ucast (le16 bs (i + 2)))"

text \<open>What \<^verbatim>\<open>print_pci\<close> prints; the bit field of the revision is the low byte of the last word.\<close>

definition print_pci :: "u8 list \<Rightarrow> pci_config" where
  "print_pci bs =
     \<lparr>Vendor_id = le16 bs 0, Device_id = le16 bs 2, pci_command = le16 bs 4, pci_status = le16 bs 6,
      Revision_id = le32 bs 8 AND 0xff, Class_Code = drop_bit 8 (le32 bs 8)\<rparr>"

section \<open>The IOMMU group\<close>

datatype vfio_fault =
    Null_device
  | Group_path_out_of_bounds
  | Uninitialised_dev_fd

definition sysfsdev :: string where
  "sysfsdev = ''/sys/bus/pci/devices/0000:00:16.0''"

text \<open>The last component of a path, without trailing slashes.\<close>

definition basename :: "string \<Rightarrow> string" where
  "basename p =
     (let q = rev (dropWhile (\<lambda>c. c = CHR ''/'') (rev p)) in
      if p = [] then ''.''
      else if q = [] then ''/''
      else rev (takeWhile (\<lambda>c. c \<noteq> CHR ''/'') (rev q)))"

text \<open>\<^verbatim>\<open>sscanf(s, "%d", &i)\<close>: blanks, a sign, digits; \<^term>\<open>None\<close> when no number is found. (For
  numbers that fit an \<^verbatim>\<open>int\<close>; the C standard leaves the others open.)\<close>

definition scan_int :: "string \<Rightarrow> int option" where
  "scan_int s =
     (let t = dropWhile isspace s;
          neg = (t \<noteq> [] \<and> hd t = CHR ''-'');
          u = (if t \<noteq> [] \<and> (hd t = CHR ''-'' \<or> hd t = CHR ''+'') then tl t else t);
          ds = takeWhile isdigit u
      in if ds = [] then None else Some (if neg then - dec_value ds else dec_value ds))"

definition group_path_size :: nat where
  "group_path_size = 512"

text \<open>
  The group number, or \<^term>\<open>None\<close> for the return value -1. \<open>stat_ok\<close> is the result of \<^verbatim>\<open>stat\<close>, \<open>link\<close> the
  target of the link (\<^term>\<open>None\<close> when \<^verbatim>\<open>readlink\<close> fails); \<^verbatim>\<open>readlink\<close> writes at most the size of the array
  and does not terminate the string.
\<close>

definition init_pci_data :: "bool \<Rightarrow> string option \<Rightarrow> vfio_fault + int option" where
  "init_pci_data stat_ok link =
     (if \<not> stat_ok then Inr None
      else case link of
             None \<Rightarrow> Inl Group_path_out_of_bounds
           | Some target \<Rightarrow>
               let path = take group_path_size target in
               if group_path_size \<le> length path then Inl Group_path_out_of_bounds
               else Inr (scan_int (basename (takeWhile (\<lambda>c. c \<noteq> nul) path))))"

section \<open>The program\<close>

record vfio_env =
  ve_alloc :: bool
  ve_stat_ok :: bool
  ve_link :: "string option"
  ve_container :: int
  ve_version_ok :: bool
  ve_type1 :: bool
  ve_group :: "int \<Rightarrow> int"
  ve_viable :: bool
  ve_set_container :: int
  ve_set_iommu :: int
  ve_device :: int
  ve_device_info :: int
  ve_config :: "u8 list"

record vfio_run =
  opened :: "int list"
  closed :: "int list"
  shown :: "pci_config option"

definition opens :: "int \<Rightarrow> vfio_run \<Rightarrow> vfio_run" where
  "opens fd r = r\<lparr>opened := opened r @ [fd]\<rparr>"

definition closes :: "int \<Rightarrow> vfio_run \<Rightarrow> vfio_run" where
  "closes fd r = r\<lparr>closed := closed r @ [fd]\<rparr>"

text \<open>The three labels at the end of \<^verbatim>\<open>main\<close>, each falling through to the next.\<close>

definition label_err :: "int \<Rightarrow> vfio_run \<Rightarrow> vfio_fault + vfio_run" where
  "label_err container r = Inr (closes container r)"

definition label_err0 :: "int \<Rightarrow> int \<Rightarrow> vfio_run \<Rightarrow> vfio_fault + vfio_run" where
  "label_err0 container grp r = label_err container (closes grp r)"

definition label_err1 :: "int \<Rightarrow> int \<Rightarrow> int option \<Rightarrow> vfio_run \<Rightarrow> vfio_fault + vfio_run" where
  "label_err1 container grp dev r =
     (case dev of
        None \<Rightarrow> Inl Uninitialised_dev_fd
      | Some fd \<Rightarrow> label_err0 container grp (closes fd r))"

text \<open>The device: what follows once the container and the group are joined.\<close>

definition vfio_device :: "vfio_env \<Rightarrow> int \<Rightarrow> int \<Rightarrow> vfio_run \<Rightarrow> vfio_fault + vfio_run" where
  "vfio_device e container grp r =
     (if ve_device e < 0 then label_err0 container grp r
      else
        let dev = ve_device e; r = opens dev r in
        if ve_device_info e \<noteq> 0 then label_err1 container grp (Some dev) r
        else label_err1 container grp (Some dev) (r\<lparr>shown := Some (print_pci (ve_config e))\<rparr>))"

text \<open>
  \<^verbatim>\<open>main\<close>: the outcome and the value returned. The device descriptor is not assigned before
  \<^verbatim>\<open>VFIO_GROUP_GET_DEVICE_FD\<close>.
\<close>

definition vfio_main :: "vfio_env \<Rightarrow> vfio_fault + (vfio_run \<times> int)" where
  "vfio_main e =
     (if \<not> ve_alloc e then Inl Null_device
      else case init_pci_data (ve_stat_ok e) (ve_link e) of
             Inl f \<Rightarrow> Inl f
           | Inr None \<Rightarrow> Inr (\<lparr>opened = [], closed = [], shown = None\<rparr>, -1)
           | Inr (Some group_id) \<Rightarrow>
               let container = ve_container e;
                   r0 = \<lparr>opened = (if container < 0 then [] else [container]), closed = [], shown = None\<rparr>
               in if \<not> ve_version_ok e \<or> \<not> ve_type1 e then Inr (r0, 0)
                  else
                    let grp = ve_group e group_id in
                    map_sum id (\<lambda>r. (r, 0))
                      (if grp < 0 then label_err container r0
                       else
                         let r1 = opens grp r0 in
                         if \<not> ve_viable e then label_err0 container grp r1
                         else if ve_set_container e \<noteq> 0 then label_err0 container grp r1
                         else if ve_set_iommu e \<noteq> 0 then label_err1 container grp None r1
                         else vfio_device e container grp r1))"

section \<open>Lemmas\<close>

lemma vfio_device_closes:
  "\<exists>r'. vfio_device e container grp r = Inr r' \<and>
     (\<exists>ds. opened r' = opened r @ ds \<and> closed r' = closed r @ rev ds @ [grp, container])"
  by (auto simp: vfio_device_def label_err1_def label_err0_def label_err_def opens_def closes_def Let_def)

lemma basename_last:
  assumes "CHR ''/'' \<notin> set name" and "name \<noteq> []"
  shows "basename (dir @ CHR ''/'' # name) = name"
proof -
  have "rev name \<noteq> []" "hd (rev name) \<noteq> CHR ''/''"
    using assms(2) assms by (simp, metis hd_rev last_in_set)
  then have "dropWhile (\<lambda>c. c = CHR ''/'') (rev name @ CHR ''/'' # rev dir) = rev name @ CHR ''/'' # rev dir"
    by (cases "rev name") auto
  moreover have "takeWhile (\<lambda>c. c \<noteq> CHR ''/'') (rev name @ CHR ''/'' # rev dir) = rev name"
    using assms(1) by (subst takeWhile_append2) auto
  ultimately show ?thesis using assms(2) by (simp add: basename_def Let_def)
qed

lemma digit_char: "isdigit c \<Longrightarrow> c \<noteq> CHR ''/'' \<and> c \<noteq> CHR ''-'' \<and> c \<noteq> CHR ''+'' \<and> c \<noteq> nul \<and> \<not> isspace c"
  by (auto simp: isdigit_def isspace_def ascii_def nul_def)

lemma scan_digits:
  assumes "\<forall>c \<in> set ds. isdigit c" and "ds \<noteq> []"
  shows "scan_int ds = Some (dec_value ds)"
proof -
  obtain c cs where ds: "ds = c # cs" using assms(2) by (cases ds) auto
  then have "dropWhile isspace ds = ds" "c \<noteq> CHR ''-''" "c \<noteq> CHR ''+''"
    using assms(1) digit_char [of c] by auto
  moreover have "takeWhile isdigit ds = ds" using assms(1) by simp
  ultimately show ?thesis by (simp add: scan_int_def ds)
qed

lemma digits_path:
  assumes "\<forall>c \<in> set ds. isdigit c" "ds \<noteq> []" "nul \<notin> set dir"
  shows "takeWhile (\<lambda>c. c \<noteq> nul) (dir @ CHR ''/'' # ds) = dir @ CHR ''/'' # ds"
    "basename (dir @ CHR ''/'' # ds) = ds"
proof -
  have "\<forall>c \<in> set (dir @ CHR ''/'' # ds). c \<noteq> nul"
    using assms digit_char by (auto simp: nul_def)
  then show "takeWhile (\<lambda>c. c \<noteq> nul) (dir @ CHR ''/'' # ds) = dir @ CHR ''/'' # ds" by (simp only: takeWhile_eq_all_conv)
  show "basename (dir @ CHR ''/'' # ds) = ds" using assms(1,2) digit_char by (intro basename_last) blast+
qed

lemma group_of_link:
  assumes "\<forall>c \<in> set ds. isdigit c" "ds \<noteq> []" "nul \<notin> set dir" "length dir + 1 + length ds < group_path_size"
  shows "init_pci_data True (Some (dir @ CHR ''/'' # ds)) = Inr (Some (dec_value ds))"
proof -
  define P where "P = dir @ CHR ''/'' # ds"
  have "takeWhile (\<lambda>c. c \<noteq> nul) P = P" "basename P = ds" "length P < group_path_size"
    using digits_path [OF assms(1-3)] assms(4) by (simp_all only: P_def) simp
  then show ?thesis unfolding P_def [symmetric] using scan_digits [OF assms(1,2)]
    by (simp add: init_pci_data_def Let_def del: takeWhile_eq_all_conv)
qed

definition example_vfio :: vfio_env where
  "example_vfio = \<lparr>ve_alloc = True, ve_stat_ok = True, ve_link = Some ''../iommu_groups/7'', ve_container = 3,
     ve_version_ok = True, ve_type1 = True, ve_group = (\<lambda>g. if g = 7 then 4 else -1), ve_viable = True,
     ve_set_container = 0, ve_set_iommu = 0, ve_device = 5, ve_device_info = 0,
     ve_config = [0x86, 0x80, 0x34, 0x12, 6, 0, 0x10, 0, 2, 0, 0, 3] @ replicate 500 0\<rparr>"

section \<open>Properties\<close>

text \<open>
  A link that ends in a group number, the form sysfs has, gives exactly that group.
\<close>

theorem init_pci_data_group:
  assumes "\<forall>c \<in> set ds. isdigit c" and "ds \<noteq> []" and "nul \<notin> set dir"
    and "length dir + 1 + length ds < group_path_size" and "dec_value ds \<le> 0x7fffffff"
  shows "init_pci_data True (Some (dir @ CHR ''/'' # ds)) = Inr (Some (dec_value ds))"
  using assms(1-4) by (rule group_of_link)

theorem init_pci_data_group_witness:
  "init_pci_data True (Some (''../iommu_groups'' @ CHR ''/'' # ''42'')) = Inr (Some 42)"
  using init_pci_data_group [of "''42''" "''../iommu_groups''"]
  by (simp add: isdigit_def ascii_def nul_def group_path_size_def dec_value_def)

text \<open>
  A link that cannot be read, or one of at least 512 characters, makes the terminating zero be
  written outside the array.
\<close>

theorem init_pci_data_overrun:
  "init_pci_data True link = Inl Group_path_out_of_bounds \<longleftrightarrow>
     (case link of None \<Rightarrow> True | Some t \<Rightarrow> group_path_size \<le> length t)"
  by (auto simp: init_pci_data_def Let_def split: option.splits)

text \<open>
  C30: every run that gets past the two checks of the container, and whose IOMMU could be set,
  closes every descriptor that it opened exactly once, in the reverse order of opening.
\<close>

theorem vfio_closes_in_reverse:
  assumes "ve_alloc e" and "init_pci_data (ve_stat_ok e) (ve_link e) = Inr (Some g)"
    and "ve_version_ok e" "ve_type1 e" "0 \<le> ve_container e" "ve_set_iommu e = 0"
  shows "\<exists>r. vfio_main e = Inr (r, 0) \<and> closed r = rev (opened r)"
proof -
  define r1 where "r1 = \<lparr>opened = [ve_container e, ve_group e g], closed = [], shown = None\<rparr>"
  obtain r' ds where "vfio_device e (ve_container e) (ve_group e g) r1 = Inr r'"
      "opened r' = opened r1 @ ds" "closed r' = closed r1 @ rev ds @ [ve_group e g, ve_container e]"
    using vfio_device_closes [of e "ve_container e" "ve_group e g" r1] by blast
  then show ?thesis
    using assms by (auto simp: vfio_main_def label_err_def label_err0_def opens_def closes_def Let_def r1_def)
qed

theorem vfio_closes_in_reverse_witness:
  "\<exists>r. vfio_main example_vfio = Inr (r, 0) \<and> closed r = rev (opened r)"
proof -
  have "init_pci_data True (Some (''../iommu_groups'' @ CHR ''/'' # ''7'')) = Inr (Some 7)"
    using group_of_link [of "''7''" "''../iommu_groups''"]
    by (simp add: group_path_size_def isdigit_def ascii_def nul_def dec_value_def)
  then have "init_pci_data (ve_stat_ok example_vfio) (ve_link example_vfio) = Inr (Some 7)"
    by (simp add: example_vfio_def)
  then show ?thesis using vfio_closes_in_reverse [of example_vfio 7] by (simp add: example_vfio_def)
qed

text \<open>
  When the IOMMU cannot be set, the error path closes the device descriptor before it was ever
  assigned.
\<close>

theorem vfio_closes_unassigned:
  assumes "ve_alloc e" and "init_pci_data (ve_stat_ok e) (ve_link e) = Inr (Some g)"
    and "ve_version_ok e" "ve_type1 e" "0 \<le> ve_group e g" "ve_viable e" "ve_set_container e = 0"
    and "ve_set_iommu e \<noteq> 0"
  shows "vfio_main e = Inl Uninitialised_dev_fd"
  using assms by (simp add: vfio_main_def label_err1_def Let_def)

theorem vfio_closes_unassigned_witness:
  "vfio_main (example_vfio\<lparr>ve_set_iommu := -1\<rparr>) = Inl Uninitialised_dev_fd"
proof -
  have "init_pci_data True (Some (''../iommu_groups'' @ CHR ''/'' # ''7'')) = Inr (Some 7)"
    using group_of_link [of "''7''" "''../iommu_groups''"]
    by (simp add: group_path_size_def isdigit_def ascii_def nul_def dec_value_def)
  then show ?thesis using vfio_closes_unassigned [of "example_vfio\<lparr>ve_set_iommu := -1\<rparr>" 7]
    by (simp add: example_vfio_def)
qed

end
