(* ===== verification/Svm_Msrpm.thy ===== *)
theory Svm_Msrpm
  imports Cell_Store
begin

unbundle bit_operations_syntax

text \<open>
  The MSR permission map (\<^verbatim>\<open>svm_msrpm_offset\<close> and \<^verbatim>\<open>set_msr_interception\<close> of \<^verbatim>\<open>src/vmx_mod/vmx.c\<close>): two
  bits per model-specific register, sixteen registers per 32-bit word, three ranges of registers.
  The kernel's \<^verbatim>\<open>set_bit\<close> and \<^verbatim>\<open>clear_bit\<close> and its constant \<^verbatim>\<open>MSR_INVALID\<close> are parameters.
\<close>

section \<open>Operations\<close>

definition msrpm_ranges :: "u32 list" where
  "msrpm_ranges = [0, 0xc0000000, 0xc0010000]"

definition MSRS_RANGE_SIZE :: u32 where
  "MSRS_RANGE_SIZE = 2048"

definition MSRS_IN_RANGE :: u32 where
  "MSRS_IN_RANGE = MSRS_RANGE_SIZE * 8 div 2"

text \<open>The loop over the ranges, with its index; \<^term>\<open>None\<close> when no range holds the register.\<close>

fun msrpm_loop :: "nat \<Rightarrow> u32 list \<Rightarrow> u32 \<Rightarrow> u32 option" where
  "msrpm_loop i [] msr = None"
| "msrpm_loop i (r # rs) msr =
     (if msr < r \<or> r + MSRS_IN_RANGE \<le> msr then msrpm_loop (i + 1) rs msr
      else let offset = (msr - r) div 4; offset = offset + of_nat i * MSRS_RANGE_SIZE
           in Some (offset div 4))"

definition svm_msrpm_offset :: "u32 \<Rightarrow> u32 \<Rightarrow> u32" where
  "svm_msrpm_offset MSR_INVALID msr =
     (case msrpm_loop 0 msrpm_ranges msr of None \<Rightarrow> MSR_INVALID | Some offset \<Rightarrow> offset)"

record bit_ops =
  bo_set_bit :: "nat \<Rightarrow> u64 \<Rightarrow> u64"
  bo_clear_bit :: "nat \<Rightarrow> u64 \<Rightarrow> u64"

datatype msr_fault = Msrpm_out_of_bounds | Bug_on

text \<open>The map is read at the offset before the offset is compared with \<^verbatim>\<open>MSR_INVALID\<close>.\<close>

definition set_msr_interception ::
  "bit_ops \<Rightarrow> u32 \<Rightarrow> u32 \<Rightarrow> bool \<Rightarrow> bool \<Rightarrow> u32 list \<Rightarrow> msr_fault + u32 list"
where
  "set_msr_interception ops MSR_INVALID msr read write msrpm =
     (let offset = svm_msrpm_offset MSR_INVALID msr;
          bit_read = 2 * unat (msr AND 0x0f);
          bit_write = 2 * unat (msr AND 0x0f) + 1
      in if length msrpm \<le> unat offset then Inl Msrpm_out_of_bounds
         else if offset = MSR_INVALID then Inl Bug_on
         else
           let tmp = ucast (msrpm ! unat offset) :: u64;
               tmp = (if read then bo_clear_bit ops bit_read tmp else bo_set_bit ops bit_read tmp);
               tmp = (if write then bo_clear_bit ops bit_write tmp else bo_set_bit ops bit_write tmp)
           in Inr (msrpm[unat offset := ucast tmp]))"

section \<open>Positions\<close>

text \<open>
  The registers the map covers, and their number in it: the three ranges one after the other, as
  AMD's manual lays them out, with bits 2n and 2n+1 for register number n.
\<close>

definition covered :: "u32 \<Rightarrow> bool" where
  "covered msr \<longleftrightarrow> unat msr < 0x2000 \<or> unat msr \<in> {0xc0000000..<0xc0002000} \<or>
     unat msr \<in> {0xc0010000..<0xc0012000}"

definition msr_number :: "u32 \<Rightarrow> nat" where
  "msr_number msr =
     (if unat msr < 0x2000 then unat msr
      else if unat msr < 0xc0002000 then 0x2000 + (unat msr - 0xc0000000)
      else 0x4000 + (unat msr - 0xc0010000))"

lemma msr_number_less: "covered msr \<Longrightarrow> msr_number msr < 0x6000"
  by (auto simp: covered_def msr_number_def)

lemma msr_number_inj: "covered a \<Longrightarrow> covered b \<Longrightarrow> msr_number a = msr_number b \<Longrightarrow> a = b"
  by (auto simp: covered_def msr_number_def word_unat_eq_iff split: if_splits)

lemma and_15_mod: "unat (x AND 0x0f) = unat x mod 16" for x :: u32
proof -
  have "x AND 0x0f = take_bit 4 x" by (simp add: take_bit_eq_mask mask_eq_exp_minus_1)
  then have "unat (x AND 0x0f) = take_bit 4 (unat x)" by (simp only: unsigned_take_bit_eq)
  then show ?thesis by (simp add: take_bit_eq_mod)
qed

lemma mod_16_shift: "16 * b \<le> x \<Longrightarrow> (16 * a + (x - 16 * b)) mod 16 = x mod 16" for a b x :: nat
  by (metis le_add_diff_inverse mod_mult_self4)

lemma msr_low_bits:
  assumes "covered msr"
  shows "unat (msr AND 0x0f) = msr_number msr mod 16"
  using assms mod_16_shift [of "0xc000000" "unat msr" "0x200"]
    mod_16_shift [of "0xc001000" "unat msr" "0x400"]
  unfolding and_15_mod covered_def msr_number_def by auto

lemma offset_word:
  assumes "unat x < 0x2000" and "i < 3"
  shows "((x div 4) + of_nat i * 2048) div 4 = (of_nat ((0x2000 * i + unat x) div 16) :: u32)"
proof -
  have i: "i \<in> {0, 1, 2}" using assms(2) by auto
  have "unat ((x div 4) + of_nat i * 2048) = unat x div 4 + i * 2048"
    using assms(1) i by (auto simp: unat_word_ariths unat_div)
  then have "unat (((x div 4) + of_nat i * 2048) div 4) = (0x2000 * i + unat x) div 16"
    by (simp add: unat_div)
  from arg_cong [OF this, of "of_nat :: nat \<Rightarrow> u32"] show ?thesis by simp
qed

lemma msrpm_loop_covered:
  assumes "covered msr"
  shows "msrpm_loop 0 msrpm_ranges msr = Some (of_nat (msr_number msr div 16))"
proof -
  note defs = msrpm_ranges_def MSRS_IN_RANGE_def MSRS_RANGE_SIZE_def msr_number_def
    word_less_nat_alt word_le_nat_alt
  consider "unat msr < 0x2000" | "unat msr \<in> {0xc0000000..<0xc0002000}"
    | "unat msr \<in> {0xc0010000..<0xc0012000}"
    using assms by (auto simp: covered_def)
  then show ?thesis
  proof cases
    case 1
    then show ?thesis using offset_word [of msr 0] by (simp add: defs Let_def)
  next
    case 2
    then have "unat (msr - 0xc0000000) < 0x2000" by (auto simp: unat_sub word_le_nat_alt)
    with 2 show ?thesis using offset_word [of "msr - 0xc0000000" 1]
      by (simp add: defs Let_def unat_sub)
  next
    case 3
    then have "unat (msr - 0xc0010000) < 0x2000" by (auto simp: unat_sub word_le_nat_alt)
    with 3 show ?thesis using offset_word [of "msr - 0xc0010000" 2]
      by (simp add: defs Let_def unat_sub)
  qed
qed

lemma msrpm_loop_uncovered:
  "\<not> covered msr \<Longrightarrow> msrpm_loop 0 msrpm_ranges msr = None"
  by (auto simp: covered_def msrpm_ranges_def MSRS_IN_RANGE_def MSRS_RANGE_SIZE_def
      word_less_nat_alt word_le_nat_alt not_less not_le)

lemma svm_msrpm_offset_covered:
  assumes "covered msr"
  shows "unat (svm_msrpm_offset bad msr) = msr_number msr div 16" "unat (svm_msrpm_offset bad msr) < 0x600"
proof -
  have "msr_number msr div 16 < 0x600" using msr_number_less [OF assms] by simp
  moreover from this have "unat (of_nat (msr_number msr div 16) :: u32) = msr_number msr div 16"
    by (intro unat_of_nat_u32) simp
  ultimately show "unat (svm_msrpm_offset bad msr) = msr_number msr div 16"
    "unat (svm_msrpm_offset bad msr) < 0x600"
    by (simp_all add: svm_msrpm_offset_def msrpm_loop_covered [OF assms])
qed

section \<open>The map as a store of permissions\<close>

text \<open>What the processor reads of the map for a register: is reading, is writing it permitted.\<close>

definition msr_permission :: "u32 list \<Rightarrow> u32 \<Rightarrow> bool \<times> bool" where
  "msr_permission msrpm msr =
     (let w = msrpm ! (msr_number msr div 16); n = 2 * (msr_number msr mod 16)
      in (\<not> bit w n, \<not> bit w (n + 1)))"

definition msrpm_ok :: "u32 list \<Rightarrow> bool" where
  "msrpm_ok msrpm \<longleftrightarrow> 0x600 \<le> length msrpm"

text \<open>The kernel's documented bit operations.\<close>

definition bit_ops_laws :: "bit_ops \<Rightarrow> bool" where
  "bit_ops_laws ops \<longleftrightarrow>
     (\<forall>n w j. n < 64 \<longrightarrow> j < 64 \<longrightarrow> bit (bo_set_bit ops n w) j = (j = n \<or> bit w j)) \<and>
     (\<forall>n w j. n < 64 \<longrightarrow> j < 64 \<longrightarrow> bit (bo_clear_bit ops n w) j = (j \<noteq> n \<and> bit w j))"

lemma set_msr_interception_covered:
  assumes laws: "bit_ops_laws ops" and ok: "msrpm_ok pm" and cov: "covered msr"
    and bad: "0x600 \<le> unat bad"
  obtains w where "set_msr_interception ops bad msr r wr pm = Inr (pm[msr_number msr div 16 := w])"
    and "\<forall>j < 32. bit w j =
      (if j = 2 * (msr_number msr mod 16) then \<not> r
       else if j = 2 * (msr_number msr mod 16) + 1 then \<not> wr
       else bit (pm ! (msr_number msr div 16)) j)"
proof -
  let ?o = "svm_msrpm_offset bad msr" and ?n = "2 * (msr_number msr mod 16)"
  define t0 :: u64 where "t0 = ucast (pm ! unat ?o)"
  define t1 where "t1 = (if r then bo_clear_bit ops ?n t0 else bo_set_bit ops ?n t0)"
  define t2 where "t2 = (if wr then bo_clear_bit ops (?n + 1) t1 else bo_set_bit ops (?n + 1) t1)"
  note off = svm_msrpm_offset_covered [OF cov, of bad]
  have n: "?n < 31" using pos_mod_bound [of 16 "int (msr_number msr)"] by simp
  have "\<not> length pm \<le> unat ?o" "?o \<noteq> bad" using off(2) ok bad by (auto simp: msrpm_ok_def)
  then have "set_msr_interception ops bad msr r wr pm = Inr (pm[msr_number msr div 16 := ucast t2])"
    by (simp add: set_msr_interception_def Let_def msr_low_bits [OF cov] t0_def t1_def t2_def off(1))
  moreover have "bit (ucast t2 :: u32) j =
      (if j = ?n then \<not> r else if j = ?n + 1 then \<not> wr else bit (pm ! (msr_number msr div 16)) j)"
    if j: "j < 32" for j
    using laws j n unfolding bit_ops_laws_def t2_def t1_def t0_def off(1)
    by (auto simp: bit_unsigned_iff)
  ultimately show thesis using that by blast
qed

text \<open>The registers' permission bits do not overlap.\<close>

lemma msr_position_inj:
  assumes "covered a" "covered b" "msr_number a div 16 = msr_number b div 16"
    "msr_number a mod 16 = msr_number b mod 16"
  shows "a = b"
  using assms msr_number_inj by (metis div_mult_mod_eq)

text \<open>The update as a function on maps, for the store's contract.\<close>

definition put_permission :: "bit_ops \<Rightarrow> u32 \<Rightarrow> u32 \<Rightarrow> bool \<times> bool \<Rightarrow> u32 list \<Rightarrow> u32 list" where
  "put_permission ops bad msr p pm =
     (case set_msr_interception ops bad msr (fst p) (snd p) pm of Inl _ \<Rightarrow> pm | Inr pm' \<Rightarrow> pm')"

lemma put_permission_get:
  assumes laws: "bit_ops_laws ops" and bad: "0x600 \<le> unat bad"
    and ok: "msrpm_ok pm" and cov: "covered msr" "covered m"
  shows "msrpm_ok (put_permission ops bad msr p pm)"
    "msr_permission (put_permission ops bad msr p pm) m = (if m = msr then p else msr_permission pm m)"
proof -
  let ?i = "msr_number msr div 16" and ?n = "2 * (msr_number msr mod 16)"
  obtain w where w: "set_msr_interception ops bad msr (fst p) (snd p) pm = Inr (pm[?i := w])"
      "\<forall>j < 32. bit w j = (if j = ?n then \<not> fst p else if j = ?n + 1 then \<not> snd p
        else bit (pm ! ?i) j)"
    using set_msr_interception_covered [OF laws ok cov(1) bad, of "fst p" "snd p"] .
  have len: "?i < length pm" using ok msr_number_less [OF cov(1)] by (simp add: msrpm_ok_def)
  show "msrpm_ok (put_permission ops bad msr p pm)"
    using ok w(1) by (simp add: put_permission_def msrpm_ok_def)
  have small: "2 * (k mod 16) < 31" "2 * (k mod 16) + 1 < 32" for k :: nat
    using mod_less_divisor [of 16 k] by linarith+
  show "msr_permission (put_permission ops bad msr p pm) m = (if m = msr then p else msr_permission pm m)"
  proof (cases "msr_number m div 16 = ?i")
    case True
    define a where "a = msr_number m mod 16"
    define b where "b = msr_number msr mod 16"
    have eq: "m = msr \<longleftrightarrow> a = b"
      using msr_position_inj [OF cov(2,1) True] by (auto simp: a_def b_def)
    have parity: "2 * a \<noteq> 2 * b + 1" "2 * a + 1 \<noteq> 2 * b" by presburger+
    have bits: "bit w (2 * a) = (if a = b then \<not> fst p else bit (pm ! ?i) (2 * a))"
      "bit w (2 * a + 1) = (if a = b then \<not> snd p else bit (pm ! ?i) (2 * a + 1))"
      using w(2) [rule_format, of "2 * a"] w(2) [rule_format, of "2 * a + 1"] small [of "msr_number m"] parity
      unfolding a_def [symmetric] b_def [symmetric] by auto
    have "msr_permission (put_permission ops bad msr p pm) m = (\<not> bit w (2 * a), \<not> bit w (2 * a + 1))"
      using len True w(1) by (simp add: msr_permission_def put_permission_def Let_def a_def)
    moreover have "msr_permission pm m = (\<not> bit (pm ! ?i) (2 * a), \<not> bit (pm ! ?i) (2 * a + 1))"
      using True by (simp add: msr_permission_def Let_def a_def)
    ultimately show ?thesis unfolding bits eq by (cases p) simp
  next
    case False
    then show ?thesis using w(1) by (auto simp: msr_permission_def put_permission_def Let_def)
  qed
qed

locale msr_bit_ops =
  fixes ops :: bit_ops and bad :: u32
  assumes laws: "bit_ops_laws ops" and bad_big: "0x600 \<le> unat bad"

sublocale msr_bit_ops \<subseteq> perms: cell_store msrpm_ok covered msr_permission "put_permission ops bad"
  by unfold_locales (simp_all add: put_permission_get [OF laws bad_big])

text \<open>A sequence of settings, which the code makes one call at a time.\<close>

fun set_msr_interceptions ::
  "bit_ops \<Rightarrow> u32 \<Rightarrow> (u32 \<times> bool \<times> bool) list \<Rightarrow> u32 list \<Rightarrow> msr_fault + u32 list"
where
  "set_msr_interceptions ops bad [] pm = Inr pm"
| "set_msr_interceptions ops bad ((msr, r, w) # ss) pm =
     (case set_msr_interception ops bad msr r w pm of
        Inl f \<Rightarrow> Inl f
      | Inr pm' \<Rightarrow> set_msr_interceptions ops bad ss pm')"

context msr_bit_ops
begin

lemma interceptions_write_all:
  "msrpm_ok pm \<Longrightarrow> \<forall>k \<in> fst ` set ss. covered k \<Longrightarrow>
   set_msr_interceptions ops bad ss pm = Inr (write_all (put_permission ops bad) ss pm)"
proof (induction ss arbitrary: pm)
  case (Cons s ss)
  obtain msr r w where s: "s = (msr, r, w)" by (metis prod_cases3)
  have cov: "covered msr" using Cons.prems s by simp
  obtain x where x: "set_msr_interception ops bad msr r w pm = Inr (pm[msr_number msr div 16 := x])"
    by (rule set_msr_interception_covered [OF laws Cons.prems(1) cov bad_big])
  then have "pm[msr_number msr div 16 := x] = put_permission ops bad msr (r, w) pm"
    by (simp add: put_permission_def)
  with x Cons.IH [OF perms.ok_put [OF Cons.prems(1) cov]] Cons.prems show ?case
    by (simp add: s)
qed simp

lemma interceptions_permissions:
  assumes "msrpm_ok pm" and "\<forall>k \<in> fst ` set ss. covered k" and "covered msr"
  shows "\<exists>pm'. set_msr_interceptions ops bad ss pm = Inr pm' \<and> msrpm_ok pm' \<and>
     msr_permission pm' msr =
       (case last_write ss msr of None \<Rightarrow> msr_permission pm msr | Some p \<Rightarrow> p)"
  using interceptions_write_all [OF assms(1,2)] perms.ok_writes [OF assms(1,2)]
    perms.get_writes [OF assms] by simp

end

text \<open>The library's word operations are such bit operations.\<close>

definition word_bit_ops :: bit_ops where
  "word_bit_ops = \<lparr>bo_set_bit = set_bit, bo_clear_bit = unset_bit\<rparr>"

lemma word_bit_ops_laws: "bit_ops_laws word_bit_ops"
  by (auto simp: bit_ops_laws_def word_bit_ops_def bit_set_bit_iff bit_unset_bit_iff)

interpretation word_msrs: msr_bit_ops word_bit_ops "0xffffffff"
  by unfold_locales (simp_all add: word_bit_ops_laws)

section \<open>Properties\<close>

text \<open>
  C19: the offset of a register that the map covers is the word with its two permission bits,
  always below 0x600 (three ranges of 2048 bytes), and two registers share their word and their
  bits only if they are the same; every other register gives \<^verbatim>\<open>MSR_INVALID\<close>.
\<close>

theorem msrpm_offset_correct:
  "if covered msr
   then unat (svm_msrpm_offset bad msr) = msr_number msr div 16 \<and>
     unat (svm_msrpm_offset bad msr) < 0x600 \<and>
     (covered msr' \<and> svm_msrpm_offset bad msr' = svm_msrpm_offset bad msr \<and>
      msr' AND 0x0f = msr AND 0x0f \<longrightarrow> msr' = msr)
   else svm_msrpm_offset bad msr = bad"
proof (cases "covered msr")
  case True
  have "msr' = msr" if "covered msr'" "svm_msrpm_offset bad msr' = svm_msrpm_offset bad msr"
      "msr' AND 0x0f = msr AND 0x0f"
  proof (rule msr_position_inj [OF that(1) True])
    show "msr_number msr' div 16 = msr_number msr div 16"
      using svm_msrpm_offset_covered(1) [OF that(1), of bad] svm_msrpm_offset_covered(1) [OF True, of bad] that(2)
      by metis
    show "msr_number msr' mod 16 = msr_number msr mod 16"
      using msr_low_bits [OF that(1)] msr_low_bits [OF True] that(3) by metis
  qed
  then show ?thesis unfolding if_P [OF True] using svm_msrpm_offset_covered [OF True, of bad] by blast
next
  case False
  then show ?thesis unfolding if_not_P [OF False] by (simp add: svm_msrpm_offset_def msrpm_loop_uncovered)
qed

theorem msrpm_offset_correct_witness:
  "unat (svm_msrpm_offset 0xffffffff 0xc0000102) = 0x210"
proof -
  have c: "covered 0xc0000102" by (simp add: covered_def)
  have "msr_number 0xc0000102 = 0x2102" by (simp add: msr_number_def)
  then show ?thesis using msrpm_offset_correct [of "0xc0000102" "0xffffffff" "0xc0000102"] c by simp
qed

text \<open>
  C12: setting the interception of any sequence of covered registers succeeds; afterwards every
  covered register has exactly the read and write permission that the last setting for it asked
  for, and the registers that no setting names keep theirs.
\<close>

theorem set_msr_interceptions_permissions:
  assumes "bit_ops_laws ops" and "0x600 \<le> unat bad" and "msrpm_ok pm"
    and "\<forall>k \<in> fst ` set ss. covered k" and "covered msr"
  shows "\<exists>pm'. set_msr_interceptions ops bad ss pm = Inr pm' \<and> msrpm_ok pm' \<and>
     msr_permission pm' msr =
       (case last_write ss msr of None \<Rightarrow> msr_permission pm msr | Some p \<Rightarrow> p)"
proof -
  have "msr_bit_ops ops bad" using assms(1,2) by unfold_locales
  from msr_bit_ops.interceptions_permissions [OF this assms(3-5)] show ?thesis .
qed

theorem set_msr_interceptions_permissions_witness:
  "\<exists>pm'. set_msr_interceptions word_bit_ops 0xffffffff
            [(0x174, True, True), (0xc0000082, False, True), (0x174, True, False)] (replicate 2048 0) = Inr pm' \<and>
     msr_permission pm' 0x174 = (True, False)"
proof -
  have "msrpm_ok (replicate 2048 0)" "covered 0x174" "covered 0xc0000082"
    by (simp_all add: msrpm_ok_def covered_def)
  then show ?thesis
    using set_msr_interceptions_permissions [OF word_bit_ops_laws, of "0xffffffff" "replicate 2048 0"
        "[(0x174, True, True), (0xc0000082, False, True), (0x174, True, False)]" "0x174"]
    by (auto simp: last_write_def)
qed

text \<open>
  For a register outside the three ranges the check comes too late: the map is read at the
  index \<^verbatim>\<open>MSR_INVALID\<close> before \<^verbatim>\<open>BUG_ON\<close> can stop it.
\<close>

theorem set_msr_invalid_reads_outside:
  assumes "\<not> covered msr" and "bad = 0xffffffff" and "length pm \<le> 0xffffffff"
  shows "set_msr_interception ops bad msr r w pm = Inl Msrpm_out_of_bounds"
  using assms by (simp add: set_msr_interception_def svm_msrpm_offset_def msrpm_loop_uncovered Let_def)

theorem set_msr_invalid_reads_outside_witness:
  "set_msr_interception word_bit_ops 0xffffffff 0x40000000 True True (replicate 2048 0) =
     Inl Msrpm_out_of_bounds"
  by (rule set_msr_invalid_reads_outside) (simp_all add: covered_def)

end
