(* ===== verification/Svm_Vmcb.thy ===== *)
theory Svm_Vmcb
  imports Cell_Store Svm_Descriptors
begin

unbundle bit_operations_syntax

text \<open>
  The control block of a virtual CPU (\<^verbatim>\<open>src/vmx_mod/vmcs.h\<close>, \<^verbatim>\<open>src/vmx_mod/vmx.c\<close>): the register file,
  the guest configuration, the intercepts, and how the configuration reaches the control block.
  The structures \<^verbatim>\<open>vmcb\<close> and \<^verbatim>\<open>svm_vcpu\<close> are not declared in the sources: the records have the
  fields that the code uses, at the widths of the kernel's \<^verbatim>\<open>asm/svm.h\<close>. Constants of kernel
  headers, address translation and the state of the host CPU are parameters.
\<close>

section \<open>State\<close>

datatype x86_reg =
    VCPU_REGS_RAX | VCPU_REGS_RCX | VCPU_REGS_RDX | VCPU_REGS_RBX
  | VCPU_REGS_RSP | VCPU_REGS_RBP | VCPU_REGS_RSI | VCPU_REGS_RDI
  | VCPU_REGS_R8 | VCPU_REGS_R9 | VCPU_REGS_R10 | VCPU_REGS_R11
  | VCPU_REGS_R12 | VCPU_REGS_R13 | VCPU_REGS_R14 | VCPU_REGS_R15
  | VCPU_REGS_RIP

fun reg_index :: "x86_reg \<Rightarrow> nat" where
  "reg_index VCPU_REGS_RAX = 0" | "reg_index VCPU_REGS_RCX = 1"
| "reg_index VCPU_REGS_RDX = 2" | "reg_index VCPU_REGS_RBX = 3"
| "reg_index VCPU_REGS_RSP = 4" | "reg_index VCPU_REGS_RBP = 5"
| "reg_index VCPU_REGS_RSI = 6" | "reg_index VCPU_REGS_RDI = 7"
| "reg_index VCPU_REGS_R8 = 8" | "reg_index VCPU_REGS_R9 = 9"
| "reg_index VCPU_REGS_R10 = 10" | "reg_index VCPU_REGS_R11 = 11"
| "reg_index VCPU_REGS_R12 = 12" | "reg_index VCPU_REGS_R13 = 13"
| "reg_index VCPU_REGS_R14 = 14" | "reg_index VCPU_REGS_R15 = 15"
| "reg_index VCPU_REGS_RIP = 16"

definition NR_REGS :: nat where
  "NR_REGS = 17"

record user_regs =
  ur_rax :: u64
  ur_rbx :: u64
  ur_rcx :: u64
  ur_rdx :: u64
  ur_rsi :: u64
  ur_rdi :: u64
  ur_rsp :: u64
  ur_rbp :: u64
  ur_r8 :: u64
  ur_r9 :: u64
  ur_r10 :: u64
  ur_r11 :: u64
  ur_r12 :: u64
  ur_r13 :: u64
  ur_r14 :: u64
  ur_r15 :: u64
  ur_rip :: u64
  ur_rflags :: u64

record descriptor =
  dt_base :: u64
  dt_limit :: u16
  dt_padding :: "u16 list"

record sys_regs =
  sr_cs :: segment
  sr_ds :: segment
  sr_es :: segment
  sr_fs :: segment
  sr_gs :: segment
  sr_ss :: segment
  sr_tr :: segment
  sr_ldt :: segment
  sr_gdt :: descriptor
  sr_idt :: descriptor
  sr_cr0 :: u64
  sr_cr2 :: u64
  sr_cr3 :: u64
  sr_cr4 :: u64
  sr_cr8 :: u64
  sr_efer :: u64
  sr_apic_base :: u64
  sr_interrupt_bitmap :: "u64 list"

record svm_config =
  svm_user_regs :: user_regs
  svm_sys_regs :: sys_regs

record vmcb_seg =
  vs_selector :: u16
  vs_attrib :: u16
  vs_limit :: u32
  vs_base :: u64

record vmcb_control =
  vc_intercept :: u64
  vc_iopm_base_pa :: u64
  vc_msrpm_base_pa :: u64
  vc_asid :: u32
  vc_int_ctl :: u32
  vc_nested_ctl :: u64
  vc_nested_cr3 :: u64
  vc_virt_ext :: u64

record vmcb_save =
  vm_es :: vmcb_seg
  vm_cs :: vmcb_seg
  vm_ss :: vmcb_seg
  vm_ds :: vmcb_seg
  vm_fs :: vmcb_seg
  vm_gs :: vmcb_seg
  vm_gdtr :: vmcb_seg
  vm_idtr :: vmcb_seg
  vm_tr :: vmcb_seg
  vm_cpl :: u8
  vm_efer :: u64
  vm_cr4 :: u64
  vm_cr3 :: u64
  vm_cr0 :: u64
  vm_dr7 :: u64
  vm_dr6 :: u64
  vm_rflags :: u64
  vm_rip :: u64
  vm_rsp :: u64
  vm_star :: u64
  vm_lstar :: u64
  vm_cstar :: u64
  vm_sfmask :: u64
  vm_kernel_gs_base :: u64
  vm_dbgctl :: u64

record svm_vcpu =
  vcpu_control :: vmcb_control
  vcpu_save :: vmcb_save
  vcpu_asid :: int
  vcpu_regs :: "u64 list"
  vcpu_io_bitmap :: u64
  vcpu_msrpm :: u64

text \<open>Constants and services of the kernel.\<close>

datatype intercept_name =
    INTERCEPT_INTR | INTERCEPT_NMI | INTERCEPT_SMI | INTERCEPT_SELECTIVE_CR0 | INTERCEPT_RDPMC
  | INTERCEPT_INVD | INTERCEPT_HLT | INTERCEPT_INVLPG | INTERCEPT_INVLPGA | INTERCEPT_IOIO_PROT
  | INTERCEPT_MSR_PROT | INTERCEPT_TASK_SWITCH | INTERCEPT_SHUTDOWN | INTERCEPT_VMRUN
  | INTERCEPT_VMMCALL | INTERCEPT_VMSAVE | INTERCEPT_STGI | INTERCEPT_CLGI | INTERCEPT_SKINIT
  | INTERCEPT_WBINVD | INTERCEPT_MONITOR | INTERCEPT_MWAIT | INTERCEPT_XSETBV

datatype ctl_flag =
    X86_CR0_PE | X86_CR0_PG | X86_CR0_ET | X86_CR0_NE
  | X86_CR4_PAE | X86_CR4_PGE | X86_CR4_OSFXSR | X86_CR4_OSXMMEXCPT | X86_CR4_FSGSBASE | X86_CR4_OSXSAVE
  | EFER_NX | EFER_SVME | EFER_LME | EFER_LMA | EFER_SCE | EFER_FFXSR

record svm_kernel =
  k_layout :: sel_layout
  k_intercept :: "intercept_name \<Rightarrow> nat"
  k_flag :: "ctl_flag \<Rightarrow> u64"
  k_intr_masking :: u32
  k_virt_to_phys :: "u64 \<Rightarrow> u64"
  KERNEL_CS :: u16
  KERNEL_DS :: u16

text \<open>What the code reads of the CPU it runs on.\<close>

record host_cpu =
  host_cr3 :: u64
  msr_gs_base :: u64
  msr_fs_base :: u64
  msr_kernel_gs_base :: u64
  msr_star :: u64
  msr_lstar :: u64
  msr_cstar :: u64
  msr_syscall_mask :: u64
  host_gs_sel :: u16
  host_fs_sel :: u16
  sgdt_limit :: u16
  sidt_base :: u64
  sidt_limit :: u16
  cpu_gdt_rw :: u64

section \<open>Intercepts\<close>

definition set_intercept :: "nat \<Rightarrow> vmcb_control \<Rightarrow> vmcb_control" where
  "set_intercept n c = c\<lparr>vc_intercept := vc_intercept c OR push_bit n 1\<rparr>"

definition clr_intercept :: "nat \<Rightarrow> vmcb_control \<Rightarrow> vmcb_control" where
  "clr_intercept n c = c\<lparr>vc_intercept := vc_intercept c AND NOT (push_bit n 1)\<rparr>"

text \<open>The intercepts of \<^verbatim>\<open>svm_init_vmcb\<close>, in the order of the calls.\<close>

definition init_intercepts :: "intercept_name list" where
  "init_intercepts =
     [INTERCEPT_INTR, INTERCEPT_NMI, INTERCEPT_SMI, INTERCEPT_SELECTIVE_CR0, INTERCEPT_RDPMC,
      INTERCEPT_INVD, INTERCEPT_HLT, INTERCEPT_INVLPG, INTERCEPT_INVLPGA, INTERCEPT_IOIO_PROT,
      INTERCEPT_MSR_PROT, INTERCEPT_TASK_SWITCH, INTERCEPT_SHUTDOWN, INTERCEPT_VMRUN,
      INTERCEPT_VMMCALL, INTERCEPT_VMSAVE, INTERCEPT_STGI, INTERCEPT_CLGI, INTERCEPT_SKINIT,
      INTERCEPT_WBINVD, INTERCEPT_MONITOR, INTERCEPT_MWAIT, INTERCEPT_XSETBV]"

definition svm_init_vmcb :: "svm_kernel \<Rightarrow> svm_vcpu \<Rightarrow> svm_vcpu" where
  "svm_init_vmcb k svm =
     (let c = (vcpu_control svm)
                \<lparr>vc_asid := of_int (vcpu_asid svm), vc_int_ctl := k_intr_masking k,
                 vc_nested_ctl := 0, vc_nested_cr3 := 0,
                 vc_iopm_base_pa := k_virt_to_phys k (vcpu_io_bitmap svm),
                 vc_msrpm_base_pa := k_virt_to_phys k (vcpu_msrpm svm), vc_virt_ext := 0\<rparr>
      in svm\<lparr>vcpu_save := (vcpu_save svm)\<lparr>vm_dbgctl := 0\<rparr>,
             vcpu_control := fold (\<lambda>i. set_intercept (k_intercept k i)) init_intercepts c\<rparr>)"

section \<open>Host state in the control block\<close>

definition vmsave_load_state :: "host_cpu \<Rightarrow> vmcb_save \<Rightarrow> vmcb_save" where
  "vmsave_load_state h s =
     s\<lparr>vm_kernel_gs_base := msr_kernel_gs_base h, vm_star := msr_star h, vm_lstar := msr_lstar h,
       vm_cstar := msr_cstar h, vm_sfmask := msr_syscall_mask h,
       vm_gs := (vm_gs s)\<lparr>vs_selector := host_gs_sel h, vs_base := msr_gs_base h\<rparr>,
       vm_fs := (vm_fs s)\<lparr>vs_selector := host_fs_sel h, vs_base := msr_fs_base h\<rparr>\<rparr>"

definition svm_dt_set :: "host_cpu \<Rightarrow> vmcb_save \<Rightarrow> vmcb_save" where
  "svm_dt_set h s =
     s\<lparr>vm_gdtr := (vm_gdtr s)\<lparr>vs_base := cpu_gdt_rw h, vs_limit := ucast (sgdt_limit h)\<rparr>,
       vm_idtr := (vm_idtr s)\<lparr>vs_base := sidt_base h, vs_limit := ucast (sidt_limit h)\<rparr>\<rparr>"

section \<open>Guest registers\<close>

definition set_reg :: "x86_reg \<Rightarrow> u64 \<Rightarrow> u64 list \<Rightarrow> u64 list" where
  "set_reg r v regs = regs[reg_index r := v]"

text \<open>The assignments to \<^verbatim>\<open>svm->regs\<close>, in order; RDI is assigned twice.\<close>

definition user_writes :: "user_regs \<Rightarrow> (x86_reg \<times> u64) list" where
  "user_writes u =
     [(VCPU_REGS_RAX, ur_rax u), (VCPU_REGS_RBX, ur_rbx u), (VCPU_REGS_RCX, ur_rcx u),
      (VCPU_REGS_RDX, ur_rdx u), (VCPU_REGS_RSI, ur_rsi u), (VCPU_REGS_RDI, ur_rdi u),
      (VCPU_REGS_RDI, ur_rdi u), (VCPU_REGS_RBP, ur_rbp u), (VCPU_REGS_R8, ur_r8 u),
      (VCPU_REGS_R9, ur_r9 u), (VCPU_REGS_R10, ur_r10 u), (VCPU_REGS_R11, ur_r11 u),
      (VCPU_REGS_R12, ur_r12 u), (VCPU_REGS_R13, ur_r13 u), (VCPU_REGS_R14, ur_r14 u),
      (VCPU_REGS_R15, ur_r15 u), (VCPU_REGS_RIP, ur_rip u), (VCPU_REGS_RSP, ur_rsp u)]"

text \<open>One guest segment: the attribute word is 16 bits wide in the control block.\<close>

definition load_seg :: "sel_layout \<Rightarrow> segment \<Rightarrow> vmcb_seg" where
  "load_seg l g = \<lparr>vs_selector = seg_selector g, vs_attrib = ucast (svm_segment_access_rights l g),
                   vs_limit = seg_limit g, vs_base = seg_base g\<rparr>"

definition load_sys_regs :: "svm_kernel \<Rightarrow> svm_config \<Rightarrow> vmcb_save \<Rightarrow> vmcb_save" where
  "load_sys_regs k conf s =
     (let y = svm_sys_regs conf; l = k_layout k in
      s\<lparr>vm_rip := ur_rip (svm_user_regs conf), vm_rsp := ur_rsp (svm_user_regs conf),
        vm_rflags := ur_rflags (svm_user_regs conf),
        vm_cr0 := sr_cr0 y, vm_cr3 := sr_cr3 y, vm_cr4 := sr_cr4 y, vm_efer := sr_efer y,
        vm_dr7 := 0, vm_dr6 := 0, vm_cpl := 0,
        vm_cs := load_seg l (sr_cs y), vm_ds := load_seg l (sr_ds y), vm_es := load_seg l (sr_es y),
        vm_gs := load_seg l (sr_gs y), vm_fs := load_seg l (sr_fs y), vm_ss := load_seg l (sr_ss y),
        vm_gdtr := (vm_gdtr s)\<lparr>vs_base := dt_base (sr_gdt y), vs_limit := ucast (dt_limit (sr_gdt y))\<rparr>,
        vm_idtr := (vm_idtr s)\<lparr>vs_base := dt_base (sr_idt y), vs_limit := ucast (dt_limit (sr_idt y))\<rparr>,
        vm_tr := (vm_tr s)\<lparr>vs_base := seg_base (sr_tr y),
                           vs_attrib := ucast (svm_segment_access_rights l (sr_tr y)),
                           vs_limit := seg_limit (sr_tr y)\<rparr>\<rparr>)"

definition setup_guest_regs ::
  "svm_kernel \<Rightarrow> host_cpu \<Rightarrow> svm_config \<Rightarrow> svm_vcpu \<Rightarrow> svm_vcpu \<times> int"
where
  "setup_guest_regs k h conf svm =
     (svm\<lparr>vcpu_asid := 1,
          vcpu_regs := write_all set_reg (user_writes (svm_user_regs conf)) (vcpu_regs svm),
          vcpu_save := svm_dt_set h (vmsave_load_state h (load_sys_regs k conf (vcpu_save svm)))\<rparr>, 0)"

section \<open>The default configuration\<close>

definition cr0 :: "svm_kernel \<Rightarrow> u64" where
  "cr0 k = k_flag k X86_CR0_PE OR k_flag k X86_CR0_PG OR k_flag k X86_CR0_ET OR k_flag k X86_CR0_NE"

definition cr4 :: "svm_kernel \<Rightarrow> u64" where
  "cr4 k = k_flag k X86_CR4_PAE OR k_flag k X86_CR4_PGE OR k_flag k X86_CR4_OSFXSR
     OR k_flag k X86_CR4_OSXMMEXCPT OR k_flag k X86_CR4_FSGSBASE OR k_flag k X86_CR4_OSXSAVE"

definition efer :: "svm_kernel \<Rightarrow> u64" where
  "efer k = k_flag k EFER_NX OR k_flag k EFER_SVME OR k_flag k EFER_LME OR k_flag k EFER_LMA
     OR k_flag k EFER_SCE OR k_flag k EFER_FFXSR"

text \<open>The eight attribute assignments that every segment gets, with the values that differ.\<close>

definition set_attrs :: "u8 \<Rightarrow> u8 \<Rightarrow> u8 \<Rightarrow> u8 \<Rightarrow> segment \<Rightarrow> segment" where
  "set_attrs type s l g v =
     v\<lparr>seg_type := type, seg_s := s, seg_dpl := 0, seg_present := 1, seg_avl := 0, seg_l := l,
       seg_db := 0, seg_g := g\<rparr>"

text \<open>\<^verbatim>\<open>gs.base\<close> and the \<^verbatim>\<open>unusable\<close> flags are not assigned, and keep what the caller's memory held.\<close>

definition svm_config_init :: "svm_kernel \<Rightarrow> host_cpu \<Rightarrow> svm_config \<Rightarrow> svm_config \<times> int" where
  "svm_config_init k h conf =
     (let y = svm_sys_regs conf in
      (conf\<lparr>svm_sys_regs := y\<lparr>
         sr_cr3 := host_cr3 h, sr_cr0 := cr0 k, sr_cr4 := cr4 k, sr_efer := efer k,
         sr_cs := (set_attrs 0xb 1 1 1 (sr_cs y))
           \<lparr>seg_base := 0, seg_limit := 0xffffffff, seg_selector := KERNEL_CS k\<rparr>,
         sr_ds := (set_attrs 0x3 1 1 1 (sr_ds y))
           \<lparr>seg_base := 0, seg_limit := 0xffffffff, seg_selector := KERNEL_DS k\<rparr>,
         sr_es := (set_attrs 0x3 1 1 1 (sr_es y))
           \<lparr>seg_base := 0, seg_limit := 0xffffffff, seg_selector := KERNEL_DS k\<rparr>,
         sr_fs := (set_attrs 0x3 1 1 1 (sr_fs y))
           \<lparr>seg_base := 0, seg_limit := 0xffffffff, seg_selector := 0\<rparr>,
         sr_gs := (set_attrs 0x3 1 1 1 (sr_gs y))
           \<lparr>seg_limit := 0xffffffff, seg_selector := 0\<rparr>,
         sr_ss := (set_attrs 0x3 1 1 1 (sr_ss y))
           \<lparr>seg_base := 0, seg_limit := 0xffffffff, seg_selector := KERNEL_DS k\<rparr>,
         sr_ldt := (set_attrs 0x2 0 0 0 (sr_ldt y))
           \<lparr>seg_base := 0, seg_limit := 0, seg_selector := 0\<rparr>,
         sr_tr := (set_attrs 0xb 0 0 0 (sr_tr y))
           \<lparr>seg_base := 0, seg_limit := 0xff, seg_selector := 0\<rparr>\<rparr>\<rparr>, 0))"

section \<open>Registers and intercepts as stores\<close>

lemma reg_index_less: "reg_index r < NR_REGS"
  by (cases r) (simp_all add: NR_REGS_def)

lemma reg_index_inj: "reg_index r = reg_index q \<longleftrightarrow> r = q"
  by (cases r; cases q) simp_all

definition regs_ok :: "u64 list \<Rightarrow> bool" where
  "regs_ok regs \<longleftrightarrow> length regs = NR_REGS"

definition get_reg :: "u64 list \<Rightarrow> x86_reg \<Rightarrow> u64" where
  "get_reg regs r = regs ! reg_index r"

interpretation reg_file: cell_store regs_ok "\<lambda>_. True" get_reg set_reg
  by unfold_locales
    (auto simp: regs_ok_def get_reg_def set_reg_def reg_index_less reg_index_inj nth_list_update)

definition intercepted :: "vmcb_control \<Rightarrow> nat \<Rightarrow> bool" where
  "intercepted c n = bit (vc_intercept c) n"

definition put_intercept :: "nat \<Rightarrow> bool \<Rightarrow> vmcb_control \<Rightarrow> vmcb_control" where
  "put_intercept n b = (if b then set_intercept n else clr_intercept n)"

lemma bit_push_bit_one: "n < 64 \<Longrightarrow> bit (push_bit n 1 :: u64) j \<longleftrightarrow> j = n"
  unfolding bit_push_bit_iff bit_1_iff by auto

interpretation intercepts: cell_store "\<lambda>_. True" "\<lambda>n. n < 64" intercepted put_intercept
proof unfold_locales
  fix c n j b assume "n < (64 :: nat)" "j < (64 :: nat)"
  then show "intercepted (put_intercept n b c) j = (if j = n then b else intercepted c j)"
    unfolding intercepted_def put_intercept_def set_intercept_def clr_intercept_def
    by (cases b) (simp_all add: bit_or_iff bit_and_iff bit_not_iff bit_push_bit_one del: push_bit_of_1)
qed simp

lemma set_intercepts_write_all:
  "fold (\<lambda>i. set_intercept (f i)) is c = write_all put_intercept (map (\<lambda>n. (n, True)) (map f is)) c"
  by (induction "is" arbitrary: c) (simp_all add: put_intercept_def)

lemma set_intercepts_frame:
  "fold (\<lambda>i. set_intercept (f i)) is c =
     c\<lparr>vc_intercept := vc_intercept (fold (\<lambda>i. set_intercept (f i)) is c)\<rparr>"
proof (induction "is" arbitrary: c)
  case (Cons i js)
  show ?case by (subst (1) fold_simps, subst Cons.IH) (simp add: set_intercept_def)
qed simp

text \<open>The value each register gets from the configuration.\<close>

fun user_reg :: "user_regs \<Rightarrow> x86_reg \<Rightarrow> u64" where
  "user_reg u VCPU_REGS_RAX = ur_rax u" | "user_reg u VCPU_REGS_RCX = ur_rcx u"
| "user_reg u VCPU_REGS_RDX = ur_rdx u" | "user_reg u VCPU_REGS_RBX = ur_rbx u"
| "user_reg u VCPU_REGS_RSP = ur_rsp u" | "user_reg u VCPU_REGS_RBP = ur_rbp u"
| "user_reg u VCPU_REGS_RSI = ur_rsi u" | "user_reg u VCPU_REGS_RDI = ur_rdi u"
| "user_reg u VCPU_REGS_R8 = ur_r8 u" | "user_reg u VCPU_REGS_R9 = ur_r9 u"
| "user_reg u VCPU_REGS_R10 = ur_r10 u" | "user_reg u VCPU_REGS_R11 = ur_r11 u"
| "user_reg u VCPU_REGS_R12 = ur_r12 u" | "user_reg u VCPU_REGS_R13 = ur_r13 u"
| "user_reg u VCPU_REGS_R14 = ur_r14 u" | "user_reg u VCPU_REGS_R15 = ur_r15 u"
| "user_reg u VCPU_REGS_RIP = ur_rip u"

lemma last_user_write: "last_write (user_writes u) r = Some (user_reg u r)"
  by (cases r) (simp_all add: last_write_def user_writes_def)

lemma user_writes_regs:
  assumes "regs_ok regs"
  shows "regs_ok (write_all set_reg (user_writes u) regs)"
    "get_reg (write_all set_reg (user_writes u) regs) r = user_reg u r"
  using reg_file.ok_writes [OF assms] reg_file.get_writes [OF assms, of "user_writes u" r]
  by (simp_all add: last_user_write)

lemma default_attribs:
  assumes "seg_unusable v = 0"
  shows "svm_segment_access_rights amd_layout (set_attrs 0xb 1 1 1 v) = 0xabb"
    "svm_segment_access_rights amd_layout (set_attrs 0x3 1 1 1 v) = 0xab3"
    "svm_segment_access_rights amd_layout (set_attrs 0xb 0 0 0 v) = 0x8b"
  using assms by (simp_all add: svm_segment_access_rights_def set_attrs_def amd_layout_def)

lemma access_rights_cong:
  assumes "seg_type v = seg_type v'" "seg_present v = seg_present v'" "seg_s v = seg_s v'"
    "seg_avl v = seg_avl v'" "seg_l v = seg_l v'" "seg_db v = seg_db v'" "seg_g v = seg_g v'"
    "seg_unusable v = seg_unusable v'"
  shows "svm_segment_access_rights l v = svm_segment_access_rights l v'"
  using assms by (simp add: svm_segment_access_rights_def)

lemma load_seg_default:
  assumes "seg_unusable v = 0"
  shows "vs_attrib (load_seg amd_layout ((set_attrs 0xb 1 1 1 v)\<lparr>seg_base := b, seg_limit := n, seg_selector := x\<rparr>)) = 0xabb"
    "vs_attrib (load_seg amd_layout ((set_attrs 0x3 1 1 1 v)\<lparr>seg_base := b, seg_limit := n, seg_selector := x\<rparr>)) = 0xab3"
  using default_attribs [OF assms]
    access_rights_cong [of "(set_attrs 0xb 1 1 1 v)\<lparr>seg_base := b, seg_limit := n, seg_selector := x\<rparr>"
      "set_attrs 0xb 1 1 1 v" amd_layout]
    access_rights_cong [of "(set_attrs 0x3 1 1 1 v)\<lparr>seg_base := b, seg_limit := n, seg_selector := x\<rparr>"
      "set_attrs 0x3 1 1 1 v" amd_layout]
  by (simp_all add: load_seg_def)

text \<open>A kernel with AMD's numbers and a virtual CPU and a configuration of zeros, for the witnesses.\<close>

fun amd_intercept :: "intercept_name \<Rightarrow> nat" where
  "amd_intercept INTERCEPT_INTR = 0" | "amd_intercept INTERCEPT_NMI = 1"
| "amd_intercept INTERCEPT_SMI = 2" | "amd_intercept INTERCEPT_SELECTIVE_CR0 = 5"
| "amd_intercept INTERCEPT_RDPMC = 15" | "amd_intercept INTERCEPT_INVD = 22"
| "amd_intercept INTERCEPT_HLT = 24" | "amd_intercept INTERCEPT_INVLPG = 25"
| "amd_intercept INTERCEPT_INVLPGA = 26" | "amd_intercept INTERCEPT_IOIO_PROT = 27"
| "amd_intercept INTERCEPT_MSR_PROT = 28" | "amd_intercept INTERCEPT_TASK_SWITCH = 29"
| "amd_intercept INTERCEPT_SHUTDOWN = 31" | "amd_intercept INTERCEPT_VMRUN = 32"
| "amd_intercept INTERCEPT_VMMCALL = 33" | "amd_intercept INTERCEPT_VMSAVE = 35"
| "amd_intercept INTERCEPT_STGI = 36" | "amd_intercept INTERCEPT_CLGI = 37"
| "amd_intercept INTERCEPT_SKINIT = 38" | "amd_intercept INTERCEPT_WBINVD = 41"
| "amd_intercept INTERCEPT_MONITOR = 42" | "amd_intercept INTERCEPT_MWAIT = 43"
| "amd_intercept INTERCEPT_XSETBV = 45"

definition example_kernel :: svm_kernel where
  "example_kernel = \<lparr>k_layout = amd_layout, k_intercept = amd_intercept, k_flag = (\<lambda>_. 0),
     k_intr_masking = 0x1000000, k_virt_to_phys = (\<lambda>a. a), KERNEL_CS = 0x10, KERNEL_DS = 0x18\<rparr>"

definition zero_seg :: segment where
  "zero_seg = \<lparr>seg_base = 0, seg_limit = 0, seg_selector = 0, seg_type = 0, seg_present = 0, seg_dpl = 0,
     seg_db = 0, seg_s = 0, seg_l = 0, seg_g = 0, seg_avl = 0, seg_unusable = 0, seg_padding = 0\<rparr>"

definition zero_dt :: descriptor where
  "zero_dt = \<lparr>dt_base = 0, dt_limit = 0, dt_padding = [0, 0, 0]\<rparr>"

definition example_config :: svm_config where
  "example_config = \<lparr>svm_user_regs = \<lparr>ur_rax = 1, ur_rbx = 2, ur_rcx = 3, ur_rdx = 4, ur_rsi = 5, ur_rdi = 6,
       ur_rsp = 7, ur_rbp = 8, ur_r8 = 9, ur_r9 = 10, ur_r10 = 11, ur_r11 = 12, ur_r12 = 13, ur_r13 = 14,
       ur_r14 = 15, ur_r15 = 16, ur_rip = 17, ur_rflags = 2\<rparr>,
     svm_sys_regs = \<lparr>sr_cs = zero_seg, sr_ds = zero_seg, sr_es = zero_seg, sr_fs = zero_seg, sr_gs = zero_seg,
       sr_ss = zero_seg, sr_tr = zero_seg, sr_ldt = zero_seg, sr_gdt = zero_dt, sr_idt = zero_dt, sr_cr0 = 0,
       sr_cr2 = 0, sr_cr3 = 0, sr_cr4 = 0, sr_cr8 = 0, sr_efer = 0, sr_apic_base = 0,
       sr_interrupt_bitmap = [0, 0, 0, 0]\<rparr>\<rparr>"

definition example_host :: host_cpu where
  "example_host = \<lparr>host_cr3 = 0x1000, msr_gs_base = 1, msr_fs_base = 2, msr_kernel_gs_base = 3, msr_star = 4,
     msr_lstar = 5, msr_cstar = 6, msr_syscall_mask = 7, host_gs_sel = 8, host_fs_sel = 9, sgdt_limit = 0x7f,
     sidt_base = 0xfff0, sidt_limit = 0xfff, cpu_gdt_rw = 0xff00\<rparr>"

definition example_vcpu :: svm_vcpu where
  "example_vcpu =
     (let z = \<lparr>vs_selector = 0, vs_attrib = 0, vs_limit = 0, vs_base = 0\<rparr> in
      \<lparr>vcpu_control = \<lparr>vc_intercept = 0, vc_iopm_base_pa = 0, vc_msrpm_base_pa = 0, vc_asid = 0, vc_int_ctl = 0,
         vc_nested_ctl = 0, vc_nested_cr3 = 0, vc_virt_ext = 0\<rparr>,
       vcpu_save = \<lparr>vm_es = z, vm_cs = z, vm_ss = z, vm_ds = z, vm_fs = z, vm_gs = z, vm_gdtr = z, vm_idtr = z,
         vm_tr = z, vm_cpl = 0, vm_efer = 0, vm_cr4 = 0, vm_cr3 = 0, vm_cr0 = 0, vm_dr7 = 0, vm_dr6 = 0,
         vm_rflags = 0, vm_rip = 0, vm_rsp = 0, vm_star = 0, vm_lstar = 0, vm_cstar = 0, vm_sfmask = 0,
         vm_kernel_gs_base = 0, vm_dbgctl = 0\<rparr>,
       vcpu_asid = 1, vcpu_regs = replicate NR_REGS 0, vcpu_io_bitmap = 0x2000, vcpu_msrpm = 0x3000\<rparr>)"

lemma example_vcpu_regs: "regs_ok (vcpu_regs example_vcpu)"
  by (simp add: example_vcpu_def regs_ok_def Let_def)

section \<open>Properties\<close>

text \<open>
  Initialising the control block turns on exactly the listed intercepts, keeps those that were
  on, sets the address space, the bitmap addresses and the zeroed fields, and changes nothing else
  of the virtual CPU but the debug control.
\<close>

theorem svm_init_vmcb_intercepts:
  assumes "\<forall>i \<in> set init_intercepts. k_intercept k i < 64" and "n < 64"
  shows "intercepted (vcpu_control (svm_init_vmcb k svm)) n =
       (n \<in> k_intercept k ` set init_intercepts \<or> intercepted (vcpu_control svm) n) \<and>
     vcpu_control (svm_init_vmcb k svm) =
       (vcpu_control svm)\<lparr>vc_asid := of_int (vcpu_asid svm), vc_int_ctl := k_intr_masking k,
          vc_nested_ctl := 0, vc_nested_cr3 := 0,
          vc_iopm_base_pa := k_virt_to_phys k (vcpu_io_bitmap svm),
          vc_msrpm_base_pa := k_virt_to_phys k (vcpu_msrpm svm), vc_virt_ext := 0,
          vc_intercept := vc_intercept (vcpu_control (svm_init_vmcb k svm))\<rparr> \<and>
     svm_init_vmcb k svm =
       svm\<lparr>vcpu_control := vcpu_control (svm_init_vmcb k svm),
           vcpu_save := (vcpu_save svm)\<lparr>vm_dbgctl := 0\<rparr>\<rparr>"
proof -
  define c where "c = (vcpu_control svm)\<lparr>vc_asid := of_int (vcpu_asid svm), vc_int_ctl := k_intr_masking k,
     vc_nested_ctl := 0, vc_nested_cr3 := 0, vc_iopm_base_pa := k_virt_to_phys k (vcpu_io_bitmap svm),
     vc_msrpm_base_pa := k_virt_to_phys k (vcpu_msrpm svm), vc_virt_ext := 0\<rparr>"
  let ?c' = "fold (\<lambda>i. set_intercept (k_intercept k i)) init_intercepts c"
  have init: "svm_init_vmcb k svm = svm\<lparr>vcpu_save := (vcpu_save svm)\<lparr>vm_dbgctl := 0\<rparr>, vcpu_control := ?c'\<rparr>"
    by (simp add: svm_init_vmcb_def c_def Let_def)
  have "intercepted ?c' n = (n \<in> k_intercept k ` set init_intercepts \<or> intercepted c n)"
    unfolding set_intercepts_write_all
    using intercepts.get_fill [where s = c and ks = "map (k_intercept k) init_intercepts" and j = n
        and v = True] assms
    by simp
  moreover have "intercepted c n = intercepted (vcpu_control svm) n"
    by (simp add: c_def intercepted_def)
  moreover have "?c' = c\<lparr>vc_intercept := vc_intercept ?c'\<rparr>" by (rule set_intercepts_frame)
  moreover have "vcpu_control (svm_init_vmcb k svm) = ?c'" by (simp add: init)
  ultimately show ?thesis using init unfolding c_def by simp
qed

theorem svm_init_vmcb_intercepts_witness:
  "intercepted (vcpu_control (svm_init_vmcb example_kernel example_vcpu)) 33 \<and>
   \<not> intercepted (vcpu_control (svm_init_vmcb example_kernel example_vcpu)) 18"
proof -
  have "\<forall>i \<in> set init_intercepts. k_intercept example_kernel i < 64"
    by (simp add: init_intercepts_def example_kernel_def)
  moreover have "33 \<in> k_intercept example_kernel ` set init_intercepts"
    "18 \<notin> k_intercept example_kernel ` set init_intercepts"
    "\<not> intercepted (vcpu_control example_vcpu) 18"
    by (simp_all add: init_intercepts_def example_kernel_def intercepted_def example_vcpu_def Let_def)
  ultimately show ?thesis
    using svm_init_vmcb_intercepts [of example_kernel 33 example_vcpu]
      svm_init_vmcb_intercepts [of example_kernel 18 example_vcpu]
    by simp
qed



text \<open>
  C37: a guest started from the default configuration with usable segments gets the attribute word
  0xabb for its code segment and 0xab3 for its data, extra and stack segments: long mode and
  page-granular as meant, but with privilege level 1, although the configuration says level 0 and
  the guest starts at current privilege level 0.
\<close>

theorem default_guest_attributes:
  assumes "k_layout k = amd_layout" and "regs_ok (vcpu_regs svm)"
    and "\<forall>v \<in> {sr_cs, sr_ds, sr_es, sr_ss}. seg_unusable (v (svm_sys_regs conf)) = 0"
  shows "let conf' = fst (svm_config_init k h conf);
             s = vcpu_save (fst (setup_guest_regs k h conf' svm)) in
     vs_attrib (vm_cs s) = 0xabb \<and> vs_attrib (vm_ds s) = 0xab3 \<and>
     vs_attrib (vm_es s) = 0xab3 \<and> vs_attrib (vm_ss s) = 0xab3 \<and>
     seg_dpl (sr_cs (svm_sys_regs conf')) = 0 \<and> vm_cpl s = 0 \<and>
     at_dpl (attr_decode (ucast (vs_attrib (vm_cs s)))) = 1"
proof -
  have u: "seg_unusable (sr_cs (svm_sys_regs conf)) = 0" "seg_unusable (sr_ds (svm_sys_regs conf)) = 0"
    "seg_unusable (sr_es (svm_sys_regs conf)) = 0" "seg_unusable (sr_ss (svm_sys_regs conf)) = 0"
    using assms(3) by simp_all
  let ?s = "vcpu_save (fst (setup_guest_regs k h (fst (svm_config_init k h conf)) svm))"
  have "vs_attrib (vm_cs ?s) = 0xabb" "vs_attrib (vm_ds ?s) = 0xab3" "vs_attrib (vm_es ?s) = 0xab3"
    "vs_attrib (vm_ss ?s) = 0xab3" "vm_cpl ?s = 0"
    "seg_dpl (sr_cs (svm_sys_regs (fst (svm_config_init k h conf)))) = 0"
    using load_seg_default u assms(1)
    by (simp_all add: setup_guest_regs_def load_sys_regs_def vmsave_load_state_def svm_dt_set_def
        svm_config_init_def Let_def) (simp add: set_attrs_def)
  then show ?thesis by (simp add: Let_def attr_decode_def)
qed

theorem default_guest_attributes_witness:
  "vs_attrib (vm_cs (vcpu_save (fst (setup_guest_regs example_kernel example_host
     (fst (svm_config_init example_kernel example_host example_config)) example_vcpu)))) = 0xabb"
  using default_guest_attributes [OF _ example_vcpu_regs, where k = example_kernel and
      conf = example_config and h = example_host]
  by (simp add: Let_def example_kernel_def example_config_def zero_seg_def)

end
