(* ===== verification/Vmx_Ops.thy ===== *)
theory Vmx_Ops
  imports Cell_Store
begin

unbundle bit_operations_syntax

text \<open>
  The accessors of a VMCS (\<^verbatim>\<open>src/vmx_mod/ops.h\<close>, and the two dump helpers of \<^verbatim>\<open>src/vmx_mod/vmx.c\<close>). The
  processor's VMCS is abstract: \<^verbatim>\<open>vmread\<close>, \<^verbatim>\<open>vmwrite\<close> with its failure flag and \<^verbatim>\<open>invvpid\<close>,
  \<^verbatim>\<open>invept\<close> are parameters. Kernel messages are a log. The C types of the
  parameters are kept: the 32-bit, 64-bit and natural-width writers take a 16-bit value.
\<close>

section \<open>State\<close>

record 'v vmx_hw =
  hw_vmread :: "'v \<Rightarrow> u64 \<Rightarrow> u64"
  hw_vmwrite :: "'v \<Rightarrow> u64 \<Rightarrow> u64 \<Rightarrow> 'v \<times> bool"
  hw_vmclear :: "'v \<Rightarrow> u64 \<Rightarrow> 'v \<times> bool"
  hw_vmptrld :: "'v \<Rightarrow> u64 \<Rightarrow> 'v \<times> bool"
  hw_invvpid :: "'v \<Rightarrow> u64 \<Rightarrow> u64 \<times> u64 \<Rightarrow> 'v \<times> bool"
  hw_invept :: "'v \<Rightarrow> u64 \<Rightarrow> u64 \<times> u64 \<Rightarrow> 'v \<times> bool"
  hw_pa :: "u64 \<Rightarrow> u64"
  VM_INSTRUCTION_ERROR :: u64
  VMX_VPID_EXTENT_SINGLE_CONTEXT :: u64
  VMX_VPID_EXTENT_ALL_CONTEXT :: u64
  VMX_EPT_EXTENT_GLOBAL :: u64

datatype vmx_msg =
    Vmwrite_error u64 u64 u32
  | Vmclear_failed u64 u64
  | Vmptrld_failed u64 u64
  | Invvpid_failed u64 u16 u64
  | Invept_failed u64 u64 u64

record 'v vmx_state =
  cur_vmcs :: 'v
  vmx_log :: "vmx_msg list"

section \<open>Reading and writing fields\<close>

definition vmcs_readl :: "'v vmx_hw \<Rightarrow> 'v vmx_state \<Rightarrow> u64 \<Rightarrow> u64" where
  "vmcs_readl hw s field = hw_vmread hw (cur_vmcs s) field"

definition vmcs_read16 :: "'v vmx_hw \<Rightarrow> 'v vmx_state \<Rightarrow> u64 \<Rightarrow> u16" where
  "vmcs_read16 hw s field = ucast (vmcs_readl hw s field)"

definition vmcs_read32 :: "'v vmx_hw \<Rightarrow> 'v vmx_state \<Rightarrow> u64 \<Rightarrow> u32" where
  "vmcs_read32 hw s field = ucast (vmcs_readl hw s field)"

definition vmcs_read64 :: "'v vmx_hw \<Rightarrow> 'v vmx_state \<Rightarrow> u64 \<Rightarrow> u64" where
  "vmcs_read64 hw s field = vmcs_readl hw s field"

definition vmwrite_error :: "'v vmx_hw \<Rightarrow> u64 \<Rightarrow> u64 \<Rightarrow> 'v vmx_state \<Rightarrow> 'v vmx_state" where
  "vmwrite_error hw field v s =
     s\<lparr>vmx_log := vmx_log s @ [Vmwrite_error field v (vmcs_read32 hw s (VM_INSTRUCTION_ERROR hw))]\<rparr>"

definition vmcs_writel_raw :: "'v vmx_hw \<Rightarrow> u64 \<Rightarrow> u64 \<Rightarrow> 'v vmx_state \<Rightarrow> 'v vmx_state" where
  "vmcs_writel_raw hw field v s =
     (case hw_vmwrite hw (cur_vmcs s) field v of
        (c, error) \<Rightarrow>
          let s' = s\<lparr>cur_vmcs := c\<rparr> in if error then vmwrite_error hw field v s' else s')"

definition vmcs_write16 :: "'v vmx_hw \<Rightarrow> u64 \<Rightarrow> u16 \<Rightarrow> 'v vmx_state \<Rightarrow> 'v vmx_state" where
  "vmcs_write16 hw field v s = vmcs_writel_raw hw field (ucast v) s"

definition vmcs_write32 :: "'v vmx_hw \<Rightarrow> u64 \<Rightarrow> u16 \<Rightarrow> 'v vmx_state \<Rightarrow> 'v vmx_state" where
  "vmcs_write32 hw field v s = vmcs_writel_raw hw field (ucast v) s"

definition vmcs_write64 :: "'v vmx_hw \<Rightarrow> u64 \<Rightarrow> u16 \<Rightarrow> 'v vmx_state \<Rightarrow> 'v vmx_state" where
  "vmcs_write64 hw field v s = vmcs_writel_raw hw field (ucast v) s"

definition vmcs_writel :: "'v vmx_hw \<Rightarrow> u64 \<Rightarrow> u16 \<Rightarrow> 'v vmx_state \<Rightarrow> 'v vmx_state" where
  "vmcs_writel hw field v s = vmcs_writel_raw hw field (ucast v) s"

section \<open>Instructions on the whole VMCS\<close>

definition note_failure :: "vmx_msg \<Rightarrow> 'v \<times> bool \<Rightarrow> 'v vmx_state \<Rightarrow> 'v vmx_state" where
  "note_failure msg r s =
     (let s' = s\<lparr>cur_vmcs := fst r\<rparr> in if snd r then s'\<lparr>vmx_log := vmx_log s' @ [msg]\<rparr> else s')"

definition vmcs_clear :: "'v vmx_hw \<Rightarrow> u64 \<Rightarrow> 'v vmx_state \<Rightarrow> 'v vmx_state" where
  "vmcs_clear hw vmcs s =
     (let pa = hw_pa hw vmcs in note_failure (Vmclear_failed vmcs pa) (hw_vmclear hw (cur_vmcs s) pa) s)"

definition vmcs_load :: "'v vmx_hw \<Rightarrow> u64 \<Rightarrow> 'v vmx_state \<Rightarrow> 'v vmx_state" where
  "vmcs_load hw vmcs s =
     (let pa = hw_pa hw vmcs in note_failure (Vmptrld_failed vmcs pa) (hw_vmptrld hw (cur_vmcs s) pa) s)"

text \<open>The operand is 16 bits of VPID, 48 zero bits and the address.\<close>

definition invvpid :: "'v vmx_hw \<Rightarrow> u64 \<Rightarrow> u16 \<Rightarrow> u64 \<Rightarrow> 'v vmx_state \<Rightarrow> 'v vmx_state" where
  "invvpid hw ext vpid gva s =
     note_failure (Invvpid_failed ext vpid gva) (hw_invvpid hw (cur_vmcs s) ext (ucast vpid, gva)) s"

definition invept :: "'v vmx_hw \<Rightarrow> u64 \<Rightarrow> u64 \<Rightarrow> u64 \<Rightarrow> 'v vmx_state \<Rightarrow> 'v vmx_state" where
  "invept hw ext eptp gpa s =
     note_failure (Invept_failed ext eptp gpa) (hw_invept hw (cur_vmcs s) ext (eptp, gpa)) s"

text \<open>The VPID is an \<^verbatim>\<open>int\<close> that is compared with 0 before it is cut to 16 bits.\<close>

definition vpid_sync_vcpu_single :: "'v vmx_hw \<Rightarrow> int \<Rightarrow> 'v vmx_state \<Rightarrow> 'v vmx_state" where
  "vpid_sync_vcpu_single hw vpid s =
     (if vpid = 0 then s
      else invvpid hw (VMX_VPID_EXTENT_SINGLE_CONTEXT hw) (word_of_int vpid) 0 s)"

definition vpid_sync_vcpu_global :: "'v vmx_hw \<Rightarrow> 'v vmx_state \<Rightarrow> 'v vmx_state" where
  "vpid_sync_vcpu_global hw s = invvpid hw (VMX_VPID_EXTENT_ALL_CONTEXT hw) 0 0 s"

definition ept_sync_global :: "'v vmx_hw \<Rightarrow> 'v vmx_state \<Rightarrow> 'v vmx_state" where
  "ept_sync_global hw s = invept hw (VMX_EPT_EXTENT_GLOBAL hw) 0 0 s"

section \<open>Dumping a segment\<close>

text \<open>
  The helpers compute the fields of a segment from the field of its selector, with the distances
  between the fields of ES, in 32-bit arithmetic.
\<close>

record seg_encoding =
  GUEST_ES_SELECTOR :: u32
  GUEST_ES_AR_BYTES :: u32
  GUEST_ES_LIMIT :: u32
  GUEST_ES_BASE :: u32
  GUEST_GDTR_BASE :: u32
  GUEST_GDTR_LIMIT :: u32

definition vmx_dump_sel :: "'v vmx_hw \<Rightarrow> seg_encoding \<Rightarrow> u32 \<Rightarrow> 'v vmx_state \<Rightarrow> u16 \<times> u32 \<times> u32 \<times> u64" where
  "vmx_dump_sel hw en sel s =
     (vmcs_read16 hw s (ucast sel),
      vmcs_read32 hw s (ucast (sel + GUEST_ES_AR_BYTES en - GUEST_ES_SELECTOR en)),
      vmcs_read32 hw s (ucast (sel + GUEST_ES_LIMIT en - GUEST_ES_SELECTOR en)),
      vmcs_readl hw s (ucast (sel + GUEST_ES_BASE en - GUEST_ES_SELECTOR en)))"

definition vmx_dump_dtsel :: "'v vmx_hw \<Rightarrow> seg_encoding \<Rightarrow> u32 \<Rightarrow> 'v vmx_state \<Rightarrow> u32 \<times> u64" where
  "vmx_dump_dtsel hw en limit s =
     (vmcs_read32 hw s (ucast limit),
      vmcs_readl hw s (ucast (limit + GUEST_GDTR_BASE en - GUEST_GDTR_LIMIT en)))"

section \<open>The VMCS as a store of fields\<close>

text \<open>
  A field's encoding gives its width (bits 13 and 14: 16, 64, 32 bits, natural). A supported field
  keeps the low bits of what is written to it, other fields are not affected, the write succeeds.
\<close>

definition field_width :: "u64 \<Rightarrow> nat" where
  "field_width f = (let k = drop_bit 13 f AND 3 in if k = 0 then 16 else if k = 2 then 32 else 64)"

definition vmx_laws :: "'v vmx_hw \<Rightarrow> (u64 \<Rightarrow> bool) \<Rightarrow> bool" where
  "vmx_laws hw supported \<longleftrightarrow>
     (\<forall>v f g x. supported f \<longrightarrow> supported g \<longrightarrow>
        hw_vmread hw (fst (hw_vmwrite hw v f x)) g =
          (if g = f then take_bit (field_width f) x else hw_vmread hw v g) \<and>
        \<not> snd (hw_vmwrite hw v f x))"

locale vmcs_fields =
  fixes hw :: "'v vmx_hw" and supported :: "u64 \<Rightarrow> bool"
  assumes laws: "vmx_laws hw supported"
begin

lemma write_law:
  assumes "supported f" "supported g"
  shows "hw_vmread hw (fst (hw_vmwrite hw v f x)) g =
      (if g = f then take_bit (field_width f) x else hw_vmread hw v g)"
    "\<not> snd (hw_vmwrite hw v f x)"
  using laws assms unfolding vmx_laws_def by blast+

lemma raw_succeeds:
  "supported f \<Longrightarrow> vmcs_writel_raw hw f x s = s\<lparr>cur_vmcs := fst (hw_vmwrite hw (cur_vmcs s) f x)\<rparr>"
  using write_law(2) [of f f "cur_vmcs s" x]
  by (cases "hw_vmwrite hw (cur_vmcs s) f x") (simp add: vmcs_writel_raw_def Let_def)

lemma read_raw:
  "supported f \<Longrightarrow> supported g \<Longrightarrow>
   vmcs_readl hw (vmcs_writel_raw hw f x s) g =
     (if g = f then take_bit (field_width f) x else vmcs_readl hw s g)"
  by (simp add: raw_succeeds vmcs_readl_def write_law(1))

lemma log_raw: "supported f \<Longrightarrow> vmx_log (vmcs_writel_raw hw f x s) = vmx_log s"
  by (simp add: raw_succeeds)

end

lemma field_width_ge: "16 \<le> field_width f"
  by (simp add: field_width_def Let_def)

lemma take_bit_ucast16: "16 \<le> n \<Longrightarrow> take_bit n (ucast (v :: u16) :: u64) = ucast v"
  by (auto simp: bit_eq_iff bit_take_bit_iff bit_unsigned_iff dest: bit_imp_le_length)

lemma take_bit_u64: "take_bit 64 (x :: u64) = x"
  by (rule bit_word_eqI) (simp add: bit_take_bit_iff)

sublocale vmcs_fields \<subseteq> wide: cell_store "\<lambda>_. True" "\<lambda>f. supported f \<and> field_width f = 64"
    "vmcs_readl hw" "vmcs_writel_raw hw"
  by unfold_locales (simp_all add: read_raw take_bit_u64)

context vmcs_fields
begin

lemma read_word:
  "supported f \<Longrightarrow> supported g \<Longrightarrow>
   vmcs_readl hw (vmcs_writel_raw hw f (ucast (v :: u16)) s) g = (if g = f then ucast v else vmcs_readl hw s g)"
  by (simp add: read_raw take_bit_ucast16 field_width_ge)

end

lemma ucast_low16: "ucast (ucast (ucast x :: u16) :: u64) = x AND 0xffff" for x :: u32
proof -
  have "x AND 0xffff = take_bit 16 x" by (simp add: take_bit_eq_mask mask_eq_exp_minus_1)
  then show ?thesis by (simp only:) (auto simp: bit_eq_iff bit_unsigned_iff bit_take_bit_iff)
qed

lemma ucast_low16_64: "ucast (ucast x :: u16) = x AND 0xffff" for x :: u64
proof -
  have "x AND 0xffff = take_bit 16 x" by (simp add: take_bit_eq_mask mask_eq_exp_minus_1)
  then show ?thesis by (simp only:) (auto simp: bit_eq_iff bit_unsigned_iff bit_take_bit_iff)
qed

text \<open>A VMCS as a function from fields to values satisfies the laws.\<close>

definition map_hw :: "(u64 \<Rightarrow> u64) vmx_hw" where
  "map_hw = \<lparr>hw_vmread = (\<lambda>v f. v f),
     hw_vmwrite = (\<lambda>v f x. (v(f := take_bit (field_width f) x), False)),
     hw_vmclear = (\<lambda>v _. (v, False)), hw_vmptrld = (\<lambda>v _. (v, False)),
     hw_invvpid = (\<lambda>v _ _. (v, False)), hw_invept = (\<lambda>v _ _. (v, False)), hw_pa = (\<lambda>a. a),
     VM_INSTRUCTION_ERROR = 0x4400, VMX_VPID_EXTENT_SINGLE_CONTEXT = 1, VMX_VPID_EXTENT_ALL_CONTEXT = 2,
     VMX_EPT_EXTENT_GLOBAL = 2\<rparr>"

lemma map_hw_laws: "vmx_laws map_hw (\<lambda>_. True)"
  by (simp add: vmx_laws_def map_hw_def)

interpretation map_vmcs: vmcs_fields map_hw "\<lambda>_. True"
  by unfold_locales (rule map_hw_laws)

text \<open>Intel's encodings of the segment fields; segment \<open>k\<close> is ES, CS, SS, DS, FS, GS, LDTR, TR for 0 to 7.\<close>

definition intel_encoding :: seg_encoding where
  "intel_encoding = \<lparr>GUEST_ES_SELECTOR = 0x800, GUEST_ES_AR_BYTES = 0x4814, GUEST_ES_LIMIT = 0x4800,
     GUEST_ES_BASE = 0x6806, GUEST_GDTR_BASE = 0x6816, GUEST_GDTR_LIMIT = 0x4810\<rparr>"

definition selector_field :: "nat \<Rightarrow> u32" where
  "selector_field k = 0x800 + 2 * of_nat k"

section \<open>Properties\<close>

text \<open>
  C35: the 32-bit, 64-bit and natural-width writers store only the low 16 bits of their argument,
  because their parameter is declared 16 bits wide: whatever is written to a supported field, it
  reads back without its upper bits; no other field changes and no error is logged.
\<close>

theorem vmcs_writers_truncate:
  assumes "vmx_laws hw supported" and "supported f" "supported g"
  shows "vmcs_read32 hw (vmcs_write32 hw f (ucast (x :: u32)) s) g =
       (if g = f then x AND 0xffff else vmcs_read32 hw s g) \<and>
     vmcs_read64 hw (vmcs_write64 hw f (ucast (y :: u64)) s) g =
       (if g = f then y AND 0xffff else vmcs_read64 hw s g) \<and>
     vmcs_readl hw (vmcs_writel hw f (ucast (y :: u64)) s) g =
       (if g = f then y AND 0xffff else vmcs_readl hw s g) \<and>
     vmx_log (vmcs_write32 hw f (ucast x) s) = vmx_log s"
proof -
  have loc: "vmcs_fields hw supported" using assms(1) by unfold_locales
  show ?thesis
    using vmcs_fields.read_word [OF loc assms(2,3)] vmcs_fields.log_raw [OF loc assms(2)]
    unfolding ucast_low16 [symmetric] ucast_low16_64 [symmetric]
    by (simp add: vmcs_read32_def vmcs_read64_def vmcs_write32_def vmcs_write64_def vmcs_writel_def)
qed

theorem vmcs_writers_truncate_witness:
  "vmcs_read32 map_hw (vmcs_write32 map_hw 0x4002 (ucast (0x12345 :: u32))
     \<lparr>cur_vmcs = (\<lambda>_. 0), vmx_log = []\<rparr>) 0x4002 = 0x2345"
  using vmcs_writers_truncate [OF map_hw_laws, where f = "0x4002" and g = "0x4002" and x = "0x12345"
      and s = "\<lparr>cur_vmcs = (\<lambda>_. 0), vmx_log = []\<rparr>"]
  by simp

text \<open>
  A 16-bit value survives a write and a read of any width on every supported field.
\<close>

theorem vmcs_write16_read_back:
  assumes "vmx_laws hw supported" and "supported f"
  shows "vmcs_read16 hw (vmcs_write16 hw f v s) f = v \<and>
     vmcs_read32 hw (vmcs_write16 hw f v s) f = ucast v \<and>
     vmcs_readl hw (vmcs_write16 hw f v s) f = ucast v"
proof -
  have loc: "vmcs_fields hw supported" using assms(1) by unfold_locales
  have "ucast (ucast v :: u64) = v" "ucast (ucast v :: u64) = (ucast v :: u32)"
    by (auto simp: bit_eq_iff bit_unsigned_iff)
  then show ?thesis using vmcs_fields.read_word [OF loc assms(2,2)]
    by (simp add: vmcs_read16_def vmcs_read32_def vmcs_write16_def)
qed

theorem vmcs_write16_read_back_witness:
  "vmcs_read16 map_hw (vmcs_write16 map_hw 0x802 0x10 \<lparr>cur_vmcs = (\<lambda>_. 0), vmx_log = []\<rparr>) 0x802 = 0x10"
  using vmcs_write16_read_back [OF map_hw_laws, of "0x802"] by blast

text \<open>
  With Intel's encodings, dumping the segment register of any selector field reads that
  segment's own selector, access rights, limit and base, and the two table registers likewise.
\<close>

theorem vmx_dump_reads_own_fields:
  assumes "en = intel_encoding"
  shows "vmx_dump_sel hw en (selector_field k) s =
       (vmcs_read16 hw s (ucast (0x800 + 2 * of_nat k :: u32)),
        vmcs_read32 hw s (ucast (0x4814 + 2 * of_nat k :: u32)),
        vmcs_read32 hw s (ucast (0x4800 + 2 * of_nat k :: u32)),
        vmcs_readl hw s (ucast (0x6806 + 2 * of_nat k :: u32))) \<and>
     vmx_dump_dtsel hw en 0x4810 s = (vmcs_read32 hw s 0x4810, vmcs_readl hw s 0x6816) \<and>
     vmx_dump_dtsel hw en 0x4812 s = (vmcs_read32 hw s 0x4812, vmcs_readl hw s 0x6818)"
  unfolding assms
  by (simp add: vmx_dump_sel_def vmx_dump_dtsel_def intel_encoding_def selector_field_def)

theorem vmx_dump_reads_own_fields_witness:
  "vmx_dump_dtsel map_hw intel_encoding 0x4812 \<lparr>cur_vmcs = (\<lambda>f. f), vmx_log = []\<rparr> = (0x4812, 0x6818)"
  using vmx_dump_reads_own_fields [OF refl, of map_hw 0 "\<lparr>cur_vmcs = (\<lambda>f. f), vmx_log = []\<rparr>"]
  by (simp add: vmcs_read32_def vmcs_readl_def map_hw_def)

end
