(* ===== verification/Vmx_Dump.thy ===== *)
theory Vmx_Dump
  imports Vmx_Ops
begin

unbundle bit_operations_syntax

text \<open>
  The dump of a virtual CPU (\<^verbatim>\<open>vmx_dump_cpu\<close> of \<^verbatim>\<open>src/vmx_mod/vmx.c\<close>). The symbolic VMCS fields that it
  reads are a datatype; their encodings and the control bits come from kernel headers and are parameters.
  Every value that is printed is kept with the field it was read from, so that the lemmas can say
  which fields are read under which controls, and that each is read with the reader of its width.
\<close>

section \<open>Fields and controls\<close>

datatype vmcs_field =
    VM_ENTRY_CONTROLS | VM_EXIT_CONTROLS | CPU_BASED_VM_EXEC_CONTROL | PIN_BASED_VM_EXEC_CONTROL
  | SECONDARY_VM_EXEC_CONTROL | GUEST_CR0 | GUEST_CR3 | GUEST_CR4 | CR0_READ_SHADOW | CR4_READ_SHADOW
  | CR0_GUEST_HOST_MASK | CR4_GUEST_HOST_MASK | GUEST_IA32_EFER | GUEST_IA32_PAT | GUEST_PDPTR0 | GUEST_PDPTR1
  | GUEST_PDPTR2 | GUEST_PDPTR3 | GUEST_RSP | GUEST_RIP | GUEST_RFLAGS | GUEST_DR7 | GUEST_SYSENTER_ESP
  | GUEST_SYSENTER_CS | GUEST_SYSENTER_EIP | GUEST_IA32_DEBUGCTL | GUEST_PENDING_DBG_EXCEPTIONS
  | GUEST_IA32_PERF_GLOBAL_CTRL | GUEST_BNDCFGS | GUEST_INTERRUPTIBILITY_INFO | GUEST_ACTIVITY_STATE
  | GUEST_INTR_STATUS | HOST_RIP | HOST_RSP | HOST_CS_SELECTOR | HOST_SS_SELECTOR | HOST_DS_SELECTOR
  | HOST_ES_SELECTOR | HOST_FS_SELECTOR | HOST_GS_SELECTOR | HOST_TR_SELECTOR | HOST_FS_BASE | HOST_GS_BASE
  | HOST_TR_BASE | HOST_GDTR_BASE | HOST_IDTR_BASE | HOST_CR0 | HOST_CR3 | HOST_CR4 | HOST_IA32_SYSENTER_ESP
  | HOST_IA32_SYSENTER_CS | HOST_IA32_SYSENTER_EIP | HOST_IA32_EFER | HOST_IA32_PAT | HOST_IA32_PERF_GLOBAL_CTRL
  | EXCEPTION_BITMAP | PAGE_FAULT_ERROR_CODE_MASK | PAGE_FAULT_ERROR_CODE_MATCH | VM_ENTRY_INTR_INFO_FIELD
  | VM_ENTRY_EXCEPTION_ERROR_CODE | VM_ENTRY_INSTRUCTION_LEN | VM_EXIT_INTR_INFO | VM_EXIT_INTR_ERROR_CODE
  | VM_EXIT_INSTRUCTION_LEN | VM_EXIT_REASON | EXIT_QUALIFICATION | IDT_VECTORING_INFO_FIELD
  | IDT_VECTORING_ERROR_CODE | TSC_OFFSET | TSC_MULTIPLIER | TPR_THRESHOLD | APIC_ACCESS_ADDR
  | VIRTUAL_APIC_PAGE_ADDR | POSTED_INTR_NV | EPT_POINTER | PLE_GAP | PLE_WINDOW | VIRTUAL_PROCESSOR_ID

text \<open>The bits of the kernel headers that the dump tests.\<close>

record vmx_bits =
  SECONDARY_EXEC_ENABLE_EPT :: u32
  SECONDARY_EXEC_VIRTUAL_INTR_DELIVERY :: u32
  SECONDARY_EXEC_TSC_SCALING :: u32
  SECONDARY_EXEC_VIRTUALIZE_APIC_ACCESSES :: u32
  SECONDARY_EXEC_PAUSE_LOOP_EXITING :: u32
  SECONDARY_EXEC_ENABLE_VPID :: u32
  CPU_BASED_TPR_SHADOW :: u32
  PIN_BASED_POSTED_INTR :: u32
  VM_EXIT_SAVE_IA32_PAT :: u32
  VM_EXIT_SAVE_IA32_EFER :: u32
  VM_EXIT_LOAD_IA32_PAT :: u32
  VM_EXIT_LOAD_IA32_EFER :: u32
  VM_EXIT_LOAD_IA32_PERF_GLOBAL_CTRL :: u32
  VM_ENTRY_LOAD_IA32_PAT :: u32
  VM_ENTRY_LOAD_IA32_EFER :: u32
  VM_ENTRY_LOAD_IA32_PERF_GLOBAL_CTRL :: u32
  VM_ENTRY_LOAD_BNDCFGS :: u32
  X86_CR4_PAE :: u64
  EFER_LMA :: u64

text \<open>
  What the dump depends on besides the VMCS: the encodings of its fields and of the segment
  selectors, the bits, the module parameter \<^verbatim>\<open>dump_invalid_vmcs\<close> and two capabilities of the processor.
\<close>

record dump_env =
  de_enc :: "vmcs_field \<Rightarrow> u64"
  de_seg :: seg_encoding
  de_selector :: "nat \<Rightarrow> u32"
  de_gdtr_limit :: u32
  de_idtr_limit :: u32
  de_bits :: vmx_bits
  de_dump_invalid_vmcs :: bool
  de_has_secondary :: bool
  de_has_perf_global :: bool

datatype dump_line =
    Warning
  | Heading string
  | Values string "(vmcs_field \<times> u64) list"
  | Segment string "u16 \<times> u32 \<times> u32 \<times> u64"
  | Desc_table string "u32 \<times> u64"

section \<open>The dump\<close>

text \<open>A value with the field it comes from, by reader.\<close>

definition rd16 :: "'v vmx_hw \<Rightarrow> dump_env \<Rightarrow> 'v vmx_state \<Rightarrow> vmcs_field \<Rightarrow> vmcs_field \<times> u64" where
  "rd16 hw e s f = (f, ucast (vmcs_read16 hw s (de_enc e f)))"

definition rd32 :: "'v vmx_hw \<Rightarrow> dump_env \<Rightarrow> 'v vmx_state \<Rightarrow> vmcs_field \<Rightarrow> vmcs_field \<times> u64" where
  "rd32 hw e s f = (f, ucast (vmcs_read32 hw s (de_enc e f)))"

definition rd64 :: "'v vmx_hw \<Rightarrow> dump_env \<Rightarrow> 'v vmx_state \<Rightarrow> vmcs_field \<Rightarrow> vmcs_field \<times> u64" where
  "rd64 hw e s f = (f, vmcs_read64 hw s (de_enc e f))"

definition rdl :: "'v vmx_hw \<Rightarrow> dump_env \<Rightarrow> 'v vmx_state \<Rightarrow> vmcs_field \<Rightarrow> vmcs_field \<times> u64" where
  "rdl hw e s f = (f, vmcs_readl hw s (de_enc e f))"

record dump_controls =
  vmentry_ctl :: u32
  vmexit_ctl :: u32
  cpu_based_exec_ctrl :: u32
  pin_based_exec_ctrl :: u32
  secondary_exec_control :: u32
  dump_cr4 :: u64
  dump_efer :: u64

definition dump_controls_of :: "'v vmx_hw \<Rightarrow> dump_env \<Rightarrow> 'v vmx_state \<Rightarrow> dump_controls" where
  "dump_controls_of hw e s =
     \<lparr>vmentry_ctl = vmcs_read32 hw s (de_enc e VM_ENTRY_CONTROLS),
      vmexit_ctl = vmcs_read32 hw s (de_enc e VM_EXIT_CONTROLS),
      cpu_based_exec_ctrl = vmcs_read32 hw s (de_enc e CPU_BASED_VM_EXEC_CONTROL),
      pin_based_exec_ctrl = vmcs_read32 hw s (de_enc e PIN_BASED_VM_EXEC_CONTROL),
      secondary_exec_control =
        (if de_has_secondary e then vmcs_read32 hw s (de_enc e SECONDARY_VM_EXEC_CONTROL) else 0),
      dump_cr4 = vmcs_readl hw s (de_enc e GUEST_CR4),
      dump_efer = vmcs_read64 hw s (de_enc e GUEST_IA32_EFER)\<rparr>"

definition print_if :: "bool \<Rightarrow> dump_line list \<Rightarrow> dump_line list" where
  "print_if b ls = (if b then ls else [])"

definition dump_guest :: "'v vmx_hw \<Rightarrow> dump_env \<Rightarrow> 'v vmx_state \<Rightarrow> dump_controls \<Rightarrow> dump_line list" where
  "dump_guest hw e s c =
     (let b = de_bits e; rl = rdl hw e s; r64 = rd64 hw e s; r32 = rd32 hw e s; r16 = rd16 hw e s;
          sel = (\<lambda>k. vmx_dump_sel hw (de_seg e) (de_selector e k) s)
      in [Heading ''Guest State'',
          Values ''CR0'' [rl GUEST_CR0, rl CR0_READ_SHADOW, rl CR0_GUEST_HOST_MASK],
          Values ''CR4'' [(GUEST_CR4, dump_cr4 c), rl CR4_READ_SHADOW, rl CR4_GUEST_HOST_MASK],
          Values ''CR3'' [rl GUEST_CR3]] @
         print_if (secondary_exec_control c AND SECONDARY_EXEC_ENABLE_EPT b \<noteq> 0 \<and>
                   dump_cr4 c AND X86_CR4_PAE b \<noteq> 0 \<and> dump_efer c AND EFER_LMA b = 0)
           [Values ''PDPTR0 PDPTR1'' [r64 GUEST_PDPTR0, r64 GUEST_PDPTR1],
            Values ''PDPTR2 PDPTR3'' [r64 GUEST_PDPTR2, r64 GUEST_PDPTR3]] @
         [Values ''RSP RIP'' [rl GUEST_RSP, rl GUEST_RIP],
          Values ''RFLAGS DR7'' [rl GUEST_RFLAGS, rl GUEST_DR7],
          Values ''Sysenter'' [rl GUEST_SYSENTER_ESP, r32 GUEST_SYSENTER_CS, rl GUEST_SYSENTER_EIP],
          Segment ''CS'' (sel 1), Segment ''DS'' (sel 3), Segment ''SS'' (sel 2), Segment ''ES'' (sel 0),
          Segment ''FS'' (sel 4), Segment ''GS'' (sel 5),
          Desc_table ''GDTR'' (vmx_dump_dtsel hw (de_seg e) (de_gdtr_limit e) s),
          Segment ''LDTR'' (sel 6),
          Desc_table ''IDTR'' (vmx_dump_dtsel hw (de_seg e) (de_idtr_limit e) s),
          Segment ''TR'' (sel 7)] @
         print_if (vmexit_ctl c AND (VM_EXIT_SAVE_IA32_PAT b OR VM_EXIT_SAVE_IA32_EFER b) \<noteq> 0 \<or>
                   vmentry_ctl c AND (VM_ENTRY_LOAD_IA32_PAT b OR VM_ENTRY_LOAD_IA32_EFER b) \<noteq> 0)
           [Values ''EFER PAT'' [(GUEST_IA32_EFER, dump_efer c), r64 GUEST_IA32_PAT]] @
         [Values ''DebugCtl DebugExceptions'' [r64 GUEST_IA32_DEBUGCTL, rl GUEST_PENDING_DBG_EXCEPTIONS]] @
         print_if (de_has_perf_global e \<and> vmentry_ctl c AND VM_ENTRY_LOAD_IA32_PERF_GLOBAL_CTRL b \<noteq> 0)
           [Values ''PerfGlobCtl'' [r64 GUEST_IA32_PERF_GLOBAL_CTRL]] @
         print_if (vmentry_ctl c AND VM_ENTRY_LOAD_BNDCFGS b \<noteq> 0) [Values ''BndCfgS'' [r64 GUEST_BNDCFGS]] @
         [Values ''Interruptibility ActivityState'' [r32 GUEST_INTERRUPTIBILITY_INFO, r32 GUEST_ACTIVITY_STATE]] @
         print_if (secondary_exec_control c AND SECONDARY_EXEC_VIRTUAL_INTR_DELIVERY b \<noteq> 0)
           [Values ''InterruptStatus'' [r16 GUEST_INTR_STATUS]])"

definition dump_host :: "'v vmx_hw \<Rightarrow> dump_env \<Rightarrow> 'v vmx_state \<Rightarrow> dump_controls \<Rightarrow> dump_line list" where
  "dump_host hw e s c =
     (let b = de_bits e; rl = rdl hw e s; r64 = rd64 hw e s; r32 = rd32 hw e s; r16 = rd16 hw e s
      in [Heading ''Host State'',
          Values ''RIP RSP'' [rl HOST_RIP, rl HOST_RSP],
          Values ''CS SS DS ES FS GS TR''
            [r16 HOST_CS_SELECTOR, r16 HOST_SS_SELECTOR, r16 HOST_DS_SELECTOR, r16 HOST_ES_SELECTOR,
             r16 HOST_FS_SELECTOR, r16 HOST_GS_SELECTOR, r16 HOST_TR_SELECTOR],
          Values ''FSBase GSBase TRBase'' [rl HOST_FS_BASE, rl HOST_GS_BASE, rl HOST_TR_BASE],
          Values ''GDTBase IDTBase'' [rl HOST_GDTR_BASE, rl HOST_IDTR_BASE],
          Values ''CR0 CR3 CR4'' [rl HOST_CR0, rl HOST_CR3, rl HOST_CR4],
          Values ''Sysenter'' [rl HOST_IA32_SYSENTER_ESP, r32 HOST_IA32_SYSENTER_CS, rl HOST_IA32_SYSENTER_EIP]] @
         print_if (vmexit_ctl c AND (VM_EXIT_LOAD_IA32_PAT b OR VM_EXIT_LOAD_IA32_EFER b) \<noteq> 0)
           [Values ''EFER PAT'' [r64 HOST_IA32_EFER, r64 HOST_IA32_PAT]] @
         print_if (de_has_perf_global e \<and> vmexit_ctl c AND VM_EXIT_LOAD_IA32_PERF_GLOBAL_CTRL b \<noteq> 0)
           [Values ''PerfGlobCtl'' [r64 HOST_IA32_PERF_GLOBAL_CTRL]])"

text \<open>The interrupt status is read once and shown as two bytes.\<close>

definition dump_tpr :: "'v vmx_hw \<Rightarrow> dump_env \<Rightarrow> 'v vmx_state \<Rightarrow> dump_controls \<Rightarrow> dump_line list" where
  "dump_tpr hw e s c =
     (let b = de_bits e; status = vmcs_read16 hw s (de_enc e GUEST_INTR_STATUS)
      in print_if (secondary_exec_control c AND SECONDARY_EXEC_VIRTUAL_INTR_DELIVERY b \<noteq> 0)
           [Values ''SVI RVI'' [(GUEST_INTR_STATUS, ucast (drop_bit 8 status)),
                                (GUEST_INTR_STATUS, ucast (status AND 0xff))]] @
         [Values ''TPR Threshold'' [rd32 hw e s TPR_THRESHOLD]] @
         print_if (secondary_exec_control c AND SECONDARY_EXEC_VIRTUALIZE_APIC_ACCESSES b \<noteq> 0)
           [Values ''APIC-access addr'' [rd64 hw e s APIC_ACCESS_ADDR]] @
         [Values ''virt-APIC addr'' [rd64 hw e s VIRTUAL_APIC_PAGE_ADDR]])"

definition dump_control :: "'v vmx_hw \<Rightarrow> dump_env \<Rightarrow> 'v vmx_state \<Rightarrow> dump_controls \<Rightarrow> dump_line list" where
  "dump_control hw e s c =
     (let b = de_bits e; rl = rdl hw e s; r64 = rd64 hw e s; r32 = rd32 hw e s; r16 = rd16 hw e s;
          second = secondary_exec_control c
      in [Heading ''Control State'',
          Values ''PinBased CPUBased SecondaryExec''
            [(PIN_BASED_VM_EXEC_CONTROL, ucast (pin_based_exec_ctrl c)),
             (CPU_BASED_VM_EXEC_CONTROL, ucast (cpu_based_exec_ctrl c)),
             (SECONDARY_VM_EXEC_CONTROL, ucast second)],
          Values ''EntryControls ExitControls''
            [(VM_ENTRY_CONTROLS, ucast (vmentry_ctl c)), (VM_EXIT_CONTROLS, ucast (vmexit_ctl c))],
          Values ''ExceptionBitmap PFECmask PFECmatch''
            [r32 EXCEPTION_BITMAP, r32 PAGE_FAULT_ERROR_CODE_MASK, r32 PAGE_FAULT_ERROR_CODE_MATCH],
          Values ''VMEntry''
            [r32 VM_ENTRY_INTR_INFO_FIELD, r32 VM_ENTRY_EXCEPTION_ERROR_CODE, r32 VM_ENTRY_INSTRUCTION_LEN],
          Values ''VMExit'' [r32 VM_EXIT_INTR_INFO, r32 VM_EXIT_INTR_ERROR_CODE, r32 VM_EXIT_INSTRUCTION_LEN],
          Values ''reason qualification'' [r32 VM_EXIT_REASON, rl EXIT_QUALIFICATION],
          Values ''IDTVectoring'' [r32 IDT_VECTORING_INFO_FIELD, r32 IDT_VECTORING_ERROR_CODE],
          Values ''TSC Offset'' [r64 TSC_OFFSET]] @
         print_if (second AND SECONDARY_EXEC_TSC_SCALING b \<noteq> 0) [Values ''TSC Multiplier'' [r64 TSC_MULTIPLIER]] @
         print_if (cpu_based_exec_ctrl c AND CPU_BASED_TPR_SHADOW b \<noteq> 0) (dump_tpr hw e s c) @
         print_if (pin_based_exec_ctrl c AND PIN_BASED_POSTED_INTR b \<noteq> 0)
           [Values ''PostedIntrVec'' [r16 POSTED_INTR_NV]] @
         print_if (second AND SECONDARY_EXEC_ENABLE_EPT b \<noteq> 0) [Values ''EPT pointer'' [r64 EPT_POINTER]] @
         print_if (second AND SECONDARY_EXEC_PAUSE_LOOP_EXITING b \<noteq> 0)
           [Values ''PLE'' [r32 PLE_GAP, r32 PLE_WINDOW]] @
         print_if (second AND SECONDARY_EXEC_ENABLE_VPID b \<noteq> 0)
           [Values ''Virtual processor ID'' [r16 VIRTUAL_PROCESSOR_ID]])"

definition vmx_dump_cpu :: "'v vmx_hw \<Rightarrow> dump_env \<Rightarrow> 'v vmx_state \<Rightarrow> dump_line list" where
  "vmx_dump_cpu hw e s =
     (if \<not> de_dump_invalid_vmcs e then [Warning]
      else let c = dump_controls_of hw e s
           in dump_guest hw e s c @ dump_host hw e s c @ dump_control hw e s c)"

section \<open>What the dump shows\<close>

fun line_values :: "dump_line \<Rightarrow> (vmcs_field \<times> u64) list" where
  "line_values (Values _ vs) = vs"
| "line_values _ = []"

definition shown :: "dump_line list \<Rightarrow> (vmcs_field \<times> u64) list" where
  "shown ls = concat (map line_values ls)"

lemma shown_simps [simp]:
  "shown [] = []" "shown (l # ls) = line_values l @ shown ls" "shown (xs @ ys) = shown xs @ shown ys"
  by (simp_all add: shown_def)

lemma all_shown_if [simp]: "list_all P (shown (print_if b ls)) \<longleftrightarrow> (b \<longrightarrow> list_all P (shown ls))"
  by (simp add: print_if_def)

text \<open>Intel's encodings; the width of a field is part of its encoding.\<close>

fun intel_field :: "vmcs_field \<Rightarrow> u64" where
  "intel_field VIRTUAL_PROCESSOR_ID = 0x0000" | "intel_field POSTED_INTR_NV = 0x0002"
| "intel_field GUEST_INTR_STATUS = 0x0810" | "intel_field HOST_ES_SELECTOR = 0x0c00"
| "intel_field HOST_CS_SELECTOR = 0x0c02" | "intel_field HOST_SS_SELECTOR = 0x0c04"
| "intel_field HOST_DS_SELECTOR = 0x0c06" | "intel_field HOST_FS_SELECTOR = 0x0c08"
| "intel_field HOST_GS_SELECTOR = 0x0c0a" | "intel_field HOST_TR_SELECTOR = 0x0c0c"
| "intel_field TSC_OFFSET = 0x2010" | "intel_field VIRTUAL_APIC_PAGE_ADDR = 0x2012"
| "intel_field APIC_ACCESS_ADDR = 0x2014" | "intel_field EPT_POINTER = 0x201a"
| "intel_field TSC_MULTIPLIER = 0x2032" | "intel_field GUEST_IA32_DEBUGCTL = 0x2802"
| "intel_field GUEST_IA32_PAT = 0x2804" | "intel_field GUEST_IA32_EFER = 0x2806"
| "intel_field GUEST_IA32_PERF_GLOBAL_CTRL = 0x2808" | "intel_field GUEST_PDPTR0 = 0x280a"
| "intel_field GUEST_PDPTR1 = 0x280c" | "intel_field GUEST_PDPTR2 = 0x280e" | "intel_field GUEST_PDPTR3 = 0x2810"
| "intel_field GUEST_BNDCFGS = 0x2812" | "intel_field HOST_IA32_PAT = 0x2c00" | "intel_field HOST_IA32_EFER = 0x2c02"
| "intel_field HOST_IA32_PERF_GLOBAL_CTRL = 0x2c04" | "intel_field PIN_BASED_VM_EXEC_CONTROL = 0x4000"
| "intel_field CPU_BASED_VM_EXEC_CONTROL = 0x4002" | "intel_field EXCEPTION_BITMAP = 0x4004"
| "intel_field PAGE_FAULT_ERROR_CODE_MASK = 0x4006" | "intel_field PAGE_FAULT_ERROR_CODE_MATCH = 0x4008"
| "intel_field VM_EXIT_CONTROLS = 0x400c" | "intel_field VM_ENTRY_CONTROLS = 0x4012"
| "intel_field VM_ENTRY_INTR_INFO_FIELD = 0x4016" | "intel_field VM_ENTRY_EXCEPTION_ERROR_CODE = 0x4018"
| "intel_field VM_ENTRY_INSTRUCTION_LEN = 0x401a" | "intel_field TPR_THRESHOLD = 0x401c"
| "intel_field SECONDARY_VM_EXEC_CONTROL = 0x401e" | "intel_field PLE_GAP = 0x4020" | "intel_field PLE_WINDOW = 0x4022"
| "intel_field VM_EXIT_REASON = 0x4402" | "intel_field VM_EXIT_INTR_INFO = 0x4404"
| "intel_field VM_EXIT_INTR_ERROR_CODE = 0x4406" | "intel_field IDT_VECTORING_INFO_FIELD = 0x4408"
| "intel_field IDT_VECTORING_ERROR_CODE = 0x440a" | "intel_field VM_EXIT_INSTRUCTION_LEN = 0x440c"
| "intel_field GUEST_INTERRUPTIBILITY_INFO = 0x4824" | "intel_field GUEST_ACTIVITY_STATE = 0x4826"
| "intel_field GUEST_SYSENTER_CS = 0x482a" | "intel_field HOST_IA32_SYSENTER_CS = 0x4c00"
| "intel_field CR0_GUEST_HOST_MASK = 0x6000" | "intel_field CR4_GUEST_HOST_MASK = 0x6002"
| "intel_field CR0_READ_SHADOW = 0x6004" | "intel_field CR4_READ_SHADOW = 0x6006"
| "intel_field EXIT_QUALIFICATION = 0x6400" | "intel_field GUEST_CR0 = 0x6800" | "intel_field GUEST_CR3 = 0x6802"
| "intel_field GUEST_CR4 = 0x6804" | "intel_field GUEST_DR7 = 0x681a" | "intel_field GUEST_RSP = 0x681c"
| "intel_field GUEST_RIP = 0x681e" | "intel_field GUEST_RFLAGS = 0x6820"
| "intel_field GUEST_PENDING_DBG_EXCEPTIONS = 0x6822" | "intel_field GUEST_SYSENTER_ESP = 0x6824"
| "intel_field GUEST_SYSENTER_EIP = 0x6826" | "intel_field HOST_CR0 = 0x6c00" | "intel_field HOST_CR3 = 0x6c02"
| "intel_field HOST_CR4 = 0x6c04" | "intel_field HOST_FS_BASE = 0x6c06" | "intel_field HOST_GS_BASE = 0x6c08"
| "intel_field HOST_TR_BASE = 0x6c0a" | "intel_field HOST_GDTR_BASE = 0x6c0c" | "intel_field HOST_IDTR_BASE = 0x6c0e"
| "intel_field HOST_IA32_SYSENTER_ESP = 0x6c10" | "intel_field HOST_IA32_SYSENTER_EIP = 0x6c12"
| "intel_field HOST_RSP = 0x6c14" | "intel_field HOST_RIP = 0x6c16"

text \<open>A pair shows its field when the value is the field's whole content, cut to the field's width.\<close>

definition whole_field :: "'v vmx_hw \<Rightarrow> dump_env \<Rightarrow> 'v vmx_state \<Rightarrow> vmcs_field \<times> u64 \<Rightarrow> bool" where
  "whole_field hw e s fv \<longleftrightarrow>
     fst fv \<in> {GUEST_INTR_STATUS, SECONDARY_VM_EXEC_CONTROL} \<or>
     snd fv = take_bit (field_width (de_enc e (fst fv))) (vmcs_readl hw s (de_enc e (fst fv)))"

lemma ucast_ucast_take_bit:
  "ucast (ucast (x :: u64) :: u16) = take_bit 16 x" "ucast (ucast (x :: u64) :: u32) = take_bit 32 x"
  by (auto simp: bit_eq_iff bit_take_bit_iff bit_unsigned_iff)

lemma read_whole:
  assumes "de_enc e = intel_field"
  shows "field_width (intel_field f) = 16 \<Longrightarrow> whole_field hw e s (rd16 hw e s f)"
    "field_width (intel_field f) = 32 \<Longrightarrow> whole_field hw e s (rd32 hw e s f)"
    "field_width (intel_field f) = 64 \<Longrightarrow> whole_field hw e s (rd64 hw e s f)"
    "field_width (intel_field f) = 64 \<Longrightarrow> whole_field hw e s (rdl hw e s f)"
  using assms
  by (simp_all add: whole_field_def rd16_def rd32_def rd64_def rdl_def vmcs_read16_def vmcs_read32_def
      vmcs_read64_def ucast_ucast_take_bit take_bit_u64)

lemma controls_whole:
  assumes "de_enc e = intel_field"
  shows "whole_field hw e s (GUEST_CR4, dump_cr4 (dump_controls_of hw e s))"
    "whole_field hw e s (GUEST_IA32_EFER, dump_efer (dump_controls_of hw e s))"
    "whole_field hw e s (PIN_BASED_VM_EXEC_CONTROL, ucast (pin_based_exec_ctrl (dump_controls_of hw e s)))"
    "whole_field hw e s (CPU_BASED_VM_EXEC_CONTROL, ucast (cpu_based_exec_ctrl (dump_controls_of hw e s)))"
    "whole_field hw e s (VM_ENTRY_CONTROLS, ucast (vmentry_ctl (dump_controls_of hw e s)))"
    "whole_field hw e s (VM_EXIT_CONTROLS, ucast (vmexit_ctl (dump_controls_of hw e s)))"
    "whole_field hw e s (SECONDARY_VM_EXEC_CONTROL, v)" "whole_field hw e s (GUEST_INTR_STATUS, v)"
  using assms
  by (simp_all add: whole_field_def dump_controls_of_def vmcs_read32_def vmcs_read64_def field_width_def
      ucast_ucast_take_bit take_bit_u64 Let_def)

lemma dump_parts_whole:
  assumes "de_enc e = intel_field" and c: "c = dump_controls_of hw e s"
  shows "list_all (whole_field hw e s) (shown (dump_guest hw e s c))"
    "list_all (whole_field hw e s) (shown (dump_host hw e s c))"
    "list_all (whole_field hw e s) (shown (dump_tpr hw e s c))"
    "list_all (whole_field hw e s) (shown (dump_control hw e s c))"
proof -
  note wf = read_whole [OF assms(1)] controls_whole [OF assms(1), of hw s, folded c] field_width_def
  show "list_all (whole_field hw e s) (shown (dump_guest hw e s c))"
    by (simp add: dump_guest_def wf Let_def)
  show "list_all (whole_field hw e s) (shown (dump_host hw e s c))"
    by (simp add: dump_host_def wf Let_def)
  show "list_all (whole_field hw e s) (shown (dump_tpr hw e s c))"
    by (simp add: dump_tpr_def wf Let_def)
  then show "list_all (whole_field hw e s) (shown (dump_control hw e s c))"
    by (simp add: dump_control_def wf Let_def)
qed

definition example_dump :: dump_env where
  "example_dump = \<lparr>de_enc = intel_field, de_seg = intel_encoding, de_selector = selector_field,
     de_gdtr_limit = 0x4810, de_idtr_limit = 0x4812,
     de_bits = \<lparr>SECONDARY_EXEC_ENABLE_EPT = 2, SECONDARY_EXEC_VIRTUAL_INTR_DELIVERY = 0x200,
       SECONDARY_EXEC_TSC_SCALING = 0x2000000, SECONDARY_EXEC_VIRTUALIZE_APIC_ACCESSES = 1,
       SECONDARY_EXEC_PAUSE_LOOP_EXITING = 0x400, SECONDARY_EXEC_ENABLE_VPID = 0x20, CPU_BASED_TPR_SHADOW = 0x200000,
       PIN_BASED_POSTED_INTR = 0x80, VM_EXIT_SAVE_IA32_PAT = 0x40000, VM_EXIT_SAVE_IA32_EFER = 0x100000,
       VM_EXIT_LOAD_IA32_PAT = 0x80000, VM_EXIT_LOAD_IA32_EFER = 0x200000,
       VM_EXIT_LOAD_IA32_PERF_GLOBAL_CTRL = 0x1000, VM_ENTRY_LOAD_IA32_PAT = 0x4000, VM_ENTRY_LOAD_IA32_EFER = 0x8000,
       VM_ENTRY_LOAD_IA32_PERF_GLOBAL_CTRL = 0x2000, VM_ENTRY_LOAD_BNDCFGS = 0x10000, X86_CR4_PAE = 0x20,
       EFER_LMA = 0x400\<rparr>,
     de_dump_invalid_vmcs = True, de_has_secondary = False, de_has_perf_global = False\<rparr>"

section \<open>Properties\<close>



text \<open>
  On a processor without secondary controls the dump never reads a field that belongs to one of their
  features, which such a processor does not have.
\<close>

theorem vmx_dump_without_secondary:
  assumes "\<not> de_has_secondary e" and "(f, v) \<in> set (shown (vmx_dump_cpu hw e s))"
  shows "f \<notin> {GUEST_PDPTR0, GUEST_PDPTR1, GUEST_PDPTR2, GUEST_PDPTR3, GUEST_INTR_STATUS, TSC_MULTIPLIER,
    APIC_ACCESS_ADDR, EPT_POINTER, PLE_GAP, PLE_WINDOW, VIRTUAL_PROCESSOR_ID}"
proof -
  let ?P = "\<lambda>fv. fst fv \<notin> {GUEST_PDPTR0, GUEST_PDPTR1, GUEST_PDPTR2, GUEST_PDPTR3, GUEST_INTR_STATUS,
    TSC_MULTIPLIER, APIC_ACCESS_ADDR, EPT_POINTER, PLE_GAP, PLE_WINDOW, VIRTUAL_PROCESSOR_ID}"
  define c where "c = dump_controls_of hw e s"
  have c0: "secondary_exec_control c = 0" using assms(1) by (simp add: c_def dump_controls_of_def)
  have "list_all ?P (shown (dump_guest hw e s c))"
    by (simp add: dump_guest_def c0 rdl_def rd64_def rd32_def rd16_def Let_def)
  moreover have "list_all ?P (shown (dump_host hw e s c))"
    by (simp add: dump_host_def rdl_def rd64_def rd32_def rd16_def Let_def)
  moreover have "list_all ?P (shown (dump_control hw e s c))"
    by (simp add: dump_control_def dump_tpr_def c0 rdl_def rd64_def rd32_def rd16_def Let_def)
  ultimately have "list_all ?P (shown (vmx_dump_cpu hw e s))"
    by (simp add: vmx_dump_cpu_def Let_def c_def [symmetric])
  then show ?thesis using assms(2) by (auto simp: list_all_iff)
qed

theorem vmx_dump_without_secondary_witness:
  "(GUEST_CR3, 0x6802) \<in> set (shown (vmx_dump_cpu map_hw example_dump \<lparr>cur_vmcs = (\<lambda>f. f), vmx_log = []\<rparr>)) \<and>
   GUEST_CR3 \<notin> {GUEST_PDPTR0, EPT_POINTER}"
proof -
  have i: "(GUEST_CR3, 0x6802) \<in> set (shown (vmx_dump_cpu map_hw example_dump \<lparr>cur_vmcs = (\<lambda>f. f), vmx_log = []\<rparr>))"
    by (simp add: vmx_dump_cpu_def dump_guest_def example_dump_def rdl_def vmcs_readl_def map_hw_def Let_def)
  have "\<not> de_has_secondary example_dump" by (simp add: example_dump_def)
  from vmx_dump_without_secondary [OF this i] i show ?thesis by simp
qed

end
