(* ===== verification/Vmx_Run.thy ===== *)
theory Vmx_Run
  imports Svm_Vmcb
begin

text \<open>
  Entering and leaving the guest (\<^verbatim>\<open>__vmx_run_vcpu\<close>, \<^verbatim>\<open>vmx_run\<close> and \<^verbatim>\<open>svm_launch\<close> of \<^verbatim>\<open>src/vmx_mod/vmx.c\<close>) and
  the module's life cycle. The inline assembly is modelled instruction by instruction on a state
  with the general registers, the stack memory, the register array of the virtual CPU, the cached
  host stack pointer and the HOST_RSP field of the VMCS. What happens between \<^verbatim>\<open>vmlaunch\<close> or
  \<^verbatim>\<open>vmresume\<close> and the next instruction of the host is a parameter: the guest runs and leaves its
  registers (the processor then reloads the stack pointer from HOST_RSP and clears the flags), or
  the entry fails (registers unchanged, carry or zero flag set).
\<close>

section \<open>State\<close>

record asm_state =
  gpr :: "x86_reg \<Rightarrow> u64"
  stk :: "u64 \<Rightarrow> u64"
  regs_mem :: "u64 list"
  host_rsp :: u64
  vmcs_host_rsp :: u64

datatype vm_entry =
    Exited "x86_reg \<Rightarrow> u64"
  | Entry_failed

datatype run_fault = Bad_pointer

abbreviation rsp :: "asm_state \<Rightarrow> u64" where
  "rsp s \<equiv> gpr s VCPU_REGS_RSP"

section \<open>Instructions\<close>

definition push :: "u64 \<Rightarrow> asm_state \<Rightarrow> asm_state" where
  "push v s = s\<lparr>gpr := (gpr s)(VCPU_REGS_RSP := rsp s - 8), stk := (stk s)(rsp s - 8 := v)\<rparr>"

definition pop :: "asm_state \<Rightarrow> u64 \<times> asm_state" where
  "pop s = (stk s (rsp s), s\<lparr>gpr := (gpr s)(VCPU_REGS_RSP := rsp s + 8)\<rparr>)"

text \<open>
  A load from and a store to the register array through the pointer in RAX, which must be the
  array's address. The offset of a register is its index times eight, \<^verbatim>\<open>regs_offset\<close>.
\<close>

definition load_reg :: "u64 \<Rightarrow> x86_reg \<Rightarrow> asm_state \<Rightarrow> run_fault + asm_state" where
  "load_reg regs r s =
     (if gpr s VCPU_REGS_RAX \<noteq> regs then Inl Bad_pointer
      else Inr (s\<lparr>gpr := (gpr s)(r := regs_mem s ! reg_index r)\<rparr>))"

definition store_reg :: "u64 \<Rightarrow> x86_reg \<Rightarrow> u64 \<Rightarrow> asm_state \<Rightarrow> run_fault + asm_state" where
  "store_reg regs r v s =
     (if gpr s VCPU_REGS_RAX \<noteq> regs then Inl Bad_pointer
      else Inr (s\<lparr>regs_mem := set_reg r v (regs_mem s)\<rparr>))"

fun load_regs :: "u64 \<Rightarrow> x86_reg list \<Rightarrow> asm_state \<Rightarrow> run_fault + asm_state" where
  "load_regs regs [] s = Inr s"
| "load_regs regs (r # rs) s =
     (case load_reg regs r s of Inl f \<Rightarrow> Inl f | Inr s' \<Rightarrow> load_regs regs rs s')"

fun store_regs :: "u64 \<Rightarrow> x86_reg list \<Rightarrow> asm_state \<Rightarrow> run_fault + asm_state" where
  "store_regs regs [] s = Inr s"
| "store_regs regs (r # rs) s =
     (case store_reg regs r (gpr s r) s of Inl f \<Rightarrow> Inl f | Inr s' \<Rightarrow> store_regs regs rs s')"

text \<open>The registers in the order of the \<^verbatim>\<open>mov\<close> instructions; RAX is loaded last.\<close>

definition moved_regs :: "x86_reg list" where
  "moved_regs =
     [VCPU_REGS_RCX, VCPU_REGS_RDX, VCPU_REGS_RBX, VCPU_REGS_RSI, VCPU_REGS_RDI, VCPU_REGS_RBP,
      VCPU_REGS_R8, VCPU_REGS_R9, VCPU_REGS_R10, VCPU_REGS_R11, VCPU_REGS_R12, VCPU_REGS_R13,
      VCPU_REGS_R14, VCPU_REGS_R15]"

section \<open>Running the guest\<close>

text \<open>From the first \<^verbatim>\<open>push\<close> to the instruction that enters the guest.\<close>

definition vmx_enter :: "u64 \<Rightarrow> u64 \<Rightarrow> asm_state \<Rightarrow> run_fault + asm_state" where
  "vmx_enter vmx regs s =
     (let s1 = push regs (push regs (push vmx s));
          s2 = (if rsp s1 = host_rsp s1 then s1
                else s1\<lparr>host_rsp := rsp s1, vmcs_host_rsp := rsp s1\<rparr>);
          s3 = s2\<lparr>gpr := (gpr s2)(VCPU_REGS_RAX := stk s2 (rsp s2))\<rparr>
      in load_regs regs (moved_regs @ [VCPU_REGS_RAX]) s3)"

definition vm_transition :: "vm_entry \<Rightarrow> asm_state \<Rightarrow> asm_state \<times> bool" where
  "vm_transition e s =
     (case e of
        Exited g \<Rightarrow> (s\<lparr>gpr := g(VCPU_REGS_RSP := vmcs_host_rsp s, VCPU_REGS_RIP := gpr s VCPU_REGS_RIP)\<rparr>, False)
      | Entry_failed \<Rightarrow> (s, True))"

text \<open>From \<^verbatim>\<open>.Lkvm_vmx_return\<close> to the last \<^verbatim>\<open>pop\<close>; \<^verbatim>\<open>pop\<close> and \<^verbatim>\<open>mov\<close> leave the flags alone.\<close>

definition vmx_leave :: "u64 \<Rightarrow> asm_state \<Rightarrow> run_fault + (asm_state \<times> u64)" where
  "vmx_leave regs s =
     (let s1 = s\<lparr>stk := (stk s)(rsp s + 8 := gpr s VCPU_REGS_RAX)\<rparr>;
          (a, s2) = pop s1;
          s3 = s2\<lparr>gpr := (gpr s2)(VCPU_REGS_RAX := a)\<rparr>;
          (v, s4) = pop s3
      in case store_reg regs VCPU_REGS_RAX v s4 of
           Inl f \<Rightarrow> Inl f
         | Inr s5 \<Rightarrow>
             (case store_regs regs moved_regs s5 of
                Inl f \<Rightarrow> Inl f
              | Inr s6 \<Rightarrow> let (vmx, s7) = pop s6 in Inr (s7, vmx)))"

definition vmx_run_vcpu ::
  "(bool \<Rightarrow> (x86_reg \<Rightarrow> u64) \<Rightarrow> vm_entry) \<Rightarrow> u64 \<Rightarrow> u64 \<Rightarrow> bool \<Rightarrow> asm_state \<Rightarrow>
   run_fault + (asm_state \<times> bool \<times> u64)"
where
  "vmx_run_vcpu guest vmx regs launched s =
     (case vmx_enter vmx regs s of
        Inl f \<Rightarrow> Inl f
      | Inr s1 \<Rightarrow>
          let (s2, fail) = vm_transition (guest launched (gpr s1)) s1 in
          (case vmx_leave regs s2 of
             Inl f \<Rightarrow> Inl f
           | Inr (s3, v) \<Rightarrow> Inr (s3, fail, v)))"

section \<open>Correctness of the switch\<close>

text \<open>What the guest's registers are on entry.\<close>

definition entry_gprs :: "asm_state \<Rightarrow> x86_reg \<Rightarrow> u64" where
  "entry_gprs s r =
     (if r = VCPU_REGS_RSP then rsp s - 24
      else if r = VCPU_REGS_RIP then gpr s VCPU_REGS_RIP
      else get_reg (regs_mem s) r)"

definition coherent :: "asm_state \<Rightarrow> bool" where
  "coherent s \<longleftrightarrow> host_rsp s = vmcs_host_rsp s"

lemma load_regs_value:
  "gpr s VCPU_REGS_RAX = regs \<Longrightarrow> VCPU_REGS_RAX \<notin> set (butlast rs) \<Longrightarrow>
   load_regs regs rs s =
     Inr (s\<lparr>gpr := (\<lambda>r. if r \<in> set rs then regs_mem s ! reg_index r else gpr s r)\<rparr>)"
proof (induction rs arbitrary: s)
  case (Cons r rs)
  show ?case
  proof (cases "rs = []")
    case False
    then have "r \<noteq> VCPU_REGS_RAX" "VCPU_REGS_RAX \<notin> set (butlast rs)" using Cons.prems(2) by auto
    then show ?thesis using Cons.prems(1) Cons.IH [of "s\<lparr>gpr := (gpr s)(r := regs_mem s ! reg_index r)\<rparr>"]
      by (auto simp: load_reg_def intro!: arg_cong [where f = "\<lambda>g. s\<lparr>gpr := g\<rparr>"])
  qed (use Cons.prems in \<open>auto simp: load_reg_def intro!: arg_cong [where f = "\<lambda>g. s\<lparr>gpr := g\<rparr>"]\<close>)
qed simp

lemma store_regs_value:
  "gpr s VCPU_REGS_RAX = regs \<Longrightarrow>
   store_regs regs rs s = Inr (s\<lparr>regs_mem := write_all set_reg (map (\<lambda>r. (r, gpr s r)) rs) (regs_mem s)\<rparr>)"
proof (induction rs arbitrary: s)
  case (Cons r rs)
  then show ?case
    using Cons.IH [of "s\<lparr>regs_mem := set_reg r (gpr s r) (regs_mem s)\<rparr>"] by (simp add: store_reg_def)
qed simp

lemma vmx_enter_value:
  "vmx_enter vmx regs s =
     Inr (s\<lparr>gpr := entry_gprs s,
            stk := (stk s)(rsp s - 8 := vmx, rsp s - 16 := regs, rsp s - 24 := regs),
            host_rsp := rsp s - 24,
            vmcs_host_rsp := (if rsp s - 24 = host_rsp s then vmcs_host_rsp s else rsp s - 24)\<rparr>)"
proof -
  define s3 where "s3 = s\<lparr>gpr := (gpr s)(VCPU_REGS_RSP := rsp s - 24, VCPU_REGS_RAX := regs),
      stk := (stk s)(rsp s - 8 := vmx, rsp s - 16 := regs, rsp s - 24 := regs), host_rsp := rsp s - 24,
      vmcs_host_rsp := (if rsp s - 24 = host_rsp s then vmcs_host_rsp s else rsp s - 24)\<rparr>"
  have "vmx_enter vmx regs s = load_regs regs (moved_regs @ [VCPU_REGS_RAX]) s3"
    by (cases s) (simp add: vmx_enter_def push_def s3_def Let_def)
  moreover have "gpr s3 VCPU_REGS_RAX = regs" "VCPU_REGS_RAX \<notin> set (butlast (moved_regs @ [VCPU_REGS_RAX]))"
    by (simp_all add: s3_def moved_regs_def)
  moreover have "(\<lambda>r. if r \<in> set (moved_regs @ [VCPU_REGS_RAX]) then regs_mem s3 ! reg_index r else gpr s3 r) =
      entry_gprs s"
  proof
    fix r
    show "(if r \<in> set (moved_regs @ [VCPU_REGS_RAX]) then regs_mem s3 ! reg_index r else gpr s3 r) = entry_gprs s r"
      by (cases r) (simp_all add: moved_regs_def s3_def entry_gprs_def get_reg_def)
  qed
  ultimately show ?thesis using load_regs_value [of s3 regs] by (simp add: s3_def)
qed

lemma vmx_leave_value:
  assumes "stk s (rsp s) = regs"
  shows "vmx_leave regs s =
     Inr (s\<lparr>gpr := (gpr s)(VCPU_REGS_RAX := regs, VCPU_REGS_RSP := rsp s + 24),
            stk := (stk s)(rsp s + 8 := gpr s VCPU_REGS_RAX),
            regs_mem := write_all set_reg (map (\<lambda>r. (r, gpr s r)) (VCPU_REGS_RAX # moved_regs)) (regs_mem s)\<rparr>,
          stk s (rsp s + 16))"
proof -
  define s5 where "s5 = s\<lparr>gpr := (gpr s)(VCPU_REGS_RAX := regs, VCPU_REGS_RSP := rsp s + 16),
      stk := (stk s)(rsp s + 8 := gpr s VCPU_REGS_RAX),
      regs_mem := set_reg VCPU_REGS_RAX (gpr s VCPU_REGS_RAX) (regs_mem s)\<rparr>"
  have "map (\<lambda>r. (r, gpr s5 r)) moved_regs = map (\<lambda>r. (r, gpr s r)) moved_regs"
    "gpr s5 VCPU_REGS_RAX = regs"
    by (simp_all add: moved_regs_def s5_def)
  then have "store_regs regs moved_regs s5 =
      Inr (s5\<lparr>regs_mem := write_all set_reg (map (\<lambda>r. (r, gpr s r)) moved_regs) (regs_mem s5)\<rparr>)"
    by (simp only: store_regs_value)
  then show ?thesis using assms
    by (cases s) (simp add: vmx_leave_def pop_def store_reg_def Let_def s5_def fun_upd_twist
        add.commute [of 16] add.commute [of 24])
qed

text \<open>The array after the guest has left with the registers \<open>g\<close>.\<close>

lemma saved_regs:
  fixes g :: "x86_reg \<Rightarrow> u64"
  assumes "regs_ok m"
  defines "m' \<equiv> write_all set_reg (map (\<lambda>r. (r, g r)) (VCPU_REGS_RAX # moved_regs)) m"
  shows "regs_ok m'" "get_reg m' r = (if r = VCPU_REGS_RSP \<or> r = VCPU_REGS_RIP then get_reg m r else g r)"
proof -
  let ?kvs = "map (\<lambda>r. (r, g r)) (VCPU_REGS_RAX # moved_regs)"
  show "regs_ok m'" unfolding m'_def by (rule reg_file.ok_writes) (use assms(1) in simp_all)
  have "get_reg m' r = (case last_write ?kvs r of None \<Rightarrow> get_reg m r | Some v \<Rightarrow> v)"
    unfolding m'_def by (rule reg_file.get_writes) (use assms(1) in simp_all)
  moreover have "last_write ?kvs r = (if r = VCPU_REGS_RSP \<or> r = VCPU_REGS_RIP then None else Some (g r))"
    by (cases r) (simp_all add: last_write_def moved_regs_def)
  ultimately show "get_reg m' r = (if r = VCPU_REGS_RSP \<or> r = VCPU_REGS_RIP then get_reg m r else g r)"
    by simp
qed

lemma vmx_run_vcpu_value:
  assumes "coherent s"
  shows "vmx_run_vcpu guest vmx regs launched s =
    (let (g, fail) = (case guest launched (entry_gprs s) of
            Exited g \<Rightarrow> (g(VCPU_REGS_RSP := rsp s - 24, VCPU_REGS_RIP := gpr s VCPU_REGS_RIP), False)
          | Entry_failed \<Rightarrow> (entry_gprs s, True))
     in Inr (s\<lparr>gpr := g(VCPU_REGS_RAX := regs, VCPU_REGS_RSP := rsp s),
               stk := (stk s)(rsp s - 8 := vmx, rsp s - 16 := g VCPU_REGS_RAX, rsp s - 24 := regs),
               regs_mem := write_all set_reg (map (\<lambda>r. (r, g r)) (VCPU_REGS_RAX # moved_regs)) (regs_mem s),
               host_rsp := rsp s - 24, vmcs_host_rsp := rsp s - 24\<rparr>, fail, vmx))"
proof -
  define s1 where "s1 = s\<lparr>gpr := entry_gprs s,
      stk := (stk s)(rsp s - 8 := vmx, rsp s - 16 := regs, rsp s - 24 := regs),
      host_rsp := rsp s - 24, vmcs_host_rsp := rsp s - 24\<rparr>"
  have enter: "vmx_enter vmx regs s = Inr s1"
    using assms by (simp add: vmx_enter_value s1_def coherent_def)
  obtain s2 fail where t: "vm_transition (guest launched (gpr s1)) s1 = (s2, fail)" by force
  have s2: "s2 = s1\<lparr>gpr := gpr s2\<rparr>" "rsp s2 = rsp s - 24"
    "(gpr s2, fail) = (case guest launched (entry_gprs s) of
            Exited g \<Rightarrow> (g(VCPU_REGS_RSP := rsp s - 24, VCPU_REGS_RIP := gpr s VCPU_REGS_RIP), False)
          | Entry_failed \<Rightarrow> (entry_gprs s, True))"
    using t by (auto simp: vm_transition_def s1_def entry_gprs_def split: vm_entry.splits)
  have stk2: "stk s2 = (stk s)(rsp s - 8 := vmx, rsp s - 16 := regs, rsp s - 24 := regs)"
    by (subst s2(1)) (simp add: s1_def)
  have "stk s2 (rsp s2) = regs" using s2(2) stk2 by simp
  then have leave: "vmx_leave regs s2 =
      Inr (s2\<lparr>gpr := (gpr s2)(VCPU_REGS_RAX := regs, VCPU_REGS_RSP := rsp s2 + 24),
            stk := (stk s2)(rsp s2 + 8 := gpr s2 VCPU_REGS_RAX),
            regs_mem := write_all set_reg (map (\<lambda>r. (r, gpr s2 r)) (VCPU_REGS_RAX # moved_regs)) (regs_mem s2)\<rparr>,
          stk s2 (rsp s2 + 16))"
    by (rule vmx_leave_value)
  have "vmx_run_vcpu guest vmx regs launched s =
      (case vmx_leave regs s2 of Inl f \<Rightarrow> Inl f | Inr (s3, v) \<Rightarrow> Inr (s3, fail, v))"
    by (simp add: vmx_run_vcpu_def enter t)
  moreover have "regs_mem s2 = regs_mem s" by (subst s2(1)) (simp add: s1_def)
  moreover have "rsp s - 24 + 8 = rsp s - 16" "rsp s - 24 + 16 = rsp s - 8" by simp_all
  ultimately show ?thesis
    unfolding leave s2(3) [symmetric]
    using s2(1,2) stk2 by (cases s; cases s2) (simp add: s1_def fun_upd_twist)
qed

section \<open>The virtual CPU\<close>

record vmx_vcpu =
  vmx_asid :: int
  vmx_regs :: "u64 list"
  vmx_fail :: u8
  vmx_exit_reason :: u32
  vmx_launched :: bool

text \<open>
  \<^verbatim>\<open>vmx_run\<close> stores the failure flag and ends with a \<^verbatim>\<open>return\<close> that has no value, although it is
  declared to return \<^verbatim>\<open>int\<close>: the value its caller sees is indeterminate and is not part of the result.
  The array of the virtual CPU is the one the assembly works on.
\<close>

definition vmx_run ::
  "(bool \<Rightarrow> (x86_reg \<Rightarrow> u64) \<Rightarrow> vm_entry) \<Rightarrow> u64 \<Rightarrow> u64 \<Rightarrow> vmx_vcpu \<Rightarrow> asm_state \<Rightarrow>
   run_fault + (vmx_vcpu \<times> asm_state)"
where
  "vmx_run guest vmx regs v s =
     (case vmx_run_vcpu guest vmx regs (vmx_launched v) (s\<lparr>regs_mem := vmx_regs v\<rparr>) of
        Inl f \<Rightarrow> Inl f
      | Inr (s', fail, _) \<Rightarrow>
          Inr (v\<lparr>vmx_fail := (if fail then 1 else 0), vmx_regs := regs_mem s'\<rparr>, s'))"

datatype launch_msg = Exit_vmmcall | Exit_cpuid | Exit_msr | Exit_excp | Exit_reason int

record exit_codes =
  SVM_EXIT_VMMCALL :: int
  SVM_EXIT_CPUID :: int
  SVM_EXIT_MSR :: int
  SVM_EXIT_EXCP_BASE :: int

definition launch_switch :: "exit_codes \<Rightarrow> int \<Rightarrow> launch_msg" where
  "launch_switch c reason =
     (if reason = SVM_EXIT_VMMCALL c then Exit_vmmcall
      else if reason = SVM_EXIT_CPUID c then Exit_cpuid
      else if reason = SVM_EXIT_MSR c then Exit_msr
      else if SVM_EXIT_EXCP_BASE c \<le> reason \<and> reason \<le> SVM_EXIT_EXCP_BASE c + 19 then Exit_excp
      else Exit_reason reason)"

text \<open>
  The launch loop is left by the unconditional \<^verbatim>\<open>break\<close> at its end, so the guest runs once.
  \<^verbatim>\<open>svm_load_vcpu\<close>, \<^verbatim>\<open>svm_put_vcpu\<close> and \<^verbatim>\<open>svm_dump_cpu\<close> are not in the sources: the first two are
  arguments, the dump is a message. \<open>reason\<close> is the indeterminate value of \<^verbatim>\<open>vmx_run\<close>.
\<close>

definition svm_launch ::
  "exit_codes \<Rightarrow> (vmx_vcpu \<Rightarrow> vmx_vcpu) \<Rightarrow> (vmx_vcpu \<Rightarrow> vmx_vcpu) \<Rightarrow>
   (bool \<Rightarrow> (x86_reg \<Rightarrow> u64) \<Rightarrow> vm_entry) \<Rightarrow> u64 \<Rightarrow> u64 \<Rightarrow> int \<Rightarrow> vmx_vcpu \<Rightarrow> asm_state \<Rightarrow>
   run_fault + (vmx_vcpu \<times> asm_state \<times> launch_msg \<times> int)"
where
  "svm_launch c load put guest vmx regs reason v s =
     (case vmx_run guest vmx regs (load v) s of
        Inl f \<Rightarrow> Inl f
      | Inr (v', s') \<Rightarrow> Inr (put v', s', launch_switch c reason, 0))"

section \<open>The module\<close>

text \<open>
  The mask of processors, as a set. Enabling a processor that already has VMXE set is refused; its
  result is discarded by the kernel's \<^verbatim>\<open>on_each_cpu\<close>, a parameter, which is documented to run the
  function once on every online processor.
\<close>

definition EBUSY :: int where
  "EBUSY = 16"

definition vmx_hardware_enable :: "(nat \<Rightarrow> bool) \<Rightarrow> nat \<Rightarrow> nat set \<Rightarrow> nat set \<times> int" where
  "vmx_hardware_enable vmxe cpu cpus = (if vmxe cpu then (cpus, - EBUSY) else (insert cpu cpus, 0))"

definition vmx_hardware_disable :: "nat \<Rightarrow> nat set \<Rightarrow> nat set \<times> int" where
  "vmx_hardware_disable cpu cpus = (cpus, 0)"

type_synonym each_cpu = "(nat \<Rightarrow> nat set \<Rightarrow> nat set) \<Rightarrow> nat set \<Rightarrow> nat set"

definition vmx_init :: "each_cpu \<Rightarrow> (nat \<Rightarrow> bool) \<Rightarrow> nat set \<times> int" where
  "vmx_init on_each_cpu vmxe =
     (on_each_cpu (\<lambda>cpu cpus. fst (vmx_hardware_enable vmxe cpu cpus)) {}, 0)"

definition vmx_exit :: "each_cpu \<Rightarrow> nat set \<Rightarrow> nat set" where
  "vmx_exit on_each_cpu cpus = on_each_cpu (\<lambda>cpu cpus. fst (vmx_hardware_disable cpu cpus)) cpus"

definition each_cpu_law :: "each_cpu \<Rightarrow> nat set \<Rightarrow> bool" where
  "each_cpu_law on_each_cpu online \<longleftrightarrow>
     (\<forall>f cpus. \<exists>order. set order = online \<and> distinct order \<and> on_each_cpu f cpus = fold f order cpus)"

lemma enabled_cpus:
  "fold (\<lambda>cpu cpus. fst (vmx_hardware_enable vmxe cpu cpus)) order cpus = cpus \<union> {c \<in> set order. \<not> vmxe c}"
  by (induction order arbitrary: cpus) (auto simp: vmx_hardware_enable_def)

lemma disabled_cpus: "fold (\<lambda>cpu cpus. fst (vmx_hardware_disable cpu cpus)) order cpus = cpus"
  by (induction order) (auto simp: vmx_hardware_disable_def)

definition example_asm :: asm_state where
  "example_asm = \<lparr>gpr = (\<lambda>_. 0x8000), stk = (\<lambda>_. 0), regs_mem = replicate NR_REGS 5, host_rsp = 0,
     vmcs_host_rsp = 0\<rparr>"

lemma example_asm_ok: "coherent example_asm" "regs_ok (regs_mem example_asm)"
  by (simp_all add: example_asm_def coherent_def regs_ok_def)

text \<open>
  \<^verbatim>\<open>reload_tss\<close> marks the TSS descriptor as available and reloads the task register. The index of the
  descriptor, the layout of its type field and the reload are the kernel's: parameters.
\<close>

definition reload_tss :: "nat \<Rightarrow> (u8 \<Rightarrow> 'd \<Rightarrow> 'd) \<Rightarrow> ('d list \<Rightarrow> 's \<Rightarrow> 's) \<Rightarrow> 'd list \<times> 's \<Rightarrow> 'd list \<times> 's" where
  "reload_tss GDT_ENTRY_TSS set_type load_TR_desc st =
     (case st of (gdt, s) \<Rightarrow>
        let gdt = gdt[GDT_ENTRY_TSS := set_type 9 (gdt ! GDT_ENTRY_TSS)] in (gdt, load_TR_desc gdt s))"

lemma reload_tss_frame:
  assumes "reload_tss t set_type load_TR (gdt, s) = (gdt', s')" and "i \<noteq> t"
  shows "gdt' ! i = gdt ! i" "length gdt' = length gdt"
  using assms by (auto simp: reload_tss_def Let_def)

section \<open>Properties\<close>



text \<open>
  C38: the switch hands the guest's registers to the host: after an exit the callee-saved registers
  of the host hold the guest's values, which the assembly neither restores nor declares clobbered.
\<close>

theorem vmx_run_clobbers_host:
  assumes "coherent s" and "guest launched (entry_gprs s) = Exited g"
    and "r \<in> {VCPU_REGS_RBX, VCPU_REGS_RBP, VCPU_REGS_R12, VCPU_REGS_R13, VCPU_REGS_R14, VCPU_REGS_R15}"
  shows "\<exists>s'. vmx_run_vcpu guest vmx regs launched s = Inr (s', False, vmx) \<and> gpr s' r = g r"
  using assms(2,3) by (auto simp: vmx_run_vcpu_value [OF assms(1)])

theorem vmx_run_clobbers_host_witness:
  "\<exists>s'. vmx_run_vcpu (\<lambda>_ _. Exited (\<lambda>_. 7)) 0x100 0x200 False example_asm = Inr (s', False, 0x100) \<and>
     gpr s' VCPU_REGS_RBX = 7"
  by (rule vmx_run_clobbers_host [OF example_asm_ok(1)]) simp_all

text \<open>
  After loading the module the mask holds exactly the online processors on which VMX was not yet
  in use; loading succeeds even when there is none, and unloading leaves the mask as it is.
\<close>

theorem vmx_init_mask:
  assumes "each_cpu_law on_each_cpu online"
  shows "vmx_init on_each_cpu vmxe = ({c \<in> online. \<not> vmxe c}, 0) \<and> vmx_exit on_each_cpu cpus = cpus"
proof -
  obtain o1 where o1: "set o1 = online" "on_each_cpu (\<lambda>cpu cpus. fst (vmx_hardware_enable vmxe cpu cpus)) {} =
      fold (\<lambda>cpu cpus. fst (vmx_hardware_enable vmxe cpu cpus)) o1 {}"
    using assms unfolding each_cpu_law_def by blast
  obtain o2 where o2: "on_each_cpu (\<lambda>cpu cpus. fst (vmx_hardware_disable cpu cpus)) cpus =
      fold (\<lambda>cpu cpus. fst (vmx_hardware_disable cpu cpus)) o2 cpus"
    using assms unfolding each_cpu_law_def by blast
  show ?thesis by (simp add: vmx_init_def vmx_exit_def o1 o2 enabled_cpus disabled_cpus)
qed

theorem vmx_init_mask_witness:
  "vmx_init (\<lambda>f cpus. fold f [0, 1, 2] cpus) (\<lambda>c. c = 1) = ({0, 2}, 0)"
proof -
  have "each_cpu_law (\<lambda>f cpus. fold f [0, 1, 2] cpus) {0, 1, 2}"
    unfolding each_cpu_law_def by (intro allI exI [of _ "[0, 1, 2]"]) simp
  from vmx_init_mask [OF this, of "\<lambda>c. c = 1" "{}"] show ?thesis by auto
qed

end
