(* ===== verification/Spec2Isabelle.thy ===== *)
theory Spec2Isabelle
  imports Vm_Main Vm_Getopt Guest_Boot Guest_Disk Guest_Ports Guest_Handlers Virtio_Liveness Virtio_Reload Vfio Svm_Msrpm Svm_Vmcb Vmx_Dump Vmx_Run
begin

text \<open>
  \<^bold>\<open>A verification of the virtualization programs of this repository\<close>

  \<^bold>\<open>The programs.\<close> The repository holds five programs around hardware virtualization on x86:

  \<^item> \<^verbatim>\<open>src/vm.c\<close>: a monitor for the kernel's KVM interface. It parses its command line, creates a virtual
    machine with two memory regions, an interrupt route and one virtual CPU with a CPUID table, loads a
    guest image and runs it, emulating its port, screen and doorbell accesses.
  \<^item> \<^verbatim>\<open>src/asm\<close>: the guest image that runs in this monitor: start-up, page tables, descriptor tables, interrupt
    handlers and text output.
  \<^item> \<^verbatim>\<open>src/virtio\<close>: a virtio device for buffers; \<^verbatim>\<open>virtio_custdev.c\<close> is the guest's kernel driver,
    \<^verbatim>\<open>virtio-custdev.c\<close> the device in the emulator. The two share a pair of virtqueues.
  \<^item> \<^verbatim>\<open>src/vmx_mod\<close>: a kernel module that sets up and runs a guest itself: segment descriptors, a control
    block, a permission map for model-specific registers, accessors of the VMCS, the switch to the guest.
  \<^item> \<^verbatim>\<open>src/vfio.c\<close>: a program that opens a PCI device through VFIO and prints its identity.

  \<^bold>\<open>The theories.\<close> Each group of definitions has the names of the C code where HOL allows them.

  \<^item> \<open>VL_Prelude\<close>: the C integer types as words, C strings, the character classes, rule collections, and
    lemmas shared by the components. \<open>Cell_Store\<close>: the contract of a store of independent cells as a
    locale, with the facts on sequences of writes; the control block's intercepts and registers, the
    permission map, the VMCS, the guest's memory and its interrupt gates are interpretations or
    sublocales of it.
  \<^item> \<open>Vm_Args\<close> (\<^verbatim>\<open>vm.c\<close> 22-183): the option loop and the size option, character by character. The
    parsed options of \<^verbatim>\<open>getopt_long\<close> are the input. Shown: the size option equals a reference on lists,
    its value, that no argument is read beyond its end, and what happens to the digit F. \<open>Vm_Getopt\<close>
    (\<^verbatim>\<open>vm.c\<close> 89-107): the option tables and the library's \<^verbatim>\<open>getopt_long\<close> on them, from the words of the
    command line to the parsed options. Shown: processors, size and file are set as written, in any
    order and spelling, and the options of the usage text are read as others.
  \<^item> \<open>Vm_Cpuid\<close> (\<^verbatim>\<open>vm.c\<close> 186-307): the hundred-entry table with its cursor, the leaf loops. The processor
    is a parameter. Shown: the table handed to the kernel is a cursor-free reference table, and no
    processor makes the code leave the array.
  \<^item> \<open>Vm_Main\<close> (\<^verbatim>\<open>vm.c\<close> 20-76, 309-343, 402-644): set-up and run loop. The results of system calls are a
    record, the exits of the virtual CPU a list. Shown: the guest starts at its image, the machine has
    the reference CPUID table, text written to the screen comes out row by row, when the loop ends,
    and which failures are not noticed.
  \<^item> \<open>Guest_Paging\<close> (\<^verbatim>\<open>asm/page64.S\<close>, \<^verbatim>\<open>asm/page.h\<close>): clearing of pages and the stores that build the page
    tables, over a memory of four-byte cells, with the four-level walk of the architecture. Shown: clearing
    ends and zeroes exactly the pages, the tables map exactly a reference map, the stacks are usable.
  \<^item> \<open>Guest_Text\<close> (\<^verbatim>\<open>asm/libs64.S\<close>): characters, strings and hexadecimal numbers on the text screen, as the list
    of stores they make. Shown: numbers read back, nothing is stored outside the screen.
    \<open>Guest_Descriptors\<close> (\<^verbatim>\<open>asm/table_desc.S\<close>, \<^verbatim>\<open>asm/system_data.h\<close>, \<^verbatim>\<open>asm/libs64.S\<close>, \<^verbatim>\<open>asm/learn.S\<close>): the image of the
    tables and the routines that install it, over a memory of bytes. Shown: after \<^verbatim>\<open>entry64\<close> the
    processor finds every descriptor, the TSS and every gate. \<open>Guest_Handlers\<close> (\<^verbatim>\<open>asm/handler64.S\<close>,
    \<^verbatim>\<open>asm/apic64.S\<close>, \<^verbatim>\<open>asm/apic.h\<close>): the handlers on the frames that the processor pushes. Shown: what each
    prints, and for which exceptions that is wrong. \<open>Guest_Boot\<close> (\<^verbatim>\<open>asm/learn.S\<close>, \<^verbatim>\<open>asm/CPU.h\<close>): the
    way from real mode to 64-bit user code.
  \<^item> \<open>Guest_Disk\<close> (\<^verbatim>\<open>asm/pre_run.S\<close>): the drive's geometry, the sector translation and the loader of the image,
    with the BIOS as a parameter that sees the registers of each request. Shown: the requests load the
    image where it was linked, a failing read ends the loader, and which images and drives it fails for.
    \<open>Guest_Ports\<close> (\<^verbatim>\<open>asm/pre_run.S\<close>, \<^verbatim>\<open>asm/CPU.h\<close>): the timer mask and the port and delay macros.
  \<^item> \<open>Virtio_Transport\<close>: the virtqueues and the allocation of buffers, which are kernel and emulator code:
    parameters with named laws, a locale for them and a queue that satisfies it. \<open>Virtio_Driver\<close> and
    \<open>Virtio_Device\<close>: the operations of the two sides. A read is split where it waits for the callback.
    \<open>Virtio_System\<close>: the composition, as a step relation over all interleavings of driver operations,
    callbacks and device handlers. Shown: the invariant that keeps the device's unchecked array in
    bounds, the round trip of buffers, and the interleaving that breaks the device. \<open>Virtio_Liveness\<close>:
    any number of writes in flight; a fair schedule of handler and callback delivers them all, by a
    measure that every turn with something to do lowers.
    \<open>Virtio_Lifecycle\<close>: virtqueue creation, probe, remove, loading and unloading, with a life-time state
    of the one device structure, so that accesses after its release are faults, and with the table of
    configuration operations, whose missing members are null pointers. \<open>Virtio_Reload\<close>: the
    driver loaded anew on a device that keeps its buffers.
  \<^item> \<open>Vfio\<close> (\<^verbatim>\<open>vfio.c\<close>): the group number from the sysfs link, and every path of the program with the
    descriptors opened and closed on it.
  \<^item> \<open>Svm_Descriptors\<close>, \<open>Svm_Vmcb\<close>, \<open>Svm_Msrpm\<close>, \<open>Vmx_Ops\<close>, \<open>Vmx_Dump\<close>, \<open>Vmx_Run\<close> (\<^verbatim>\<open>vmx_mod\<close>): descriptor words
    and attribute words; intercepts and the transfer of a configuration to the control block; offsets and
    bits of the permission map; field readers and writers; the dump of all fields; the assembly of the
    switch with its two register files, and the module's load and unload. Kernel headers, the bit
    operations and the processor's VMCS are parameters with laws and concrete instances.
  \<^item> This theory: what holds of the guest image on the monitor, across the \<open>Guest\<close> theories and \<open>Vm_Main\<close>:
    its code and tables are in memory, its text and the reports of its handlers come out on the terminal,
    and its doorbell comes back as its timer interrupt.

  \<^bold>\<open>Faults.\<close> What C leaves undefined (an index outside an array, a read of an unset variable, an access
  to released memory, a null or failed pointer) is a value of a fault type on the left of a sum; a
  theorem that gives a right value also says that there is no such fault.

  \<^bold>\<open>Loops.\<close> A loop that always ends is a recursive function with its measure. The leaf loop of the CPUID
  table, the two clearing loops of the guest and the loop of its loader can run forever on some inputs; they are partial functions
  into options, and the theorems say for which inputs they return. The run loop takes the list of
  exits that the virtual CPU delivers, which is as long as the run. No fuel is used.

  \<^bold>\<open>Not modelled.\<close> The registration of the driver's file operations and identifiers and of the emulator's type,
  which hold no logic; the instruction set of the guest: its routines are translated one by one, with the
  registers that they pass, and a handler's effect on the registers of the code it interrupts is left
  out; the two routines of \<^verbatim>\<open>pre_run.S\<close> that only call the BIOS; the constants of the
  assembly headers that no code uses; build files.
\<close>

section \<open>The guest on the monitor\<close>

text \<open>
  The page tables of the guest image and the memory map of the monitor, together: what a
  guest-virtual access reaches.
\<close>

lemma machine_ram:
  assumes "vm_setup sz e = Inr mc"
  shows "is_ram mc a \<longleftrightarrow> 0x7000 \<le> a \<and> a < 0x87000 \<or> 0x100000 \<le> a \<and> a < 0x4100000"
  using vm_setup_machine(1) [OF assms]
  by (auto simp: is_ram_def in_region_def region1_def region2_def mem1_size_def mem2_size_def)

lemma screen_page:
  assumes "i < 0x1000"
  shows "guest_map ((0xb8000 + 2 * i) mod 2 ^ 48 div 4096) = Some ((0xb8000 + 2 * i) div 4096, True)"
proof -
  have "0xb8 \<le> (0xb8000 + 2 * i) div 4096" by (simp add: less_eq_div_iff_mult_less_eq)
  moreover have "(0xb8000 + 2 * i) div 4096 < 0xba" using assms by (simp add: div_less_iff_less_mult)
  ultimately have "(0xb8000 + 2 * i) div 4096 = 0xb8 \<or> (0xb8000 + 2 * i) div 4096 = 0xb9" by arith
  then show ?thesis using assms by (auto simp: guest_map_def)
qed

lemma guest_map_frames:
  assumes "guest_map p = Some (f, u)"
  shows "9 \<le> f \<and> f \<le> 0x20 \<or> 0xb8 \<le> f \<and> f \<le> 0xb9 \<or> 0x200 \<le> f \<and> f < 0xc00 \<or>
    0x8000 \<le> f \<and> f < 0x8200 \<or> 0xfee00 \<le> f \<and> f < 0xff000"
  using assms unfolding guest_map_def by (elim if_SomeE) (simp_all only: prod.inject option.distinct, arith+)

lemma screen_mapped:
  assumes "i < 0x1000"
  shows "translate (paged m) PML4T_BASE (cell_addr i) = Some (unat (cell_addr i), True, True)"
proof -
  have cell: "unat (cell_addr i) = 0xb8000 + 2 * i" using assms by (simp add: unat_cell_addr)
  show ?thesis
    unfolding translate_paged cell screen_page [OF assms] by (simp add: div_mult_mod_eq mult.commute)
qed

lemma screen_not_ram: "vm_setup sz e = Inr mc \<Longrightarrow> i < 0x1000 \<Longrightarrow> \<not> is_ram mc (unat (cell_addr i))"
  by (simp add: machine_ram unat_cell_addr)

text \<open>
  On a machine that the monitor set up, with the page tables of the guest, a character stored to any
  cell of the guest's screen appears on the monitor's terminal: the virtual address is mapped one
  to one and open to user code, it is not memory, so the store exits, and the loop prints it, after
  a newline at the beginning of a row.
\<close>

theorem guest_screen_reaches_console:
  assumes "vm_setup sz e = Inr mc" and "bit apic_base 8" and "i < 0x1000"
  shows "\<exists>m'. init_paging apic_base m = Some m' \<and>
    translate m' PML4T_BASE (cell_addr i) = Some (unat (cell_addr i), True, True) \<and>
    \<not> is_ram mc (unat (cell_addr i)) \<and>
    exit_step q (Exit_mmio (cell_addr i) 2 True (c # attr) 0) =
      ((if i mod 80 = 0 then [Newline] else []) @ [Console c], Running)"
  using init_paging_bootstrap [OF assms(2), of m] screen_mapped [OF assms(3)] screen_not_ram [OF assms(1,3)]
    cell_output [of i q c attr] assms(3) by simp

theorem guest_screen_reaches_console_witness:
  "\<exists>mc m'. vm_setup 0x930 example_boot = Inr mc \<and> init_paging 0xfee00900 (\<lambda>_. 0) = Some m' \<and>
     translate m' PML4T_BASE 0xb8000 = Some (0xb8000, True, True) \<and> \<not> is_ram mc 0xb8000"
proof -
  obtain mc where mc: "vm_setup 0x930 example_boot = Inr mc" using example_boot_runs by blast
  have "bit (0xfee00900 :: u32) 8" by simp
  from guest_screen_reaches_console [OF mc this, where i = 0 and m = "\<lambda>_. 0" and q = 5 and c = "0x41" and attr = "[]"] mc show ?thesis
    by (auto simp: cell_addr_def)
qed

text \<open>A store of the guest's output, as the exit that the monitor sees: two of its eight bytes.\<close>

definition store_exit :: "u64 \<times> u16 \<Rightarrow> kvm_exit" where
  "store_exit s = (case s of (a, w) \<Rightarrow>
     Exit_mmio a 2 True (ucast w # ucast (drop_bit 8 w) # replicate 6 0) 0)"

lemma line_stores_exits: "map store_exit (line_stores i cs) = screen_writes (0x0f # replicate 6 0) i cs"
  by (simp add: line_stores_def screen_writes_def store_exit_def screen_word_low screen_word_high case_prod_unfold)

lemma lines_stores_printed:
  assumes "r + sum_list (map rows ls) \<le> 51"
  shows "run_loop q (map store_exit (lines_stores r ls)) = (concat (map screen_lines ls), Running)"
  using assms
proof (induction ls arbitrary: r)
  case (Cons l ls)
  have "length l < rows l * 80"
    using mod_less_divisor [of 80 "length l"] div_mult_mod_eq [of "length l" 80] by (simp add: rows_def)
  then have "r * 80 + length l \<le> 0x1000" using Cons.prems by simp
  then have "run_loop q (map store_exit (line_stores (r * 80) l)) = (screen_lines l, Running)"
    unfolding line_stores_exits by (intro console_prints_rows) simp_all
  then show ?case using Cons.IH [of "r + rows l"] Cons.prems by (simp add: run_loop_continues)
qed simp

lemma lines_stores_cells:
  assumes "(a, w) \<in> set (lines_stores r ls)" and "r + sum_list (map rows ls) \<le> 51"
  shows "\<exists>i < 0x1000. a = cell_addr i"
  using assms
proof (induction ls arbitrary: r)
  case (Cons l ls)
  have "length l < rows l * 80"
    using mod_less_divisor [of 80 "length l"] div_mult_mod_eq [of "length l" 80] by (simp add: rows_def)
  then have le: "r * 80 + length l \<le> 0x1000" using Cons.prems(2) by simp
  show ?case
  proof (cases "(a, w) \<in> set (line_stores (r * 80) l)")
    case True
    then obtain k where "a = cell_addr k" "k < r * 80 + length l"
      by (auto simp: line_stores_def in_set_enumerate_eq)
    then show ?thesis using le by (intro exI [of _ k]) simp
  next
    case False
    then show ?thesis using Cons.prems by (intro Cons.IH [of "r + rows l"]) auto
  qed
qed simp

text \<open>
  C6: text that the guest prints appears on the monitor's terminal: on a machine that the monitor set
  up, with the page tables of the guest, every store that printing lines of text makes is mapped
  for the guest and leaves it, and the monitor prints the lines one after the other, each row after a
  newline, for every text that fits the screen; only empty lines leave no trace.
\<close>

theorem guest_text_reaches_terminal:
  assumes "vm_setup sz e = Inr mc" and "bit apic_base 8"
    and "at_cell (r * 80) t" and "\<forall>l \<in> set ls. \<forall>b \<in> set l. printable b" and "r + sum_list (map rows ls) \<le> 51"
  shows "\<exists>m' ws. init_paging apic_base m = Some m' \<and>
    stores (guest_puts (Some (text_of_lines ls)) t) = stores t @ ws \<and>
    (\<forall>(a, w) \<in> set ws. translate m' PML4T_BASE a = Some (unat a, True, True) \<and> \<not> is_ram mc (unat a)) \<and>
    run_loop q (map store_exit ws) = (concat (map screen_lines ls), Running)"
proof -
  have "stores (guest_puts (Some (text_of_lines ls)) t) = stores t @ lines_stores r ls"
    using puts_lines [OF assms(3-5)] text_zero_terminated [OF assms(4)] by (simp add: guest_puts_def)
  moreover have "translate (paged m) PML4T_BASE a = Some (unat a, True, True) \<and> \<not> is_ram mc (unat a)"
    if aw: "(a, w) \<in> set (lines_stores r ls)" for a w
  proof -
    obtain i where "a = cell_addr i" "i < 0x1000" using lines_stores_cells [OF aw assms(5)] by blast
    then show ?thesis using screen_mapped screen_not_ram [OF assms(1)] by blast
  qed
  ultimately show ?thesis
    using init_paging_bootstrap [OF assms(2), of m] lines_stores_printed [OF assms(5)] by blast
qed

theorem guest_text_reaches_terminal_witness:
  "\<exists>mc ws. vm_setup 0x930 example_boot = Inr mc \<and>
     stores (guest_puts (Some [0x48, 0x69, 10, 10, 0x21, 10, 0]) initial_text) = ws \<and>
     run_loop 5 (map store_exit ws) = ([Newline, Console 0x48, Console 0x69, Newline, Console 0x21], Running)"
proof -
  obtain mc where mc: "vm_setup 0x930 example_boot = Inr mc" using example_boot_runs by blast
  have b: "bit (0xfee00900 :: u32) 8" by simp
  have t: "at_cell (0 * 80) initial_text" by (simp add: at_cell_def initial_text_def cell_addr_def)
  from guest_text_reaches_terminal [OF mc b t, of "[[0x48, 0x69], [], [0x21]]" "\<lambda>_. 0" 5] mc show ?thesis
    by (auto simp: printable_def rows_def text_of_lines_def screen_lines.simps guest_puts_def zero_terminated_def
        initial_text_def)
qed

text \<open>
  C15: every address that the guest's tables map reaches memory of the monitor's machine, except the
  three device windows: the screen, the doorbell and the local APIC.
\<close>

theorem mapped_addresses_backed:
  assumes "vm_setup sz e = Inr mc" and "bit apic_base 8" and "init_paging apic_base m = Some m'"
    and "translate m' PML4T_BASE va = Some (pa, w, u)"
  shows "is_ram mc pa \<longleftrightarrow>
    \<not> (0xb8000 \<le> pa \<and> pa < 0xba000 \<or> 0x8000000 \<le> pa \<and> pa < 0x8200000 \<or> 0xfee00000 \<le> pa \<and> pa < 0xff000000)"
proof -
  have m': "m' = paged m" using init_paging_bootstrap [OF assms(2), of m] assms(3) by simp
  obtain f where f: "guest_map (unat va mod 2 ^ 48 div 4096) = Some (f, u)" and pa: "pa = f * 4096 + unat va mod 4096"
    using assms(4) unfolding m' translate_paged by auto
  have off: "unat va mod 4096 < 4096" by simp
  show ?thesis using guest_map_frames [OF f] off unfolding machine_ram [OF assms(1)] pa by auto
qed

theorem mapped_addresses_backed_witness:
  "\<exists>mc. vm_setup 0x930 example_boot = Inr mc \<and> is_ram mc 0x413234 \<and> \<not> is_ram mc 0xfee00123"
proof -
  obtain mc where mc: "vm_setup 0x930 example_boot = Inr mc" using example_boot_runs by blast
  have b: "bit (0xfee00900 :: u32) 8" by simp
  have t: "translate (paged (\<lambda>_. 0)) PML4T_BASE 0xfffffff810001234 = Some (0x413234, True, False)"
    "translate (paged (\<lambda>_. 0)) PML4T_BASE 0x800123 = Some (0xfee00123, True, False)"
    by (simp_all add: translate_paged guest_map_def)
  show ?thesis
    using mapped_addresses_backed [OF mc b init_paging_bootstrap [OF b] t(1)]
      mapped_addresses_backed [OF mc b init_paging_bootstrap [OF b] t(2)] mc by auto
qed



text \<open>
  A store of the guest to the doorbell raises the guest's interrupt: the address is mapped one to
  one and open to user code, it is not memory, so the store exits; the loop then signals the
  event descriptor that was registered for the interrupt line whose route is the message with vector
  0x30, and goes on.
\<close>

lemma doorbell_raises_interrupt:
  assumes "vm_setup sz e = Inr mc" and "bit apic_base 8"
  shows "\<exists>m'. init_paging apic_base m = Some m' \<and>
    translate m' PML4T_BASE 0x8000000 = Some (0x8000000, True, True) \<and> \<not> is_ram mc 0x8000000 \<and>
    exit_step (fst (m_irqfd mc)) (Exit_mmio 0x8000000 len True bs 8) =
      ([Doorbell 0x8000000 bs, Irq_signal (fst (m_irqfd mc))], Running) \<and>
    ks_irqefd (m_state mc) = Some (fst (m_irqfd mc)) \<and>
    snd (m_irqfd mc) = ir_gsi (m_route mc) \<and> ir_data (m_route mc) = 0x30"
proof -
  have "translate (paged m) PML4T_BASE 0x8000000 = Some (0x8000000, True, True)"
    by (simp add: translate_paged guest_map_def)
  moreover have "\<not> is_ram mc 0x8000000" by (simp add: machine_ram [OF assms(1)])
  ultimately show ?thesis
    using init_paging_bootstrap [OF assms(2), of m] vm_setup_machine(5-7) [OF assms(1)]
    by (simp add: exit_step_def mmio_exit_def msi_route_def)
qed

text \<open>The pages of the descriptor tables: mapped for the kernel only, to memory.\<close>

lemma system_data_mapped:
  assumes "vm_setup sz e = Inr mc" and "k < 0x2000"
  shows "translate (paged m) PML4T_BASE (SYSTEM_DATA64_BASE + of_nat k) = Some (0x410000 + k, True, False)"
    and "is_ram mc (0x410000 + k)"
proof -
  have "unat (of_nat (0xFFFFFFF800000000 + k) :: u64) = 0xFFFFFFF800000000 + k" using assms(2) by (intro unat_of_nat_small) simp
  then have u: "unat (SYSTEM_DATA64_BASE + of_nat k) = 0xFFFFFFF800000000 + k" by (simp add: SYSTEM_DATA64_BASE_def)
  have page: "(0xFFFFFFF800000000 + k) mod 2 ^ 48 div 4096 = 0xfff800000 + k div 4096"
  proof -
    have "(0xFFFFFFF800000000 + k) mod 2 ^ 48 = 0xfff800000000 + k"
      using mod_mult_self3 [of "0xffff" "2 ^ 48" "0xfff800000000 + k"] assms(2) by simp
    then show ?thesis using div_mult_self3 [of 4096 "0xfff800000" k] by simp
  qed
  have off: "(0xFFFFFFF800000000 + k) mod 4096 = k mod 4096"
    using mod_mult_self3 [of "0xFFFFFFF800000" 4096 k] by simp
  have "k div 4096 < 2" using assms(2) by (simp add: div_less_iff_less_mult)
  then have "k div 4096 = 0 \<or> k div 4096 = 1" by arith
  then have "guest_map (0xfff800000 + k div 4096) = Some (0x410 + k div 4096, False)" by (auto simp: guest_map_def)
  then show "translate (paged m) PML4T_BASE (SYSTEM_DATA64_BASE + of_nat k) = Some (0x410000 + k, True, False)"
    unfolding translate_paged u page off using div_mult_mod_eq [of k 4096] by simp
  show "is_ram mc (0x410000 + k)" using assms by (simp add: machine_ram)
qed

text \<open>Lines that a handler prints from the start of a row, on the monitor's terminal.\<close>

lemma type_out_reaches_terminal:
  assumes "at_cell (r * 80) t" "list_all (list_all printable) ls" "r + sum_list (map rows ls) \<le> 51"
    and "stores t' = stores t @ lines_stores r ls"
  shows "run_loop q (map store_exit (drop (length (stores t)) (stores t'))) = (concat (map screen_lines ls), Running)"
  using lines_stores_printed [OF assms(3)] assms(4) by simp

text \<open>
  C4: a store of the guest to the doorbell comes back as the guest's timer interrupt. The store
  leaves the guest and the loop signals the event descriptor registered for the interrupt line, whose
  route is a message with a vector; for that vector the tables that the guest has put in place, in
  memory that its page tables map for the kernel, hold the gate of the timer handler with the 64-bit
  kernel code segment; the handler acknowledges the interrupt and returns, and the dump that it
  prints, thirteen lines of registers between two messages, appears on the monitor's terminal.
\<close>

theorem doorbell_interrupt_handled:
  assumes "vm_setup sz e = Inr mc" and "bit apic_base 8"
    and "load_bytes src 2564 vm = system_data64 fill src" and "unat src < 2 ^ 32"
    and "at_cell (r * 80) t" and "r + 16 \<le> 51"
  shows "\<exists>pm idt vm' t'. init_paging apic_base m = Some pm \<and>
    translate pm PML4T_BASE 0x8000000 = Some (0x8000000, True, True) \<and> \<not> is_ram mc 0x8000000 \<and>
    exit_step (fst (m_irqfd mc)) (Exit_mmio 0x8000000 len True bs 8) =
      ([Doorbell 0x8000000 bs, Irq_signal (fst (m_irqfd mc))], Running) \<and>
    snd (m_irqfd mc) = ir_gsi (m_route mc) \<and>
    entry64_tables shrd addr src vm = (SYSTEM_DATA64_BASE, idt, vm') \<and>
    (\<forall>k < 0x500. \<exists>pa. translate pm PML4T_BASE (idt + of_nat k) = Some (pa, True, False) \<and> is_ram mc pa) \<and>
    gate_at vm' idt (ucast (ir_data (m_route mc))) = interrupt_gate 0 (addr apic_timer_handler) \<and>
    named_segment (gt_selector (interrupt_gate 0 (addr apic_timer_handler))) = Code 64 0 \<and>
    do_apic_timer_handler a t = ([(APIC_BASE + EOI, 0)], Returns t') \<and>
    run_loop q (map store_exit (drop (length (stores t)) (stores t'))) = (concat (map screen_lines (timer_lines a)), Running)"
proof -
  let ?B = SYSTEM_DATA64_BASE
  obtain vm' where tables: "entry64_tables shrd addr src vm = (?B, ?B + 0x100, vm')"
    and gates: "\<forall>v < IDT_VECTORS. case map_of installed_handlers v of
        None \<Rightarrow> \<not> gt_present (gate_at vm' (?B + 0x100) v)
      | Some h \<Rightarrow> gate_at vm' (?B + 0x100) v = interrupt_gate 0 (addr h)"
    using system_tables [OF assms(3,4), of shrd addr] by blast
  have gate: "gate_at vm' (?B + 0x100) 0x30 = interrupt_gate 0 (addr apic_timer_handler)"
    using spec [OF gates, of "0x30"] by (simp add: IDT_VECTORS_def installed_handlers_def vector_defs)
  have sel: "named_segment (gt_selector (interrupt_gate 0 (addr apic_timer_handler))) = Code 64 0"
    by (simp add: interrupt_gate_def named_segment_def segment_kind_def desc_decode_def kernel_code64_sel_def
        global_descriptor_table_def)
  have idt: "\<exists>pa. translate (paged m) PML4T_BASE (?B + 0x100 + of_nat k) = Some (pa, True, False) \<and> is_ram mc pa"
    if "k < 0x500" for k
    using system_data_mapped(1) [OF assms(1), of "0x100 + k" m] system_data_mapped(2) [OF assms(1), of "0x100 + k"] that
    by (simp add: add.assoc)
  have dump: "run_loop q (map store_exit (drop (length (stores t)) (stores (type_out (text_of_lines (timer_lines a)) t)))) =
      (concat (map screen_lines (timer_lines a)), Running)"
    using assms(5,6) by (intro type_out_reaches_terminal type_out_lines) (simp_all add: timer_lines_printable timer_lines_rows)
  from doorbell_raises_interrupt [OF assms(1,2), of m len bs] show ?thesis
    using tables gate sel idt dump init_paging_bootstrap [OF assms(2), of m] timer_handler_text [of a t]
    by (intro exI [of _ "paged m"] exI [of _ "?B + 0x100"] exI [of _ vm'] exI [of _ "type_out (text_of_lines (timer_lines a)) t"]) auto
qed

theorem doorbell_interrupt_handled_witness:
  "\<exists>mc vm t'. vm_setup 0x930 example_boot = Inr mc \<and>
     load_bytes 0xa000 2564 vm = system_data64 (\<lambda>_. 0x90) 0xa000 \<and>
     do_apic_timer_handler (\<lambda>off. ucast off) initial_text = ([(0x8000b0, 0)], Returns t') \<and>
     run_loop 5 (map store_exit (stores t')) = (concat (map screen_lines (timer_lines (\<lambda>off. ucast off))), Running)"
proof -
  obtain mc where mc: "vm_setup 0x930 example_boot = Inr mc" using example_boot_runs by blast
  have b: "bit (0xfee00900 :: u32) 8" by simp
  let ?m = "store_bytes 0xa000 (system_data64 (\<lambda>_. 0x90) 0xa000) (\<lambda>_. 0)"
  have l: "load_bytes 0xa000 2564 ?m = system_data64 (\<lambda>_. 0x90) 0xa000"
    using load_bytes_stored [of 0 "system_data64 (\<lambda>_. 0x90) 0xa000" 0 2564 "0xa000"] by (simp add: length_system_data64)
  have t: "at_cell (0 * 80) initial_text" by (simp add: at_cell_def initial_text_def cell_addr_def)
  have n: "unat (0xa000 :: u64) < 2 ^ 32" by simp
  obtain t' where "do_apic_timer_handler (\<lambda>off. ucast off) initial_text = ([(APIC_BASE + EOI, 0)], Returns t')"
    "run_loop 5 (map store_exit (drop (length (stores initial_text)) (stores t'))) =
      (concat (map screen_lines (timer_lines (\<lambda>off. ucast off))), Running)"
    using doorbell_interrupt_handled [OF mc b l n t, where a = "\<lambda>off. ucast off" and q = 5 and m = "\<lambda>_. 0"
      and len = 4 and bs = "[1]" and shrd = "\<lambda>_ _. 0" and addr = "\<lambda>_. 0x10123"] by auto
  then show ?thesis
    using mc l by (intro exI [of _ mc] exI [of _ ?m] exI [of _ t']) (simp add: initial_text_def APIC_BASE_def EOI_def)
qed

text \<open>
  C21: a page fault of the guest is shown on the monitor's terminal: with the frame that the processor
  pushes, the handler prints a message, the address of the faulting instruction and the address that
  it accessed, and stops.
\<close>

theorem page_fault_shown:
  assumes "frame_at sp (Some e) i m" and "at_cell (r * 80) t" and "r + 3 \<le> 51"
  shows "\<exists>t'. do_PF_handler cr2 sp m t = Loops t' \<and>
    run_loop q (map store_exit (drop (length (stores t)) (stores t'))) =
      (concat (map screen_lines [chars ''>>> Now, enter #PF handler'', value_line ''>>>>>>> occur at: 0x'' (it_rip i),
         value_line ''>>>>>>> page fault address: 0x'' cr2]), Running)"
proof -
  let ?ls = "[chars ''>>> Now, enter #PF handler'', value_line ''>>>>>>> occur at: 0x'' (it_rip i),
    value_line ''>>>>>>> page fault address: 0x'' cr2]"
  have "do_PF_handler cr2 sp m t = Loops (type_out (text_of_lines ?ls) t)"
    using frame_with_code(2) [OF assms(1)]
    by (simp add: do_PF_handler_def printing text_of_lines_def chars_all Let_def del: hex_digits_simps)
  moreover have "list_all (list_all printable) ?ls"
    by (simp add: printable_values) (simp add: printable_string_def printable_def)
  moreover have "sum_list (map rows ?ls) = 3" by (simp add: rows_def chars_def del: hex_digits_simps)
  with assms(3) have "r + sum_list (map rows ?ls) \<le> 51" by simp
  ultimately show ?thesis
    using type_out_reaches_terminal [OF assms(2) _ _ type_out_lines [OF assms(2)]] by blast
qed

theorem page_fault_shown_witness:
  "\<exists>m t'. frame_at 0x1000 (Some 2) example_interrupted m \<and> do_PF_handler 0xdead000 0x1000 m initial_text = Loops t' \<and>
     run_loop 5 (map store_exit (stores t')) =
       (concat (map screen_lines [chars ''>>> Now, enter #PF handler'', value_line ''>>>>>>> occur at: 0x'' 0x10123,
         value_line ''>>>>>>> page fault address: 0x'' 0xdead000]), Running)"
proof -
  let ?m = "store_bytes 0x1000 (quads (pushed_frame (Some 2) example_interrupted)) (\<lambda>_. 0)"
  have f: "frame_at 0x1000 (Some 2) example_interrupted ?m" by (rule frame_stored)
  have t: "at_cell (0 * 80) initial_text" by (simp add: at_cell_def initial_text_def cell_addr_def)
  from page_fault_shown [OF f t, of "0xdead000" 5] obtain t' where
    "do_PF_handler 0xdead000 0x1000 ?m initial_text = Loops t'"
    "run_loop 5 (map store_exit (drop (length (stores initial_text)) (stores t'))) =
       (concat (map screen_lines [chars ''>>> Now, enter #PF handler'',
         value_line ''>>>>>>> occur at: 0x'' (it_rip example_interrupted),
         value_line ''>>>>>>> page fault address: 0x'' 0xdead000]), Running)" by auto
  then show ?thesis using f
    by (intro exI [of _ ?m] exI [of _ t']) (simp add: example_interrupted_def initial_text_def del: hex_digits_simps)
qed

end
